(* ===== verification/Prelude.thy ===== *)
theory Prelude
  imports Complex_Main "HOL-Library.Word" "HOL-Library.Signed_Division"
begin

text \<open>
  Shared vocabulary of the ncmpvc model (\<^verbatim>\<open>src/src/main.rs\<close>).
  \<^item> Rust panics are values: \<open>rust_error\<close>, and a computation that may panic has
    type \<open>'a res = rust_error + 'a\<close>, sequenced by \<open>res_bind\<close>.
  \<^item> \<open>usize\<close> is \<open>nat\<close>; its subtraction is \<open>usub\<close>, which panics on underflow as a
    debug build of the program does (\<open>attempt to subtract with overflow\<close>).
  \<^item> \<open>x as i32\<close> on a \<open>usize\<close> is \<open>as_i32\<close> (low 32 bits, two's complement); i32
    arithmetic that may leave the range is checked by \<open>i32_ok\<close>.
  \<^item> The repaint messages of the channel (\<open>enum Repaint\<close> and its parts, lines
    43--68) are the interface between the producers and the render loop.
  \<^item> Decimal printing (\<open>format!("{}", n)\<close>) is \<open>show_nat\<close> and \<open>show_int\<close>.
  \<^item> \<open>f64\<close> is \<open>f64\<close>: a finite value (a real, without rounding), the two infinities or
    NaN, so that division by zero and the saturating casts \<open>as i32\<close>/\<open>as i64\<close> of
    Rust are modelled; rounding and the sign of zero are not (every zero is \<open>+0\<close>).
  The collection \<open>rust_ops\<close> holds the evaluation rules of these primitives.
\<close>

named_theorems rust_ops "evaluation rules of the modelled Rust primitives"

section \<open>Panics as values\<close>

datatype rust_error =
    SubOverflow       \<comment> \<open>usize subtraction below zero\<close>
  | ArithOverflow     \<comment> \<open>i32 arithmetic out of range\<close>
  | UnwrapNone        \<comment> \<open>\<open>Option::unwrap\<close> on \<open>None\<close>\<close>
  | InvalidChar       \<comment> \<open>\<open>char::from_u32(..).expect("Invalid char")\<close>\<close>
  | CommandFailed     \<comment> \<open>\<open>.unwrap()\<close>/\<open>.expect()\<close> on a failed mpv command\<close>
  | IndexOutOfBounds  \<comment> \<open>\<open>v[i]\<close> with \<open>i \<ge> v.len()\<close>\<close>
  | NotCharBoundary   \<comment> \<open>\<open>String::truncate\<close> inside a UTF-8 sequence\<close>
  | PoisonedLock      \<comment> \<open>\<open>lock().unwrap()\<close> of a mutex poisoned by a panic\<close>

type_synonym 'a res = "rust_error + 'a"

definition res_bind :: "'a res \<Rightarrow> ('a \<Rightarrow> 'b res) \<Rightarrow> 'b res" where
  "res_bind m f = (case m of Inl e \<Rightarrow> Inl e | Inr x \<Rightarrow> f x)"

lemma res_bind_Inr [simp, rust_ops]: "res_bind (Inr x) f = f x"
  by (simp add: res_bind_def)

lemma res_bind_Inl [simp, rust_ops]: "res_bind (Inl e) f = Inl e"
  by (simp add: res_bind_def)

lemma res_bind_assoc [rust_ops]: "res_bind (res_bind m f) g = res_bind m (\<lambda>x. res_bind (f x) g)"
  by (cases m) simp_all

lemma res_bind_return [rust_ops]: "res_bind m Inr = m"
  by (cases m) simp_all

lemma res_bind_eq_Inr:
  "res_bind m f = Inr y \<longleftrightarrow> (\<exists>x. m = Inr x \<and> f x = Inr y)"
  by (cases m) auto

section \<open>usize and i32 arithmetic\<close>

definition usub :: "nat \<Rightarrow> nat \<Rightarrow> nat res" where
  "usub a b = (if b \<le> a then Inr (a - b) else Inl SubOverflow)"

lemma usub_ok [simp, rust_ops]: "b \<le> a \<Longrightarrow> usub a b = Inr (a - b)"
  by (simp add: usub_def)

lemma usub_fail [simp, rust_ops]: "a < b \<Longrightarrow> usub a b = Inl SubOverflow"
  by (simp add: usub_def)

definition vec_index :: "'a list \<Rightarrow> nat \<Rightarrow> 'a res" where
  "vec_index xs i = (if i < length xs then Inr (xs ! i) else Inl IndexOutOfBounds)"

lemma vec_index_ok [simp, rust_ops]: "i < length xs \<Longrightarrow> vec_index xs i = Inr (xs ! i)"
  by (simp add: vec_index_def)

definition as_i32 :: "nat \<Rightarrow> int" where
  "as_i32 n = sint (word_of_nat n :: 32 word)"

lemma as_i32_small [simp, rust_ops]:
  assumes "n < 2 ^ 31"
  shows "as_i32 n = int n"
proof -
  from assms have "take_bit 32 n = n"
    by (simp add: take_bit_nat_eq_self_iff)
  moreover from assms have "signed_take_bit 31 (int n) = int n"
    by (simp add: signed_take_bit_int_eq_self_iff)
  ultimately show ?thesis
    by (simp add: as_i32_def sint_uint uint_word_of_int_eq unsigned_of_nat)
qed

definition i32_ok :: "int \<Rightarrow> int res" where
  "i32_ok x = (if - (2 ^ 31) \<le> x \<and> x < 2 ^ 31 then Inr x else Inl ArithOverflow)"

lemma i32_ok_in [simp, rust_ops]: "- (2 ^ 31) \<le> x \<Longrightarrow> x < 2 ^ 31 \<Longrightarrow> i32_ok x = Inr x"
  by (simp add: i32_ok_def)

lemma i32_ok_out [rust_ops]: "2 ^ 31 \<le> x \<Longrightarrow> i32_ok x = Inl ArithOverflow"
  by (simp add: i32_ok_def)

section \<open>f64 values\<close>

datatype f64 = Fin real | PInf | NInf | NaN

fun fdiv :: "f64 \<Rightarrow> f64 \<Rightarrow> f64" where
  "fdiv (Fin x) (Fin y) =
     (if y \<noteq> 0 then Fin (x / y) else if 0 < x then PInf else if x < 0 then NInf else NaN)"
| "fdiv (Fin x) PInf = Fin 0"
| "fdiv (Fin x) NInf = Fin 0"
| "fdiv PInf (Fin y) = (if 0 \<le> y then PInf else NInf)"
| "fdiv NInf (Fin y) = (if 0 \<le> y then NInf else PInf)"
| "fdiv _ _ = NaN"

fun fmul :: "f64 \<Rightarrow> f64 \<Rightarrow> f64" where
  "fmul (Fin x) (Fin y) = Fin (x * y)"
| "fmul (Fin x) PInf = (if 0 < x then PInf else if x < 0 then NInf else NaN)"
| "fmul (Fin x) NInf = (if 0 < x then NInf else if x < 0 then PInf else NaN)"
| "fmul PInf (Fin y) = (if 0 < y then PInf else if y < 0 then NInf else NaN)"
| "fmul NInf (Fin y) = (if 0 < y then NInf else if y < 0 then PInf else NaN)"
| "fmul PInf PInf = PInf"
| "fmul NInf NInf = PInf"
| "fmul PInf NInf = NInf"
| "fmul NInf PInf = NInf"
| "fmul _ _ = NaN"

definition trunc_real :: "real \<Rightarrow> int" where
  "trunc_real x = (if 0 \<le> x then \<lfloor>x\<rfloor> else \<lceil>x\<rceil>)"

text \<open>Rust's float-to-integer \<open>as\<close> cast into \<open>[lo, hi]\<close>: truncation, saturation, NaN to 0.\<close>

fun f_as_int :: "int \<Rightarrow> int \<Rightarrow> f64 \<Rightarrow> int" where
  "f_as_int lo hi (Fin x) = max lo (min hi (trunc_real x))"
| "f_as_int lo hi PInf = hi"
| "f_as_int lo hi NInf = lo"
| "f_as_int lo hi NaN = 0"

abbreviation f_as_i32 :: "f64 \<Rightarrow> int" where
  "f_as_i32 \<equiv> f_as_int (- (2 ^ 31)) (2 ^ 31 - 1)"

abbreviation f_as_i64 :: "f64 \<Rightarrow> int" where
  "f_as_i64 \<equiv> f_as_int (- (2 ^ 63)) (2 ^ 63 - 1)"

fun flt :: "f64 \<Rightarrow> f64 \<Rightarrow> bool" where
  "flt (Fin x) (Fin y) = (x < y)"
| "flt (Fin x) PInf = True"
| "flt NInf (Fin y) = True"
| "flt NInf PInf = True"
| "flt _ _ = False"

lemma trunc_real_of_int [simp, rust_ops]: "trunc_real (of_int s) = s"
  by (simp add: trunc_real_def)

section \<open>The repaint messages (lines 43--68)\<close>

datatype Formatting = Normal | Blinking

datatype UpdateStatusBar = StatusClear | Time | Message string Formatting

datatype UpdateTopBar = TopClear | Metadata | Speed | Volume

datatype Repaint =
    RPlaylist (clear_win: bool) (scroll_to_beginning: bool)
  | StatusBar UpdateStatusBar
  | TopBar UpdateTopBar

abbreviation redraw_list :: Repaint where
  "redraw_list \<equiv> RPlaylist False False"

abbreviation reload_list :: Repaint where
  "reload_list \<equiv> RPlaylist True True"

section \<open>Key codes (lines 23--41)\<close>

definition KEY_ENTER :: int where "KEY_ENTER = 10"
definition KEY_ESC :: int where "KEY_ESC = 27"
definition KEY_BACKSPACE :: int where "KEY_BACKSPACE = 127"
definition KEY_GT :: int where "KEY_GT = 62"
definition KEY_LT :: int where "KEY_LT = 60"
definition KEY_PLUS :: int where "KEY_PLUS = 43"
definition KEY_MINUS :: int where "KEY_MINUS = 45"
definition KEY_LSBR :: int where "KEY_LSBR = 91"
definition KEY_RSBR :: int where "KEY_RSBR = 93"
definition KEY_M :: int where "KEY_M = 109"
definition KEY_N :: int where "KEY_N = 110"
definition KEY_O :: int where "KEY_O = 111"
definition KEY_P :: int where "KEY_P = 112"
definition KEY_Q :: int where "KEY_Q = 113"
definition KEY_R :: int where "KEY_R = 114"
definition KEY_S :: int where "KEY_S = 115"
definition KEY_U :: int where "KEY_U = 117"
definition KEY_Z :: int where "KEY_Z = 122"
definition KEY_SLASH :: int where "KEY_SLASH = 47"

text \<open>The ncurses codes of the special keys the input thread matches (ncurses library
  constants, not defined in the program).\<close>

definition NC_KEY_DOWN :: int where "NC_KEY_DOWN = 258"
definition NC_KEY_UP :: int where "NC_KEY_UP = 259"
definition NC_KEY_LEFT :: int where "NC_KEY_LEFT = 260"
definition NC_KEY_RIGHT :: int where "NC_KEY_RIGHT = 261"
definition NC_KEY_NPAGE :: int where "NC_KEY_NPAGE = 338"
definition NC_KEY_PPAGE :: int where "NC_KEY_PPAGE = 339"

lemmas key_codes = KEY_ENTER_def KEY_ESC_def KEY_BACKSPACE_def KEY_GT_def KEY_LT_def
  KEY_PLUS_def KEY_MINUS_def KEY_LSBR_def KEY_RSBR_def KEY_M_def KEY_N_def KEY_O_def KEY_P_def
  KEY_Q_def KEY_R_def KEY_S_def KEY_U_def KEY_Z_def KEY_SLASH_def NC_KEY_DOWN_def NC_KEY_UP_def
  NC_KEY_LEFT_def NC_KEY_RIGHT_def NC_KEY_NPAGE_def NC_KEY_PPAGE_def

section \<open>Decimal printing\<close>

definition digit_char :: "nat \<Rightarrow> char" where
  "digit_char d = ''0123456789'' ! d"

fun show_nat :: "nat \<Rightarrow> string" where
  "show_nat n = (if n < 10 then [digit_char n]
                 else show_nat (n div 10) @ [digit_char (n mod 10)])"

declare show_nat.simps [simp del]

definition show_int :: "int \<Rightarrow> string" where
  "show_int i = (if i < 0 then CHR ''-'' # show_nat (nat (- i)) else show_nat (nat i))"

lemma show_nat_digit [simp, rust_ops]: "n < 10 \<Longrightarrow> show_nat n = [digit_char n]"
  by (simp add: show_nat.simps)

lemma show_nat_step [rust_ops]:
  "10 \<le> n \<Longrightarrow> show_nat n = show_nat (n div 10) @ [digit_char (n mod 10)]"
  by (simp add: show_nat.simps)

lemma show_nat_length_pos: "0 < length (show_nat n)"
  by (induction n rule: show_nat.induct) (simp add: show_nat.simps)

lemma show_nat_length_two: "10 \<le> n \<Longrightarrow> n < 100 \<Longrightarrow> length (show_nat n) = 2"
  by (simp add: show_nat_step)

lemma show_nat_length_ge_two: "10 \<le> n \<Longrightarrow> 2 \<le> length (show_nat n)"
  using show_nat_length_pos [of "n div 10"] by (simp add: show_nat_step Suc_leI)

end
