(* ===== verification/Viewport.thy ===== *)
theory Viewport
  imports Prelude
begin

text \<open>
  The playlist viewport of \<^verbatim>\<open>src/src/main.rs\<close>: the shared \<open>PlaylistCanvas\<close>
  (lines 82--86), the playlist entries of the mpv client library, the centering routine
  \<open>try_center_id\<close> (lines 1013--1039) and \<open>jump_to_current\<close> (lines 987--1000), the
  four navigation handlers of the input thread (KEY_UP, KEY_DOWN, KEY_PPAGE, KEY_NPAGE,
  lines 324--419), and the canvas correction done by the render loop on a
  \<open>Repaint::Playlist\<close> request (lines 705--727).
  \<open>H\<close> is \<open>height_playlist_win\<close>, the number of rows of the playlist pane.
  Every handler is the composition of what it reads and writes under the canvas lock,
  taken as one update of the canvas.
  The invariant \<open>canvas_ok\<close> says that the window is \<open>H\<close> rows tall and that the
  selection is visible and inside the playlist; its preservation is proved for each
  handler followed by the render loop's correction.
\<close>

section \<open>Data\<close>

record PlaylistCanvas =
  top_line :: nat
  bottom_line :: nat
  selected_line :: nat

text \<open>\<open>mpvipc::PlaylistEntry\<close>: \<open>id\<close> is renamed \<open>entry_id\<close> (\<open>id\<close> is HOL's identity).\<close>

record PlaylistEntry =
  entry_id :: nat
  filename :: string
  title :: string
  current :: bool

type_synonym Playlist = "PlaylistEntry list"

section \<open>Centering (lines 987--1039)\<close>

definition try_center_id :: "Playlist \<Rightarrow> PlaylistCanvas \<Rightarrow> nat \<Rightarrow> PlaylistCanvas option res" where
  "try_center_id playlist canvas i =
     res_bind (usub (bottom_line canvas) (top_line canvas)) (\<lambda>line_count.
       if i < length playlist then
         (if i < line_count div 2 then
            Inr (Some \<lparr>top_line = 0, bottom_line = 0 + line_count, selected_line = i\<rparr>)
          else res_bind (usub (length playlist) (line_count div 2)) (\<lambda>lim.
            if lim < i then
              res_bind (usub (length playlist) line_count) (\<lambda>top.
                Inr (Some \<lparr>top_line = top, bottom_line = length playlist, selected_line = i\<rparr>))
            else
              res_bind (usub i (line_count div 2)) (\<lambda>top.
                Inr (Some \<lparr>top_line = top, bottom_line = top + line_count, selected_line = i\<rparr>))))
       else Inr None)"

text \<open>The \<open>for (id, entry) in enumerate\<close> loop with its \<open>break\<close>: the index of the
  first current entry, or the initial value \<open>0\<close> of \<open>current_id\<close>.\<close>

fun find_current :: "nat \<Rightarrow> Playlist \<Rightarrow> nat" where
  "find_current i [] = 0"
| "find_current i (e # es) = (if current e then i else find_current (Suc i) es)"

definition jump_to_current :: "Playlist \<Rightarrow> PlaylistCanvas \<Rightarrow> PlaylistCanvas option res" where
  "jump_to_current playlist canvas = try_center_id playlist canvas (find_current 0 playlist)"

section \<open>Navigation handlers of the input thread (lines 324--419)\<close>

definition key_up :: "PlaylistCanvas \<Rightarrow> PlaylistCanvas" where
  "key_up c =
     (let top = (if selected_line c = top_line c \<and> 0 < top_line c then top_line c - 1 else top_line c);
          sel = (if 0 < selected_line c then selected_line c - 1 else selected_line c)
      in c\<lparr>top_line := top, selected_line := sel\<rparr>)"

definition key_down :: "nat \<Rightarrow> Playlist \<Rightarrow> PlaylistCanvas \<Rightarrow> PlaylistCanvas res" where
  "key_down H playlist c =
     res_bind (usub (length playlist) 1) (\<lambda>last.
       let sel = (if selected_line c < last then Suc (selected_line c) else selected_line c) in
       if sel = bottom_line c then
         res_bind (usub (length playlist) H) (\<lambda>lim.
           let top = (if top_line c < lim then Suc (top_line c) else top_line c) in
           Inr (c\<lparr>top_line := top, selected_line := sel\<rparr>))
       else Inr (c\<lparr>selected_line := sel\<rparr>))"

definition key_ppage :: "nat \<Rightarrow> PlaylistCanvas \<Rightarrow> PlaylistCanvas res" where
  "key_ppage H c =
     (if H \<le> top_line c then
        res_bind (usub (selected_line c) H) (\<lambda>sel.
          Inr (c\<lparr>top_line := top_line c - H, selected_line := sel\<rparr>))
      else Inr (c\<lparr>top_line := 0, selected_line := 0\<rparr>))"

definition key_npage :: "nat \<Rightarrow> Playlist \<Rightarrow> PlaylistCanvas \<Rightarrow> PlaylistCanvas res" where
  "key_npage H playlist c =
     (if H < length playlist then
        res_bind (i32_ok (2 * int H)) (\<lambda>h2.
        res_bind (i32_ok (as_i32 (length playlist) - h2)) (\<lambda>lim.
          if as_i32 (top_line c) \<le> lim then
            Inr (c\<lparr>top_line := top_line c + H, selected_line := selected_line c + H\<rparr>)
          else
            res_bind (usub (length playlist) H) (\<lambda>top.
            res_bind (usub (length playlist) 1) (\<lambda>sel.
              Inr (c\<lparr>top_line := top, selected_line := sel\<rparr>)))))
      else
        res_bind (usub (length playlist) 1) (\<lambda>sel. Inr (c\<lparr>selected_line := sel\<rparr>)))"

text \<open>The four arms of the input thread's \<open>match ch\<close> that move the selection.\<close>

datatype NavKey = KeyUp | KeyDown | KeyPPage | KeyNPage

fun navigate :: "nat \<Rightarrow> Playlist \<Rightarrow> NavKey \<Rightarrow> PlaylistCanvas \<Rightarrow> PlaylistCanvas res" where
  "navigate H playlist KeyUp c = Inr (key_up c)"
| "navigate H playlist KeyDown c = key_down H playlist c"
| "navigate H playlist KeyPPage c = key_ppage H c"
| "navigate H playlist KeyNPage c = key_npage H playlist c"

section \<open>Canvas correction by the render loop (lines 705--727)\<close>

definition repaint_canvas :: "nat \<Rightarrow> Playlist \<Rightarrow> bool \<Rightarrow> PlaylistCanvas \<Rightarrow> PlaylistCanvas res" where
  "repaint_canvas H playlist scroll c =
     (let top = (if scroll then 0 else top_line c);
          sel = (if scroll then 0 else selected_line c)
      in res_bind (i32_ok (as_i32 (length playlist) - 1)) (\<lambda>last.
           Inr (c\<lparr>top_line := top, bottom_line := top + H,
                  selected_line := (if last < as_i32 sel then 0 else sel)\<rparr>)))"

section \<open>The viewport invariant\<close>

text \<open>\<open>view_ok\<close>: the selection is inside the playlist (row 0 when it is empty) and
  inside the \<open>H\<close> rows shown from \<open>top_line\<close>. \<open>canvas_ok\<close> adds that
  \<open>bottom_line\<close> is consistent with \<open>top_line\<close>, which the render loop restores.\<close>

definition view_ok :: "nat \<Rightarrow> nat \<Rightarrow> PlaylistCanvas \<Rightarrow> bool" where
  "view_ok H n c \<longleftrightarrow>
     top_line c \<le> selected_line c \<and> selected_line c < top_line c + H \<and>
     selected_line c < max 1 n"

definition canvas_ok :: "nat \<Rightarrow> nat \<Rightarrow> PlaylistCanvas \<Rightarrow> bool" where
  "canvas_ok H n c \<longleftrightarrow> bottom_line c = top_line c + H \<and> view_ok H n c"

section \<open>Abstract specification of centering (spec 4.4)\<close>

text \<open>The window \<open>[top, bottom)\<close> the specification asks for, in unbounded integers, so
  that a negative \<open>N - H\<close> is visible rather than truncated.\<close>

definition center_window :: "nat \<Rightarrow> nat \<Rightarrow> nat \<Rightarrow> int \<times> int" where
  "center_window H n i =
     (if int i < int H div 2 then (0, int H)
      else if int n - int H div 2 < int i then (int n - int H, int n)
      else (int i - int H div 2, int i - int H div 2 + int H))"

section \<open>Lemmas on the handlers\<close>

lemma key_up_view_ok: "view_ok H n c \<Longrightarrow> view_ok H n (key_up c)"
  by (auto simp: view_ok_def key_up_def Let_def)

lemma key_down_view_ok:
  assumes "canvas_ok H (length pl) c" and "0 < length pl"
  shows "\<exists>c'. key_down H pl c = Inr c' \<and> view_ok H (length pl) c'"
  using assms by (auto simp: canvas_ok_def view_ok_def key_down_def Let_def)

lemma key_ppage_view_ok:
  assumes "view_ok H n c" and "0 < H"
  shows "\<exists>c'. key_ppage H c = Inr c' \<and> view_ok H n c'"
  using assms by (auto simp: view_ok_def key_ppage_def)

lemma key_npage_view_ok:
  assumes "view_ok H (length pl) c" and "0 < length pl" and "length pl < 2 ^ 31" and "H < 2 ^ 30"
  shows "\<exists>c'. key_npage H pl c = Inr c' \<and> view_ok H (length pl) c'"
  using assms by (auto simp: view_ok_def key_npage_def)

lemma navigate_view_ok:
  assumes "canvas_ok H (length pl) c" and "0 < length pl" and "0 < H"
    and "length pl < 2 ^ 31" and "H < 2 ^ 30"
  shows "\<exists>c'. navigate H pl k c = Inr c' \<and> view_ok H (length pl) c'"
proof (cases k)
  case KeyUp
  with assms(1) show ?thesis by (simp add: canvas_ok_def key_up_view_ok)
next
  case KeyDown
  with assms(1,2) show ?thesis by (simp add: key_down_view_ok)
next
  case KeyPPage
  with assms(1,3) show ?thesis by (simp add: canvas_ok_def key_ppage_view_ok)
next
  case KeyNPage
  with assms(1,2,4,5) show ?thesis by (simp add: canvas_ok_def key_npage_view_ok)
qed

lemma repaint_canvas_keep:
  assumes "view_ok H (length pl) c" and "length pl < 2 ^ 31"
  shows "repaint_canvas H pl False c = Inr (c\<lparr>bottom_line := top_line c + H\<rparr>)
         \<and> canvas_ok H (length pl) (c\<lparr>bottom_line := top_line c + H\<rparr>)"
  using assms by (auto simp: view_ok_def canvas_ok_def repaint_canvas_def Let_def)

lemma repaint_canvas_canvas_ok:
  assumes "view_ok H (length pl) c" and "length pl < 2 ^ 31" and "0 < H"
  shows "\<exists>c'. repaint_canvas H pl scroll c = Inr c' \<and> canvas_ok H (length pl) c'"
proof (cases scroll)
  case True
  with assms(2,3) show ?thesis by (simp add: repaint_canvas_def canvas_ok_def view_ok_def)
next
  case False
  with repaint_canvas_keep [OF assms(1,2)] show ?thesis by simp
qed

lemma try_center_id_None_iff:
  assumes "top_line c \<le> bottom_line c"
  shows "try_center_id pl c i = Inr None \<longleftrightarrow> length pl \<le> i"
  using assms by (auto simp: try_center_id_def res_bind_eq_Inr usub_def split: if_splits)

lemma try_center_id_canvas_ok:
  assumes "bottom_line c = top_line c + H" and "0 < H" and "try_center_id pl c i = Inr (Some c')"
  shows "canvas_ok H (length pl) c'"
  using assms by (auto simp: try_center_id_def canvas_ok_def view_ok_def usub_def split: if_splits)

lemma try_center_id_selected:
  assumes "try_center_id pl c i = Inr (Some c')"
  shows "selected_line c' = i"
  using assms by (auto simp: try_center_id_def res_bind_eq_Inr split: if_splits)

lemma try_center_id_total:
  assumes "bottom_line c = top_line c + H" and "i < length pl"
    and "H \<le> length pl \<or> i < H div 2 \<or> i + H div 2 \<le> length pl"
  shows "\<exists>c'. try_center_id pl c i = Inr (Some c')"
  using assms by (auto simp: try_center_id_def usub_def)

section \<open>Properties of the viewport\<close>

text \<open>C1. Every navigation key (up, down, page up, page down), applied to a consistent
  canvas over a non-empty playlist and followed by the render loop's correction of the
  \<open>Repaint::Playlist\<close> request it sends, returns without panicking and leaves a
  consistent canvas: the window is \<open>H\<close> rows tall and the selection is inside the
  playlist and visible.\<close>

theorem navigate_keeps_canvas_ok:
  assumes "canvas_ok H (length pl) c" and "0 < length pl" and "0 < H"
    and "length pl < 2 ^ 31" and "H < 2 ^ 30"
  shows "\<exists>c''. res_bind (navigate H pl k c) (repaint_canvas H pl False) = Inr c''
                \<and> canvas_ok H (length pl) c''"
proof -
  obtain c' where c': "navigate H pl k c = Inr c'" and v: "view_ok H (length pl) c'"
    using navigate_view_ok [OF assms] by blast
  from repaint_canvas_keep [OF v assms(4)] c' show ?thesis by auto
qed

theorem navigate_keeps_canvas_ok_witness:
  "\<exists>c''. res_bind (navigate 10 (map (\<lambda>k. \<lparr>entry_id = k, filename = ''f'', title = [], current = False\<rparr>) [0..<30])
                   KeyDown \<lparr>top_line = 0, bottom_line = 10, selected_line = 9\<rparr>)
          (repaint_canvas 10 (map (\<lambda>k. \<lparr>entry_id = k, filename = ''f'', title = [], current = False\<rparr>) [0..<30]) False)
        = Inr c'' \<and> canvas_ok 10 30 c''"
  using navigate_keeps_canvas_ok
    [of 10 "map (\<lambda>k. \<lparr>entry_id = k, filename = ''f'', title = [], current = False\<rparr>) [0..<30]"
        "\<lparr>top_line = 0, bottom_line = 10, selected_line = 9\<rparr>" KeyDown]
  by (simp add: canvas_ok_def view_ok_def)

text \<open>C2. On an empty playlist the down and page-down keys do not leave the canvas
  unchanged: both compute \<open>playlist.0.len() - 1\<close> in \<open>usize\<close> and panic, which ends
  the input thread, whatever the canvas. Up returns normally.\<close>

theorem navigate_empty_playlist:
  "navigate H [] KeyDown c = Inl SubOverflow \<and> navigate H [] KeyNPage c = Inl SubOverflow
   \<and> navigate H [] KeyUp c = Inr (key_up c)"
  by (simp add: key_down_def key_npage_def)

text \<open>C3. Centering refines the specification's window: whenever \<open>try_center_id\<close>
  returns a canvas for a consistent input canvas, its window is the one of spec 4.4,
  its selection is the requested row, and it is again consistent.\<close>

theorem try_center_id_refines:
  assumes "bottom_line c = top_line c + H" and "0 < H" and "try_center_id pl c i = Inr (Some c')"
  shows "(int (top_line c'), int (bottom_line c')) = center_window H (length pl) i
         \<and> selected_line c' = i \<and> canvas_ok H (length pl) c'"
  using assms try_center_id_canvas_ok [OF assms]
  by (auto simp: try_center_id_def center_window_def usub_def zdiv_int split: if_splits)

theorem try_center_id_refines_witness:
  "(int 80, int 100) = center_window 20 100 95 \<and> (95::nat) = 95 \<and>
   canvas_ok 20 100 \<lparr>top_line = 80, bottom_line = 100, selected_line = 95\<rparr>"
  using try_center_id_refines
    [of "\<lparr>top_line = 0, bottom_line = 20, selected_line = 0\<rparr>" 20
        "map (\<lambda>k. \<lparr>entry_id = k, filename = ''f'', title = [], current = False\<rparr>) [0..<100]" 95
        "\<lparr>top_line = 80, bottom_line = 100, selected_line = 95\<rparr>"]
  by (simp add: try_center_id_def)

text \<open>C4. Centering panics on short playlists: when the playlist is shorter than the
  window and the target row lies in its last \<open>H/2\<close> rows but not in the first
  \<open>H/2\<close>, the third branch computes \<open>bottom_line - line_count\<close> below zero in
  \<open>usize\<close> (line 1027). Pressing \<open>o\<close> or \<open>n\<close> there ends the input thread.\<close>

theorem try_center_id_panics:
  assumes "bottom_line c = top_line c + H" and "i < length pl" and "length pl < H"
    and "H div 2 \<le> i" and "length pl < i + H div 2"
  shows "try_center_id pl c i = Inl SubOverflow"
  using assms by (auto simp: try_center_id_def usub_def)

theorem try_center_id_panics_witness:
  "try_center_id (map (\<lambda>k. \<lparr>entry_id = k, filename = ''f'', title = [], current = False\<rparr>) [0..<15])
     \<lparr>top_line = 0, bottom_line = 20, selected_line = 0\<rparr> 12 = Inl SubOverflow"
  using try_center_id_panics
    [of "\<lparr>top_line = 0, bottom_line = 20, selected_line = 0\<rparr>" 20 12
        "map (\<lambda>k. \<lparr>entry_id = k, filename = ''f'', title = [], current = False\<rparr>) [0..<15]"]
  by simp

text \<open>The centering examples of spec 8 (\<open>N = 100\<close>, \<open>H = 20\<close>): row 5 gives the
  window \<open>[0, 20)\<close>, row 95 gives \<open>[80, 100)\<close>, row 50 gives \<open>[40, 60)\<close>, and a row
  \<open>\<ge> N\<close> gives no canvas.\<close>

theorem try_center_id_spec_examples:
  "try_center_id (map (\<lambda>k. \<lparr>entry_id = k, filename = ''f'', title = [], current = False\<rparr>) [0..<100])
      \<lparr>top_line = 0, bottom_line = 20, selected_line = 0\<rparr> 5
     = Inr (Some \<lparr>top_line = 0, bottom_line = 20, selected_line = 5\<rparr>)
   \<and> try_center_id (map (\<lambda>k. \<lparr>entry_id = k, filename = ''f'', title = [], current = False\<rparr>) [0..<100])
      \<lparr>top_line = 0, bottom_line = 20, selected_line = 0\<rparr> 95
     = Inr (Some \<lparr>top_line = 80, bottom_line = 100, selected_line = 95\<rparr>)
   \<and> try_center_id (map (\<lambda>k. \<lparr>entry_id = k, filename = ''f'', title = [], current = False\<rparr>) [0..<100])
      \<lparr>top_line = 0, bottom_line = 20, selected_line = 0\<rparr> 50
     = Inr (Some \<lparr>top_line = 40, bottom_line = 60, selected_line = 50\<rparr>)
   \<and> try_center_id (map (\<lambda>k. \<lparr>entry_id = k, filename = ''f'', title = [], current = False\<rparr>) [0..<100])
      \<lparr>top_line = 0, bottom_line = 20, selected_line = 0\<rparr> 100 = Inr None"
  by (simp add: try_center_id_def)

text \<open>C6. Spec 3 requires \<open>top_line = 0\<close> whenever the playlist fits in the window.
  For a playlist no longer than the window, centering keeps the first entry in view
  on every row but one: when the playlist fills an odd-height window exactly, centering
  on row \<open>H div 2 + 1\<close> takes the middle branch and scrolls one row down, showing a
  window \<open>[1, N + 1)\<close> that ends past the last entry.\<close>

theorem try_center_id_fitting_scrolls:
  assumes "bottom_line c = top_line c + H" and "length pl \<le> H"
    and "try_center_id pl c i = Inr (Some c')"
  shows "(0 < top_line c' \<longleftrightarrow> length pl = H \<and> odd H \<and> i = H div 2 + 1)
         \<and> (0 < top_line c' \<longrightarrow> top_line c' = 1 \<and> bottom_line c' = length pl + 1)"
  using assms by (auto simp: try_center_id_def usub_def split: if_splits) presburger+

theorem try_center_id_fitting_scrolls_witness:
  "try_center_id (map (\<lambda>k. \<lparr>entry_id = k, filename = ''f'', title = [], current = False\<rparr>) [0..<21])
      \<lparr>top_line = 0, bottom_line = 21, selected_line = 0\<rparr> 11
     = Inr (Some \<lparr>top_line = 1, bottom_line = 22, selected_line = 11\<rparr>)
   \<and> 0 < top_line \<lparr>top_line = 1, bottom_line = 22, selected_line = 11\<rparr>
   \<and> bottom_line \<lparr>top_line = 1, bottom_line = 22, selected_line = 11\<rparr> = 21 + 1"
  using try_center_id_fitting_scrolls
      [of "\<lparr>top_line = 0, bottom_line = 21, selected_line = 0\<rparr>" 21
          "map (\<lambda>k. \<lparr>entry_id = k, filename = ''f'', title = [], current = False\<rparr>) [0..<21]" 11
          "\<lparr>top_line = 1, bottom_line = 22, selected_line = 11\<rparr>"]
  by (simp add: try_center_id_def)

text \<open>C7. Centering on a row outside the playlist is the value \<open>None\<close> (no change), and
  only then, as spec 4.4 and 7(c) require.\<close>

theorem try_center_id_out_of_range:
  assumes "top_line c \<le> bottom_line c"
  shows "try_center_id pl c i = Inr None \<longleftrightarrow> length pl \<le> i"
  using assms by (rule try_center_id_None_iff)

theorem try_center_id_out_of_range_witness:
  "try_center_id [\<lparr>entry_id = 0, filename = ''a'', title = [], current = True\<rparr>]
      \<lparr>top_line = 0, bottom_line = 20, selected_line = 0\<rparr> 3 = Inr None"
  using try_center_id_out_of_range
    [of "\<lparr>top_line = 0, bottom_line = 20, selected_line = 0\<rparr>"
        "[\<lparr>entry_id = 0, filename = ''a'', title = [], current = True\<rparr>]" 3]
  by simp

end
