(* ===== verification/Player.thy ===== *)
theory Player
  imports Viewport
begin

text \<open>
  The shared player store (\<open>struct Player\<close>, lines 70--80) and the property listener
  thread (lines 150--303). mpv reports each observed property as
  \<open>Event::PropertyChange {id, data}\<close>; the thread writes the one field the id names
  under the player lock and sends the repaint requests of that property on the channel.
  \<open>property_change\<close> is one iteration of its loop: the new store and the requests sent,
  in order. \<open>listener_run\<close> is the loop over a stream of events; an \<open>Err\<close> of
  \<open>event_listen()\<close> is unwrapped and ends the thread (\<open>EventError\<close>).
  The lemmas show that decoding is directed by the payload's type, every accepted
  event being followed by at least one repaint request and every other one ignored
  (C37), and that the listener never touches the search results while it announces
  every change of the playlist (C38).
\<close>

section \<open>Data\<close>

text \<open>\<open>mpvipc::MpvDataType\<close>; a \<open>HashMap\<close> is an association list.\<close>

datatype MpvDataType =
    MpvArray "MpvDataType list"
  | MpvBool bool
  | MpvDouble f64
  | MpvHashMap "(string \<times> MpvDataType) list"
  | MpvNull
  | MpvPlaylist Playlist
  | MpvString string
  | MpvUsize nat

record Player =
  duration :: f64
  is_muted :: bool
  is_paused :: bool
  metadata :: "(string \<times> MpvDataType) list option"
  playlist :: Playlist
  search_results :: "nat list \<times> nat"
  speed :: f64
  time_pos :: f64
  volume :: f64

definition OBS_ID_PLAYLIST :: nat where "OBS_ID_PLAYLIST = 1"
definition OBS_ID_PAUSE :: nat where "OBS_ID_PAUSE = 2"
definition OBS_ID_TIME_POS :: nat where "OBS_ID_TIME_POS = 3"
definition OBS_ID_DURATION :: nat where "OBS_ID_DURATION = 4"
definition OBS_ID_METADATA :: nat where "OBS_ID_METADATA = 5"
definition OBS_ID_VOLUME :: nat where "OBS_ID_VOLUME = 6"
definition OBS_ID_MUTE :: nat where "OBS_ID_MUTE = 7"
definition OBS_ID_SPEED :: nat where "OBS_ID_SPEED = 8"

lemmas obs_ids = OBS_ID_PLAYLIST_def OBS_ID_PAUSE_def OBS_ID_TIME_POS_def OBS_ID_DURATION_def
  OBS_ID_METADATA_def OBS_ID_VOLUME_def OBS_ID_MUTE_def OBS_ID_SPEED_def

datatype Event = PropertyChange nat MpvDataType | OtherEvent | EventError

section \<open>One property change (lines 181--295)\<close>

definition property_change :: "Player \<Rightarrow> nat \<Rightarrow> MpvDataType \<Rightarrow> Player \<times> Repaint list" where
  "property_change p i data =
    (if i = OBS_ID_DURATION then
       (case data of
          MpvDouble f \<Rightarrow> (p\<lparr>duration := f\<rparr>, [StatusBar Time])
        | MpvNull \<Rightarrow> (p\<lparr>duration := Fin 0, time_pos := Fin 0\<rparr>, [StatusBar StatusClear])
        | _ \<Rightarrow> (p, []))
     else if i = OBS_ID_METADATA then
       (case data of
          MpvHashMap m \<Rightarrow> (p\<lparr>metadata := Some m\<rparr>, [TopBar Metadata])
        | MpvNull \<Rightarrow> (p\<lparr>metadata := None\<rparr>, [TopBar TopClear, TopBar Speed, TopBar Volume])
        | _ \<Rightarrow> (p, []))
     else if i = OBS_ID_MUTE then
       (case data of
          MpvBool muted \<Rightarrow>
            (p\<lparr>is_muted := muted\<rparr>,
             [StatusBar (Message (if muted then ''Muted'' else ''     '') Blinking)])
        | _ \<Rightarrow> (p, []))
     else if i = OBS_ID_PAUSE then
       (case data of
          MpvBool paused \<Rightarrow>
            (p\<lparr>is_paused := paused\<rparr>,
             [if paused then StatusBar (Message ''Paused'' Blinking) else StatusBar StatusClear])
        | _ \<Rightarrow> (p, []))
     else if i = OBS_ID_SPEED then
       (case data of MpvDouble f \<Rightarrow> (p\<lparr>speed := f\<rparr>, [TopBar Speed]) | _ \<Rightarrow> (p, []))
     else if i = OBS_ID_TIME_POS then
       (case data of MpvDouble f \<Rightarrow> (p\<lparr>time_pos := f\<rparr>, [StatusBar Time]) | _ \<Rightarrow> (p, []))
     else if i = OBS_ID_PLAYLIST then
       (case data of
          MpvPlaylist pl \<Rightarrow>
            (if length (playlist p) \<noteq> length pl
             then (p\<lparr>playlist := pl\<rparr>, [RPlaylist True True])
             else (p\<lparr>playlist := pl\<rparr>, [RPlaylist False False]))
        | _ \<Rightarrow> (p, []))
     else if i = OBS_ID_VOLUME then
       (case data of MpvDouble f \<Rightarrow> (p\<lparr>volume := f\<rparr>, [TopBar Volume]) | _ \<Rightarrow> (p, []))
     else (p, []))"

fun listener_step :: "Player \<Rightarrow> Event \<Rightarrow> (Player \<times> Repaint list) res" where
  "listener_step p (PropertyChange i data) = Inr (property_change p i data)"
| "listener_step p OtherEvent = Inr (p, [])"
| "listener_step p EventError = Inl CommandFailed"

text \<open>The loop of the thread over a finite prefix of the event stream: the final store
  and every request sent, in the order sent.\<close>

fun listener_run :: "Player \<Rightarrow> Event list \<Rightarrow> (Player \<times> Repaint list) res" where
  "listener_run p [] = Inr (p, [])"
| "listener_run p (e # es) =
     res_bind (listener_step p e) (\<lambda>(p', rs).
       res_bind (listener_run p' es) (\<lambda>(p'', rs'). Inr (p'', rs @ rs')))"

text \<open>The payload type mpv sends for each observed property, as the arms of the
  listener match it (\<open>if let MpvDataType::...\<close>): durations and positions, speed and
  volume are doubles, mute and pause are flags, the playlist is a playlist, and the
  duration and metadata may also be null.\<close>

definition payload_ok :: "nat \<Rightarrow> MpvDataType \<Rightarrow> bool" where
  "payload_ok i d =
     (if i = OBS_ID_DURATION then (case d of MpvDouble _ \<Rightarrow> True | MpvNull \<Rightarrow> True | _ \<Rightarrow> False)
      else if i = OBS_ID_METADATA then (case d of MpvHashMap _ \<Rightarrow> True | MpvNull \<Rightarrow> True | _ \<Rightarrow> False)
      else if i = OBS_ID_MUTE \<or> i = OBS_ID_PAUSE then (case d of MpvBool _ \<Rightarrow> True | _ \<Rightarrow> False)
      else if i = OBS_ID_SPEED \<or> i = OBS_ID_TIME_POS \<or> i = OBS_ID_VOLUME
      then (case d of MpvDouble _ \<Rightarrow> True | _ \<Rightarrow> False)
      else if i = OBS_ID_PLAYLIST then (case d of MpvPlaylist _ \<Rightarrow> True | _ \<Rightarrow> False)
      else False)"

section \<open>Properties of the property listener\<close>

text \<open>C37. The listener decodes by type: an event whose payload has the type its
  property is observed with always sends at least one repaint request; any other
  event changes nothing and sends nothing.\<close>

theorem property_change_typed:
  assumes "property_change p i d = (p', rs)"
  shows "(payload_ok i d \<longleftrightarrow> rs \<noteq> []) \<and> (\<not> payload_ok i d \<longrightarrow> p' = p)"
  using assms
  by (auto simp: property_change_def payload_ok_def obs_ids split: MpvDataType.splits if_splits)

theorem property_change_typed_witness:
  "payload_ok 6 (MpvDouble (Fin 30)) \<and> \<not> payload_ok 6 (MpvBool True)"
  using property_change_typed [of "\<lparr>duration = Fin 0, is_muted = False, is_paused = False, metadata = None, playlist = [], search_results = ([3], 0), speed = Fin 1, time_pos = Fin 0, volume = Fin 50\<rparr>" 6 "MpvDouble (Fin 30)" "\<lparr>duration = Fin 0, is_muted = False, is_paused = False, metadata = None, playlist = [], search_results = ([3], 0), speed = Fin 1, time_pos = Fin 0, volume = Fin 50\<rparr>\<lparr>volume := Fin 30\<rparr>" "[TopBar Volume]"]
    property_change_typed [of "\<lparr>duration = Fin 0, is_muted = False, is_paused = False, metadata = None, playlist = [], search_results = ([3], 0), speed = Fin 1, time_pos = Fin 0, volume = Fin 50\<rparr>" 6 "MpvBool True" "\<lparr>duration = Fin 0, is_muted = False, is_paused = False, metadata = None, playlist = [], search_results = ([3], 0), speed = Fin 1, time_pos = Fin 0, volume = Fin 50\<rparr>" "[]"]
  by (simp add: property_change_def obs_ids)

lemma listener_step_search_results:
  "listener_step p e = Inr (p', rs) \<Longrightarrow> search_results p' = search_results p"
  by (cases e) (auto simp: property_change_def split: MpvDataType.splits if_splits)

lemma listener_step_playlist:
  "listener_step p e = Inr (p', rs) \<Longrightarrow> playlist p' \<noteq> playlist p \<Longrightarrow> \<exists>cl sc. RPlaylist cl sc \<in> set rs"
  by (cases e) (auto simp: property_change_def split: MpvDataType.splits if_splits)

text \<open>C38. Over any run of the property listener the search results are never
  touched, while every change of the playlist is announced by a playlist request:
  results computed before a playlist change survive it.\<close>

theorem listener_run_keeps_search_results:
  assumes "listener_run p es = Inr (p', rs)"
  shows "search_results p' = search_results p
         \<and> (playlist p' \<noteq> playlist p \<longrightarrow> (\<exists>cl sc. RPlaylist cl sc \<in> set rs))"
  using assms
proof (induction es arbitrary: p p' rs)
  case Nil
  then show ?case by simp
next
  case (Cons e es)
  then obtain p1 rs1 p2 rs2 where s: "listener_step p e = Inr (p1, rs1)"
      and r: "listener_run p1 es = Inr (p2, rs2)" and eq: "p' = p2" "rs = rs1 @ rs2"
    by (auto simp: res_bind_eq_Inr split: prod.splits)
  from Cons.IH [OF r] listener_step_search_results [OF s] listener_step_playlist [OF s]
  show ?case using eq by (cases "playlist p1 = playlist p") auto
qed

theorem listener_run_keeps_search_results_witness:
  "search_results (\<lparr>duration = Fin 0, is_muted = False, is_paused = False, metadata = None, playlist = [], search_results = ([3], 0), speed = Fin 1, time_pos = Fin 0, volume = Fin 50\<rparr>\<lparr>playlist := [\<lparr>entry_id = 0, filename = ''a'', title = [], current = True\<rparr>]\<rparr>) = ([3], 0)
   \<and> (\<exists>cl sc. RPlaylist cl sc \<in> set [RPlaylist True True])"
  using listener_run_keeps_search_results
    [of "\<lparr>duration = Fin 0, is_muted = False, is_paused = False, metadata = None, playlist = [], search_results = ([3], 0), speed = Fin 1, time_pos = Fin 0, volume = Fin 50\<rparr>" "[PropertyChange 1 (MpvPlaylist [\<lparr>entry_id = 0, filename = ''a'', title = [], current = True\<rparr>])]"
        "\<lparr>duration = Fin 0, is_muted = False, is_paused = False, metadata = None, playlist = [], search_results = ([3], 0), speed = Fin 1, time_pos = Fin 0, volume = Fin 50\<rparr>\<lparr>playlist := [\<lparr>entry_id = 0, filename = ''a'', title = [], current = True\<rparr>]\<rparr>"
        "[RPlaylist True True]"]
  by (simp add: property_change_def obs_ids)

end
