(* ===== verification/Search.thy ===== *)
theory Search
  imports Player "HOL-Library.Sublist"
begin

text \<open>
  Incremental search of \<^verbatim>\<open>src/src/main.rs\<close>: \<open>search_playlist\<close> (lines 1002--1011),
  the modal search prompt of the input thread (KEY_SLASH, lines 554--645) and
  "find next" (KEY_N, lines 486--512).
  Rust strings are UTF-8 byte strings, so a \<open>String\<close> is a HOL \<open>string\<close> of bytes:
  \<open>str::contains\<close> is \<open>str_contains\<close> (a byte-wise substring test),
  \<open>String::push\<close> of a \<open>char\<close> appends its UTF-8 encoding \<open>utf8_encode\<close>, and
  \<open>String::pop\<close> removes the last encoded character (\<open>pop_char\<close>).
  A key code read by \<open>getch()\<close> is an \<open>i32\<close>; the prompt converts it with
  \<open>char::from_u32(ch as u32).expect(..)\<close> (\<open>push_key\<close>), which panics on a code that
  is no Unicode scalar value.
  The prompt's nested loop is a mode of the input thread: \<open>search_key\<close> is one
  iteration, returning whether the prompt stays open (\<open>Typing\<close>) or is closed.
\<close>

section \<open>Byte strings\<close>

fun starts_with :: "string \<Rightarrow> string \<Rightarrow> bool" where
  "starts_with hs [] = True"
| "starts_with [] (p # ps) = False"
| "starts_with (h # hs) (p # ps) = (h = p \<and> starts_with hs ps)"

fun str_contains :: "string \<Rightarrow> string \<Rightarrow> bool" where
  "str_contains [] pat = (pat = [])"
| "str_contains (h # hs) pat = (starts_with (h # hs) pat \<or> str_contains hs pat)"

definition is_cont_byte :: "char \<Rightarrow> bool" where
  "is_cont_byte b \<longleftrightarrow> of_char b div 64 = (2::nat)"

definition utf8_encode :: "nat \<Rightarrow> string" where
  "utf8_encode c =
     (if c < 128 then [char_of c]
      else if c < 2048 then [char_of (192 + c div 64), char_of (128 + c mod 64)]
      else if c < 65536 then
        [char_of (224 + c div 4096), char_of (128 + c div 64 mod 64), char_of (128 + c mod 64)]
      else
        [char_of (240 + c div 262144), char_of (128 + c div 4096 mod 64),
         char_of (128 + c div 64 mod 64), char_of (128 + c mod 64)])"

definition pop_char :: "string \<Rightarrow> string" where
  "pop_char s = rev (drop 1 (dropWhile is_cont_byte (rev s)))"

definition is_scalar_value :: "nat \<Rightarrow> bool" where
  "is_scalar_value u \<longleftrightarrow> u < 55296 \<or> (57343 < u \<and> u \<le> 1114111)"

definition u32_of_i32 :: "int \<Rightarrow> nat" where
  "u32_of_i32 ch = nat (ch mod 2 ^ 32)"

definition push_key :: "string \<Rightarrow> int \<Rightarrow> string res" where
  "push_key s ch =
     (let u = u32_of_i32 ch in
      if is_scalar_value u then Inr (s @ utf8_encode u) else Inl InvalidChar)"

section \<open>Searching the playlist (lines 1002--1011)\<close>

fun search_loop :: "string \<Rightarrow> nat list \<Rightarrow> Playlist \<Rightarrow> nat list" where
  "search_loop pat output [] = output"
| "search_loop pat output (e # es) =
     search_loop pat
       (if str_contains (filename e) pat \<or> str_contains (title e) pat
        then output @ [entry_id e] else output) es"

definition search_playlist :: "Playlist \<Rightarrow> string \<Rightarrow> nat list" where
  "search_playlist pl pat = search_loop pat [] pl"

section \<open>The search prompt (lines 554--645)\<close>

definition search_commit ::
  "string \<Rightarrow> Player \<Rightarrow> PlaylistCanvas \<Rightarrow> (Player \<times> PlaylistCanvas \<times> Repaint list) res" where
  "search_commit s p c =
     (if s = [] then Inr (p\<lparr>search_results := ([], 0)\<rparr>, c, [StatusBar StatusClear])
      else
        (let results = search_playlist (playlist p) s in
         if 0 < as_i32 (length results) then
           res_bind (vec_index results 0) (\<lambda>r0.
           res_bind (try_center_id (playlist p) c r0) (\<lambda>nc.
             case nc of
               Some c' \<Rightarrow> Inr (p\<lparr>search_results := (results, 0)\<rparr>, c',
                               [redraw_list, StatusBar StatusClear])
             | None \<Rightarrow> Inr (p\<lparr>search_results := (results, 0)\<rparr>, c, [])))
         else
           Inr (p\<lparr>search_results := (results, 0)\<rparr>, c,
                [StatusBar (Message ''Search pattern not found'' Normal)])))"

datatype SearchMode = Typing string | Closed

definition search_key ::
  "int \<Rightarrow> string \<Rightarrow> Player \<Rightarrow> PlaylistCanvas
   \<Rightarrow> (SearchMode \<times> Player \<times> PlaylistCanvas \<times> Repaint list) res" where
  "search_key ch s p c =
     (if ch = KEY_ESC then Inr (Closed, p, c, [StatusBar StatusClear])
      else if ch = KEY_ENTER then
        res_bind (search_commit s p c) (\<lambda>(p', c', rs). Inr (Closed, p', c', rs))
      else if ch = KEY_BACKSPACE then
        Inr (Typing (pop_char s), p, c,
             [StatusBar StatusClear, StatusBar (Message (''Search: '' @ pop_char s) Normal)])
      else
        res_bind (push_key s ch) (\<lambda>s'.
          Inr (Typing s', p, c, [StatusBar (Message (''Search: '' @ s') Normal)])))"

text \<open>Whether a key ends the search loop: Escape and Enter break out of it, and a
  code that is no Unicode scalar value panics in \<open>push\<close>; Backspace and every
  other key continue it.\<close>

definition ends_search :: "int \<Rightarrow> bool" where
  "ends_search ch \<longleftrightarrow> ch = KEY_ESC \<or> ch = KEY_ENTER
     \<or> (ch \<noteq> KEY_BACKSPACE \<and> \<not> is_scalar_value (u32_of_i32 ch))"

text \<open>The loop of the prompt (lines 562--644) over the keys \<open>getch()\<close> returns from
  position \<open>j\<close> on: it runs \<open>search_key\<close> until a key closes the prompt or panics,
  and gives the position after the last key read with the outcome. The loop has no
  bound of its own, so it is a partial function: \<open>None\<close> is a loop that never ends.\<close>

partial_function (option) search_session ::
  "(nat \<Rightarrow> int) \<Rightarrow> nat \<Rightarrow> string \<Rightarrow> Player \<Rightarrow> PlaylistCanvas \<Rightarrow> Repaint list
   \<Rightarrow> (nat \<times> (Player \<times> PlaylistCanvas \<times> Repaint list) res) option" where
  "search_session keys j s p c rs =
     (case search_key (keys j) s p c of
        Inl e \<Rightarrow> Some (Suc j, Inl e)
      | Inr (Closed, p', c', rs') \<Rightarrow> Some (Suc j, Inr (p', c', rs @ rs'))
      | Inr (Typing s', p', c', rs') \<Rightarrow> search_session keys (Suc j) s' p' c' (rs @ rs'))"

section \<open>Playlist numbering\<close>

text \<open>mpvipc numbers the entries it returns by their position in mpv's playlist.\<close>

definition ids_ok :: "Playlist \<Rightarrow> bool" where
  "ids_ok pl \<longleftrightarrow> map entry_id pl = [0..<length pl]"

section \<open>Find next (KEY_N, lines 486--512)\<close>

definition key_n :: "Player \<Rightarrow> PlaylistCanvas \<Rightarrow> (Player \<times> PlaylistCanvas \<times> Repaint list) res" where
  "key_n p c =
     (case search_results p of (results, idx) \<Rightarrow>
        if 0 < length results then
          (let idx' = (if idx < length results - 1 then Suc idx else 0);
               p' = p\<lparr>search_results := (results, idx')\<rparr>
           in res_bind (vec_index results idx') (\<lambda>r.
              res_bind (try_center_id (playlist p') c r) (\<lambda>nc.
                case nc of
                  Some c' \<Rightarrow> Inr (p', c', [redraw_list])
                | None \<Rightarrow> Inr (p', c, []))))
        else Inr (p, c, []))"

section \<open>Lemmas\<close>

lemma cont_byte_iff: "(n::nat) < 256 \<Longrightarrow> is_cont_byte (char_of n) \<longleftrightarrow> n div 64 = 2"
  by (simp add: is_cont_byte_def)

lemma utf8_encode_shape:
  assumes "c \<le> 1114111"
  shows "\<exists>lead conts. utf8_encode c = lead # conts \<and> \<not> is_cont_byte lead \<and> (\<forall>b \<in> set conts. is_cont_byte b)"
proof -
  have m: "\<And>x::nat. is_cont_byte (char_of (128 + x mod 64))"
    by (subst cont_byte_iff) auto
  consider "c < 128" | "128 \<le> c" "c < 2048" | "2048 \<le> c" "c < 65536" | "65536 \<le> c"
    by linarith
  then show ?thesis
  proof cases
    case 1
    then show ?thesis by (simp add: utf8_encode_def cont_byte_iff)
  next
    case 2
    then have "c div 64 < 32" by simp
    then show ?thesis using 2 m by (simp add: utf8_encode_def cont_byte_iff)
  next
    case 3
    then have "c div 4096 < 16" by simp
    then show ?thesis using 3 m by (simp add: utf8_encode_def cont_byte_iff)
  next
    case 4
    with assms have "c div 262144 \<le> 4" by simp
    then show ?thesis using 4 m by (simp add: utf8_encode_def cont_byte_iff)
  qed
qed

lemma pop_char_push: 
  assumes "c \<le> 1114111"
  shows "pop_char (s @ utf8_encode c) = s"
proof -
  obtain lead conts where e: "utf8_encode c = lead # conts" and l: "\<not> is_cont_byte lead"
    and cs: "\<forall>b \<in> set conts. is_cont_byte b"
    using utf8_encode_shape [OF assms] by blast
  have "dropWhile is_cont_byte (rev conts @ lead # rev s) = dropWhile is_cont_byte (lead # rev s)"
    by (rule dropWhile_append2) (use cs in auto)
  with l show ?thesis by (simp add: pop_char_def e)
qed

lemma starts_with_prefix: "starts_with hs p \<longleftrightarrow> prefix p hs"
  by (induction hs p rule: starts_with.induct) auto

lemma str_contains_sublist: "str_contains hs p \<longleftrightarrow> sublist p hs"
  by (induction hs) (auto simp: starts_with_prefix sublist_Cons_right)

lemma search_loop_eq:
  "search_loop pat out pl =
     out @ map entry_id (filter (\<lambda>e. str_contains (filename e) pat \<or> str_contains (title e) pat) pl)"
  by (induction pl arbitrary: out) auto

lemma next_index_mod:
  assumes "i < n"
  shows "(if i < n - 1 then Suc i else 0) = Suc i mod n"
  using assms by (auto simp: mod_Suc)

lemma key_n_unfold:
  assumes "search_results p = (rs, i)" and "rs \<noteq> []"
  shows "key_n p c =
    (let j = (if i < length rs - 1 then Suc i else 0); p' = p\<lparr>search_results := (rs, j)\<rparr> in
     res_bind (try_center_id (playlist p) c (rs ! j))
       (\<lambda>nc. case nc of Some c' \<Rightarrow> Inr (p', c', [redraw_list]) | None \<Rightarrow> Inr (p', c, [])))"
proof -
  have "(if i < length rs - 1 then Suc i else 0) < length rs" using assms(2) by auto
  then show ?thesis using assms by (simp add: key_n_def Let_def)
qed

lemma search_key_continues:
  assumes "\<not> ends_search ch"
  shows "\<exists>s' rs'. search_key ch s p c = Inr (Typing s', p, c, rs')"
  using assms by (auto simp: ends_search_def search_key_def push_key_def Let_def key_codes)

lemma search_key_stops:
  assumes "ends_search ch"
  shows "\<not> (\<exists>s' p' c' rs'. search_key ch s p c = Inr (Typing s', p', c', rs'))"
  using assms
  by (auto simp: ends_search_def search_key_def push_key_def Let_def key_codes res_bind_eq_Inr
      split: prod.splits)

lemma search_session_stop:
  assumes "ends_search (keys j)"
  shows "\<exists>r. search_session keys j s p c rs = Some r"
proof (cases "search_key (keys j) s p c")
  case (Inl e)
  then show ?thesis by (simp add: search_session.simps)
next
  case (Inr x)
  obtain m p' c' rs' where x: "x = (m, p', c', rs')" by (cases x)
  with Inr search_key_stops [OF assms, of s p c] have "m = Closed" by (cases m) auto
  with Inr x show ?thesis by (simp add: search_session.simps)
qed

lemma search_session_step:
  assumes "search_key (keys j) s p c = Inr (Typing s', p, c, rs')"
  shows "search_session keys j s p c rs = search_session keys (Suc j) s' p c (rs @ rs')"
  using assms by (simp add: search_session.simps)

lemma search_session_Some_ends:
  assumes "search_session keys j s p c rs = Some r"
  shows "\<exists>k \<ge> j. ends_search (keys k)"
  apply (rule search_session.raw_induct [where P = "\<lambda>keys j s p c rs r. \<exists>k \<ge> j. ends_search (keys k)",
        OF _ assms])
  subgoal premises prems for f ks j s p c rs r
  proof (cases "ends_search (ks j)")
    case True then show ?thesis by auto
  next
    case False
    then obtain s' rs' where "search_key (ks j) s p c = Inr (Typing s', p, c, rs')"
      using search_key_continues by blast
    with prems(2) have "f ks (Suc j) s' p c (rs @ rs') = Some r" by simp
    then have "\<exists>k \<ge> Suc j. ends_search (ks k)" by (rule prems(1))
    then show ?thesis by (auto intro: Suc_leD)
  qed
  done

section \<open>Properties of the search\<close>

text \<open>C8. \<open>search_playlist\<close> returns the ids of exactly the entries whose file name or
  title contains the pattern as a contiguous substring (\<open>sublist\<close>), in playlist
  order: the accumulator loop refines the declarative specification of spec 4.5.\<close>

theorem search_playlist_spec:
  "search_playlist pl pat =
     map entry_id (filter (\<lambda>e. sublist pat (filename e) \<or> sublist pat (title e)) pl)"
  by (simp add: search_playlist_def search_loop_eq str_contains_sublist)

text \<open>The search examples of spec 8: over the titles Alpha, Beta, Alphabet the
  pattern Alpha matches the entries 0 and 2, in this order; committing the empty
  pattern stores no result and clears the prompt.\<close>

theorem search_spec_examples:
  "search_playlist
     [\<lparr>entry_id = 0, filename = ''x.ogg'', title = ''Alpha'', current = False\<rparr>,
      \<lparr>entry_id = 1, filename = ''y.ogg'', title = ''Beta'', current = False\<rparr>,
      \<lparr>entry_id = 2, filename = ''z.ogg'', title = ''Alphabet'', current = False\<rparr>] ''Alpha'' = [0, 2]
   \<and> search_key KEY_ENTER [] p c = Inr (Closed, p\<lparr>search_results := ([], 0)\<rparr>, c, [StatusBar StatusClear])"
  by (simp add: search_playlist_def search_key_def search_commit_def KEY_ESC_def KEY_ENTER_def)

text \<open>C15. Termination of the search prompt: its loop returns, with the prompt
  closed or a panic, exactly when some key from the current one on is Escape, Enter
  or a code that is no Unicode scalar value; on any other stream of keys (letters and
  Backspace only) it never returns and keeps the input thread in the prompt.\<close>

theorem search_session_returns_iff:
  "(\<exists>r. search_session keys j s p c rs = Some r) \<longleftrightarrow> (\<exists>k \<ge> j. ends_search (keys k))"
proof
  assume "\<exists>r. search_session keys j s p c rs = Some r"
  then show "\<exists>k \<ge> j. ends_search (keys k)" by (auto intro: search_session_Some_ends)
next
  assume "\<exists>k \<ge> j. ends_search (keys k)"
  then obtain k where "j \<le> k" and "ends_search (keys k)" by blast
  then show "\<exists>r. search_session keys j s p c rs = Some r"
  proof (induction "k - j" arbitrary: j s p c rs)
    case 0
    then have "ends_search (keys j)" by simp
    then show ?case by (rule search_session_stop)
  next
    case (Suc n)
    show ?case
    proof (cases "ends_search (keys j)")
      case True then show ?thesis by (rule search_session_stop)
    next
      case False
      then obtain s' rs' where "search_key (keys j) s p c = Inr (Typing s', p, c, rs')"
        using search_key_continues by blast
      moreover have "\<exists>r. search_session keys (Suc j) s' p c (rs @ rs') = Some r"
        using Suc by (intro Suc.hyps(1)) auto
      ultimately show ?thesis by (simp add: search_session_step)
    qed
  qed
qed

theorem search_session_returns_iff_witness:
  "\<exists>r. search_session (\<lambda>i. if i = 2 then KEY_ESC else 97) 0 []
          \<lparr>duration = Fin 0, is_muted = False, is_paused = False, metadata = None, playlist = [],
           search_results = ([], 0), speed = Fin 1, time_pos = Fin 0, volume = Fin 50\<rparr>
          \<lparr>top_line = 0, bottom_line = 10, selected_line = 0\<rparr> [] = Some r"
  by (rule search_session_returns_iff [THEN iffD2]) (auto intro: exI [of _ 2] simp: ends_search_def)

text \<open>C10. In the search prompt, backspace undoes a typed character: after a key that
  the prompt appends to the pattern, backspace gives back the previous pattern
  (UTF-8 encoding by \<open>String::push\<close>, decoding of the last character by
  \<open>String::pop\<close>).\<close>

theorem search_key_backspace_undoes_char:
  assumes "ch \<noteq> KEY_ESC" and "ch \<noteq> KEY_ENTER" and "ch \<noteq> KEY_BACKSPACE"
    and "search_key ch s p c = Inr (Typing s', p', c', rs)"
  shows "\<exists>rs'. search_key KEY_BACKSPACE s' p c = Inr (Typing s, p, c, rs')"
proof -
  from assms have "push_key s ch = Inr s'"
    by (auto simp: search_key_def res_bind_eq_Inr)
  then have "s' = s @ utf8_encode (u32_of_i32 ch)" and "u32_of_i32 ch \<le> 1114111"
    by (auto simp: push_key_def is_scalar_value_def Let_def split: if_splits)
  then have "pop_char s' = s" by (simp add: pop_char_push)
  then show ?thesis by (simp add: search_key_def KEY_ESC_def KEY_ENTER_def KEY_BACKSPACE_def)
qed

theorem search_key_backspace_undoes_char_witness:
  "\<exists>rs'. search_key KEY_BACKSPACE (''ab'' @ [char_of (99::nat)])
      \<lparr>duration = Fin 0, is_muted = False, is_paused = False, metadata = None, playlist = [], search_results = ([], 0), speed = Fin 1, time_pos = Fin 0, volume = Fin 50\<rparr> \<lparr>top_line = 0, bottom_line = 10, selected_line = 0\<rparr>
    = Inr (Typing ''ab'', \<lparr>duration = Fin 0, is_muted = False, is_paused = False, metadata = None, playlist = [], search_results = ([], 0), speed = Fin 1, time_pos = Fin 0, volume = Fin 50\<rparr>, \<lparr>top_line = 0, bottom_line = 10, selected_line = 0\<rparr>, rs')"
  using search_key_backspace_undoes_char [of 99 "''ab''" "\<lparr>duration = Fin 0, is_muted = False, is_paused = False, metadata = None, playlist = [], search_results = ([], 0), speed = Fin 1, time_pos = Fin 0, volume = Fin 50\<rparr>" "\<lparr>top_line = 0, bottom_line = 10, selected_line = 0\<rparr>" "''ab'' @ [char_of (99::nat)]"
      "\<lparr>duration = Fin 0, is_muted = False, is_paused = False, metadata = None, playlist = [], search_results = ([], 0), speed = Fin 1, time_pos = Fin 0, volume = Fin 50\<rparr>" "\<lparr>top_line = 0, bottom_line = 10, selected_line = 0\<rparr>" "[StatusBar (Message (''Search: '' @ ''ab'' @ [char_of (99::nat)]) Normal)]"]
  by (simp add: search_key_def push_key_def KEY_ESC_def KEY_ENTER_def KEY_BACKSPACE_def
      u32_of_i32_def is_scalar_value_def utf8_encode_def)

text \<open>C11. Spec 7(e) asks the prompt to skip keys that are not text. The code appends
  every other key code as a character: an arrow key (ncurses \<open>KEY_UP\<close> = 259) adds
  U+0103 to the pattern (bytes C4 83), and a code that is no Unicode scalar value
  (\<open>ERR\<close> = -1) makes \<open>expect("Invalid char")\<close> panic.\<close>

theorem search_key_non_text_keys:
  "search_key 259 s p c =
     Inr (Typing (s @ [char_of (196::nat), char_of (131::nat)]), p, c,
          [StatusBar (Message (''Search: '' @ s @ [char_of (196::nat), char_of (131::nat)]) Normal)])
   \<and> search_key (-1) s p c = Inl InvalidChar"
  by (simp add: search_key_def push_key_def u32_of_i32_def is_scalar_value_def utf8_encode_def
      KEY_ESC_def KEY_ENTER_def KEY_BACKSPACE_def)

text \<open>C12. "Find next" advances the cursor into the results cyclically: from cursor
  \<open>i\<close> it moves to \<open>(i + 1) mod n\<close>, so three results are visited 0, 1, 2, 0, ...
  (spec 4.5, 8). It never indexes the results out of range.\<close>

theorem key_n_cursor:
  assumes "search_results p = (rs, i)" and "i < length rs" and "key_n p c = Inr (p', c', out)"
  shows "search_results p' = (rs, Suc i mod length rs)"
proof -
  define j where "j = (if i < length rs - 1 then Suc i else 0)"
  have ne: "rs \<noteq> []" using assms(2) by auto
  have H: "res_bind (try_center_id (playlist p) c (rs ! j))
          (\<lambda>nc. case nc of Some c' \<Rightarrow> Inr (p\<lparr>search_results := (rs, j)\<rparr>, c', [redraw_list])
                           | None \<Rightarrow> Inr (p\<lparr>search_results := (rs, j)\<rparr>, c, []))
        = Inr (p', c', out)"
    using assms(3) unfolding key_n_unfold [OF assms(1) ne] Let_def j_def .
  have "p' = p\<lparr>search_results := (rs, j)\<rparr>"
  proof (cases "try_center_id (playlist p) c (rs ! j)")
    case (Inl e)
    with H show ?thesis by simp
  next
    case (Inr nc)
    with H show ?thesis by (cases nc) simp_all
  qed
  then show ?thesis using next_index_mod [OF assms(2)] by (simp add: j_def)
qed

theorem key_n_cursor_witness:
  "key_n \<lparr>duration = Fin 0, is_muted = False, is_paused = False, metadata = None,
          playlist = map (\<lambda>k. \<lparr>entry_id = k, filename = ''f'', title = [], current = False\<rparr>) [0..<3],
          search_results = ([0, 1, 2], 2), speed = Fin 1, time_pos = Fin 0, volume = Fin 50\<rparr>
     \<lparr>top_line = 0, bottom_line = 20, selected_line = 1\<rparr>
   = Inr (\<lparr>duration = Fin 0, is_muted = False, is_paused = False, metadata = None,
          playlist = map (\<lambda>k. \<lparr>entry_id = k, filename = ''f'', title = [], current = False\<rparr>) [0..<3],
          search_results = ([0, 1, 2], 0), speed = Fin 1, time_pos = Fin 0, volume = Fin 50\<rparr>,
          \<lparr>top_line = 0, bottom_line = 20, selected_line = 0\<rparr>, [redraw_list])
   \<and> snd (search_results \<lparr>duration = Fin 0, is_muted = False, is_paused = False, metadata = None,
          playlist = map (\<lambda>k. \<lparr>entry_id = k, filename = ''f'', title = [], current = False\<rparr>) [0..<3],
          search_results = ([0, 1, 2], 0), speed = Fin 1, time_pos = Fin 0, volume = Fin 50\<rparr>) = Suc 2 mod 3"
  using key_n_cursor
    [of "\<lparr>duration = Fin 0, is_muted = False, is_paused = False, metadata = None,
          playlist = map (\<lambda>k. \<lparr>entry_id = k, filename = ''f'', title = [], current = False\<rparr>) [0..<3],
          search_results = ([0, 1, 2], 2), speed = Fin 1, time_pos = Fin 0, volume = Fin 50\<rparr>"
        "[0, 1, 2]" 2 "\<lparr>top_line = 0, bottom_line = 20, selected_line = 1\<rparr>"
        "\<lparr>duration = Fin 0, is_muted = False, is_paused = False, metadata = None,
          playlist = map (\<lambda>k. \<lparr>entry_id = k, filename = ''f'', title = [], current = False\<rparr>) [0..<3],
          search_results = ([0, 1, 2], 0), speed = Fin 1, time_pos = Fin 0, volume = Fin 50\<rparr>"
        "\<lparr>top_line = 0, bottom_line = 20, selected_line = 0\<rparr>" "[redraw_list]"]
  by (simp add: key_n_def try_center_id_def)

text \<open>C13. On a playlist numbered as mpv numbers it (the id of each entry is its
  index), the search results are strictly increasing row indices inside the playlist,
  so centering on a fresh result never meets an out-of-range row.\<close>

theorem search_results_valid:
  assumes "ids_ok pl"
  shows "sorted_wrt (<) (search_playlist pl s) \<and> (\<forall>r \<in> set (search_playlist pl s). r < length pl)"
proof -
  let ?P = "\<lambda>e. sublist s (filename e) \<or> sublist s (title e)"
  have "sorted_wrt (\<lambda>x y. entry_id x < entry_id y) pl"
    using assms unfolding ids_ok_def by (metis sorted_wrt_map sorted_wrt_upt)
  then have "sorted_wrt (\<lambda>x y. entry_id x < entry_id y) (filter ?P pl)"
    by (rule sorted_wrt_filter)
  moreover have "\<forall>e \<in> set pl. entry_id e < length pl"
  proof
    fix e assume "e \<in> set pl"
    then have "entry_id e \<in> set (map entry_id pl)" by simp
    with assms show "entry_id e < length pl" by (simp add: ids_ok_def)
  qed
  ultimately show ?thesis by (auto simp: search_playlist_spec sorted_wrt_map)
qed

theorem search_results_valid_witness:
  "sorted_wrt (<) (search_playlist [\<lparr>entry_id = 0, filename = ''a'', title = [], current = False\<rparr>,
      \<lparr>entry_id = 1, filename = ''b'', title = ''a'', current = True\<rparr>] ''a'')
   \<and> list_all (\<lambda>r. r < 2) (search_playlist [\<lparr>entry_id = 0, filename = ''a'', title = [], current = False\<rparr>,
      \<lparr>entry_id = 1, filename = ''b'', title = ''a'', current = True\<rparr>] ''a'')"
  using search_results_valid
    [of "[\<lparr>entry_id = 0, filename = ''a'', title = [], current = False\<rparr>,
          \<lparr>entry_id = 1, filename = ''b'', title = ''a'', current = True\<rparr>]" "''a''"]
  by (simp add: ids_ok_def numeral_2_eq_2 list_all_iff)

end
