(* ===== verification/Input.thy ===== *)
theory Input
  imports Search
begin

text \<open>
  The input listener thread (lines 311--679): one iteration of its loop per key read by
  \<open>getch()\<close>. The thread holds the player store and the canvas (each behind its own
  lock), sends repaint requests, and issues mpv commands, each of which may fail.
  \<open>MpvEnv\<close> is what mpv answers: the outcome of each command (\<open>None\<close> for
  \<open>Ok\<close>, \<open>Some why\<close> for \<open>Err why\<close>) and the playlist \<open>get_playlist()\<close> returns.
  The nested search loop of KEY_SLASH is the mode \<open>prompt\<close>: \<open>Some s\<close> while the
  prompt with pattern \<open>s\<close> is open. A command error is reported as a transient status
  message for seeking (\<open>tx.error\<close>, lines 92--104, whose 2.5 s sleep is not modelled)
  and is unwrapped, that is a panic of the thread, for every other command.
  \<open>q\<close> ends the process (\<open>Quit\<close>).
\<close>

section \<open>Commands and the answers of mpv\<close>

datatype MpvCommand =
    SeekRelative int
  | PlaylistPlayId nat
  | Restart
  | NextEntry
  | PrevEntry
  | VolumeUp
  | VolumeDown
  | SpeedUp
  | SpeedDown
  | ToggleMute
  | TogglePause
  | PlaylistRemoveId nat
  | StopPlayback
  | PlaylistShuffle
  | GetPlaylist

record MpvEnv =
  cmd_result :: "MpvCommand \<Rightarrow> string option"
  mpv_playlist :: Playlist

record InputState =
  prompt :: "string option"
  player :: Player
  canvas :: PlaylistCanvas

datatype KeyOutcome =
    Continue InputState "Repaint list" "MpvCommand list"
  | Quit "MpvCommand list"

section \<open>Helpers of the handlers\<close>

text \<open>\<open>tx.error(msg)\<close> (lines 92--104): the message, then (after the sleep) a clear.\<close>

definition report_error :: "string \<Rightarrow> Repaint list" where
  "report_error msg = [StatusBar (Message msg Normal), StatusBar StatusClear]"

text \<open>A command whose result is unwrapped: a failure panics the thread.\<close>

definition run_expect :: "MpvEnv \<Rightarrow> MpvCommand \<Rightarrow> InputState \<Rightarrow> Repaint list \<Rightarrow> KeyOutcome res" where
  "run_expect env cmd st rs =
     (case cmd_result env cmd of None \<Rightarrow> Inr (Continue st rs [cmd]) | Some why \<Rightarrow> Inl CommandFailed)"

text \<open>A seek, whose failure is reported (KEY_LEFT, KEY_RIGHT, lines 421--431).\<close>

definition run_seek :: "MpvEnv \<Rightarrow> int \<Rightarrow> InputState \<Rightarrow> KeyOutcome" where
  "run_seek env d st =
     (case cmd_result env (SeekRelative d) of
        None \<Rightarrow> Continue st [] [SeekRelative d]
      | Some why \<Rightarrow> Continue st (report_error (''Error: '' @ why)) [SeekRelative d])"

text \<open>Store a new canvas and ask for a redraw, or do nothing (KEY_O, KEY_Z).\<close>

definition apply_canvas :: "InputState \<Rightarrow> PlaylistCanvas option \<Rightarrow> InputState \<times> Repaint list" where
  "apply_canvas st nc =
     (case nc of Some c' \<Rightarrow> (st\<lparr>canvas := c'\<rparr>, [redraw_list]) | None \<Rightarrow> (st, []))"

section \<open>Arms of the browsing \<open>match ch\<close> with their own effects\<close>

text \<open>KEY_O (lines 514--526): center on the entry mpv marks as current.\<close>

definition key_o_arm :: "InputState \<Rightarrow> KeyOutcome res" where
  "key_o_arm st =
     res_bind (jump_to_current (playlist (player st)) (canvas st)) (\<lambda>nc.
       case apply_canvas st nc of (st', rs) \<Rightarrow> Inr (Continue st' rs []))"

text \<open>KEY_SLASH (lines 554--561): show the prompt and enter the search loop with an
  empty pattern.\<close>

definition key_slash_arm :: "InputState \<Rightarrow> KeyOutcome" where
  "key_slash_arm st = Continue (st\<lparr>prompt := Some []\<rparr>) [StatusBar (Message ''Search:'' Normal)] []"

text \<open>KEY_U (lines 647--653): reload the playlist from mpv (unwrapped) and ask for a
  redraw from the top.\<close>

definition key_u_arm :: "MpvEnv \<Rightarrow> InputState \<Rightarrow> KeyOutcome res" where
  "key_u_arm env st =
     (case cmd_result env GetPlaylist of
        None \<Rightarrow> Inr (Continue (st\<lparr>player := player st\<lparr>playlist := mpv_playlist env\<rparr>\<rparr>) [reload_list]
                       [GetPlaylist])
      | Some why \<Rightarrow> Inl CommandFailed)"

text \<open>KEY_Z (lines 655--672): shuffle (unwrapped), fetch the shuffled playlist
  (unwrapped) and center on its current entry; the store keeps the old playlist until
  the property listener reports the new one.\<close>

definition key_z_arm :: "MpvEnv \<Rightarrow> InputState \<Rightarrow> KeyOutcome res" where
  "key_z_arm env st =
     (case cmd_result env PlaylistShuffle of
        Some why \<Rightarrow> Inl CommandFailed
      | None \<Rightarrow>
        (case cmd_result env GetPlaylist of
           Some why \<Rightarrow> Inl CommandFailed
         | None \<Rightarrow>
             res_bind (jump_to_current (mpv_playlist env) (canvas st)) (\<lambda>nc.
               case apply_canvas st nc of
                 (st', rs) \<Rightarrow> Inr (Continue st' rs [PlaylistShuffle, GetPlaylist]))))"

section \<open>One key while browsing (lines 322--675)\<close>

definition browse_key :: "nat \<Rightarrow> MpvEnv \<Rightarrow> int \<Rightarrow> InputState \<Rightarrow> KeyOutcome res" where
  "browse_key H env ch st =
     (let p = player st; c = canvas st; pl = playlist p in
      if ch = NC_KEY_UP then Inr (Continue (st\<lparr>canvas := key_up c\<rparr>) [redraw_list] [])
      else if ch = NC_KEY_DOWN then
        res_bind (key_down H pl c) (\<lambda>c'. Inr (Continue (st\<lparr>canvas := c'\<rparr>) [redraw_list] []))
      else if ch = NC_KEY_PPAGE then
        res_bind (key_ppage H c) (\<lambda>c'. Inr (Continue (st\<lparr>canvas := c'\<rparr>) [redraw_list] []))
      else if ch = NC_KEY_NPAGE then
        res_bind (key_npage H pl c) (\<lambda>c'. Inr (Continue (st\<lparr>canvas := c'\<rparr>) [redraw_list] []))
      else if ch = NC_KEY_LEFT then Inr (run_seek env (-5) st)
      else if ch = NC_KEY_RIGHT then Inr (run_seek env 5 st)
      else if ch = KEY_ENTER then run_expect env (PlaylistPlayId (selected_line c)) st [redraw_list]
      else if ch = KEY_BACKSPACE then run_expect env Restart st []
      else if ch = KEY_GT then run_expect env NextEntry st []
      else if ch = KEY_LT then run_expect env PrevEntry st []
      else if ch = KEY_PLUS then run_expect env VolumeUp st []
      else if ch = KEY_MINUS then run_expect env VolumeDown st []
      else if ch = KEY_RSBR then run_expect env SpeedUp st []
      else if ch = KEY_LSBR then run_expect env SpeedDown st []
      else if ch = KEY_M then run_expect env ToggleMute st []
      else if ch = KEY_N then
        res_bind (key_n p c) (\<lambda>(p', c', rs). Inr (Continue (st\<lparr>player := p', canvas := c'\<rparr>) rs []))
      else if ch = KEY_O then key_o_arm st
      else if ch = KEY_P then run_expect env TogglePause st []
      else if ch = KEY_Q then Inr (Quit [])
      else if ch = KEY_R then run_expect env (PlaylistRemoveId (selected_line c)) st []
      else if ch = KEY_S then run_expect env StopPlayback st []
      else if ch = KEY_SLASH then Inr (key_slash_arm st)
      else if ch = KEY_U then key_u_arm env st
      else if ch = KEY_Z then key_z_arm env st
      else Inr (Continue st [] []))"

text \<open>The key codes that have an arm in the browsing \<open>match ch\<close>.\<close>

definition browse_keys :: "int list" where
  "browse_keys = [NC_KEY_UP, NC_KEY_DOWN, NC_KEY_PPAGE, NC_KEY_NPAGE, NC_KEY_LEFT, NC_KEY_RIGHT,
     KEY_ENTER, KEY_BACKSPACE, KEY_GT, KEY_LT, KEY_PLUS, KEY_MINUS, KEY_RSBR, KEY_LSBR, KEY_M,
     KEY_N, KEY_O, KEY_P, KEY_Q, KEY_R, KEY_S, KEY_SLASH, KEY_U, KEY_Z]"

section \<open>One key of the input thread\<close>

definition input_key :: "nat \<Rightarrow> MpvEnv \<Rightarrow> int \<Rightarrow> InputState \<Rightarrow> KeyOutcome res" where
  "input_key H env ch st =
     (case prompt st of
        None \<Rightarrow> browse_key H env ch st
      | Some s \<Rightarrow>
          res_bind (search_key ch s (player st) (canvas st)) (\<lambda>(m, p', c', rs).
            Inr (Continue
                   (st\<lparr>prompt := (case m of Typing s' \<Rightarrow> Some s' | Closed \<Rightarrow> None),
                       player := p', canvas := c'\<rparr>) rs [])))"

section \<open>Lemmas\<close>

lemma find_current_first:
  assumes "k < length pl" and "current (pl ! k)" and "\<forall>j < k. \<not> current (pl ! j)"
  shows "find_current i pl = i + k"
  using assms
proof (induction pl arbitrary: i k)
  case Nil
  then show ?case by simp
next
  case (Cons e es)
  show ?case
  proof (cases k)
    case 0
    with Cons.prems show ?thesis by simp
  next
    case (Suc k')
    with Cons.prems(3) have "\<not> current e" by auto
    moreover have "find_current (Suc i) es = Suc i + k'"
      using Cons.prems Suc by (intro Cons.IH) auto
    ultimately show ?thesis using Suc by simp
  qed
qed

lemma browse_key_O: "browse_key H env KEY_O st = key_o_arm st"
  by (simp add: browse_key_def key_codes Let_def)

section \<open>Properties of the input thread\<close>

text \<open>C21. Spec 7(b) makes every failed player command a transient status message.
  The code reports a failed seek so (message, then clear), but unwraps the result of
  every other command: when mpv rejects them, Enter, Backspace, the track, volume,
  speed, mute, pause, remove, stop, refresh and shuffle keys panic and end the input
  thread.\<close>

theorem failed_commands:
  "list_all (\<lambda>ch. input_key H \<lparr>cmd_result = \<lambda>_. Some why, mpv_playlist = pl\<rparr> ch (st\<lparr>prompt := None\<rparr>)
                   = Inl CommandFailed)
     [KEY_ENTER, KEY_BACKSPACE, KEY_GT, KEY_LT, KEY_PLUS, KEY_MINUS, KEY_RSBR, KEY_LSBR,
      KEY_M, KEY_P, KEY_R, KEY_S, KEY_U, KEY_Z]
   \<and> input_key H \<lparr>cmd_result = \<lambda>_. Some why, mpv_playlist = pl\<rparr> NC_KEY_LEFT (st\<lparr>prompt := None\<rparr>)
       = Inr (Continue (st\<lparr>prompt := None\<rparr>) (report_error (''Error: '' @ why)) [SeekRelative (-5)])"
  by (simp add: input_key_def browse_key_def run_expect_def run_seek_def key_codes Let_def
      key_u_arm_def key_z_arm_def)

text \<open>C22. Opening the search prompt with \<open>/\<close> and cancelling it with Escape leaves
  the player store, the canvas and the mode as they were, and only shows and clears
  the prompt (spec 4.5: Escape cancels without executing).\<close>

theorem slash_then_esc:
  assumes "prompt st = None"
  shows "input_key H env KEY_SLASH st = Inr (Continue (st\<lparr>prompt := Some []\<rparr>) [StatusBar (Message ''Search:'' Normal)] [])
       \<and> input_key H env KEY_ESC (st\<lparr>prompt := Some []\<rparr>) = Inr (Continue st [StatusBar StatusClear] [])"
  using assms by (simp add: input_key_def browse_key_def key_slash_arm_def search_key_def key_codes Let_def)

theorem slash_then_esc_witness:
  "input_key 10 \<lparr>cmd_result = \<lambda>_. None, mpv_playlist = []\<rparr> KEY_SLASH
      \<lparr>prompt = None, player = \<lparr>duration = Fin 0, is_muted = False, is_paused = False, metadata = None,
        playlist = [], search_results = ([], 0), speed = Fin 1, time_pos = Fin 0, volume = Fin 50\<rparr>,
       canvas = \<lparr>top_line = 0, bottom_line = 10, selected_line = 0\<rparr>\<rparr>
     = Inr (Continue (\<lparr>prompt = None, player = \<lparr>duration = Fin 0, is_muted = False, is_paused = False, metadata = None,
        playlist = [], search_results = ([], 0), speed = Fin 1, time_pos = Fin 0, volume = Fin 50\<rparr>,
       canvas = \<lparr>top_line = 0, bottom_line = 10, selected_line = 0\<rparr>\<rparr>\<lparr>prompt := Some []\<rparr>)
          [StatusBar (Message ''Search:'' Normal)] [])
   \<and> input_key 10 \<lparr>cmd_result = \<lambda>_. None, mpv_playlist = []\<rparr> KEY_ESC
      (\<lparr>prompt = None, player = \<lparr>duration = Fin 0, is_muted = False, is_paused = False, metadata = None,
        playlist = [], search_results = ([], 0), speed = Fin 1, time_pos = Fin 0, volume = Fin 50\<rparr>,
       canvas = \<lparr>top_line = 0, bottom_line = 10, selected_line = 0\<rparr>\<rparr>\<lparr>prompt := Some []\<rparr>)
     = Inr (Continue \<lparr>prompt = None, player = \<lparr>duration = Fin 0, is_muted = False, is_paused = False, metadata = None,
        playlist = [], search_results = ([], 0), speed = Fin 1, time_pos = Fin 0, volume = Fin 50\<rparr>,
       canvas = \<lparr>top_line = 0, bottom_line = 10, selected_line = 0\<rparr>\<rparr> [StatusBar StatusClear] [])"
  by (rule slash_then_esc) simp

text \<open>C23. Jump to the playing entry (\<open>o\<close>): on a consistent canvas, when the first
  current entry is row \<open>k\<close> and centering on it does not underflow, the key selects
  row \<open>k\<close>, leaves a consistent canvas, asks for one redraw and leaves the player
  store alone.\<close>

theorem key_o_centers_current:
  assumes "prompt st = None" and "canvas_ok H (length (playlist (player st))) (canvas st)" and "0 < H"
    and "k < length (playlist (player st))" and "current (playlist (player st) ! k)"
    and "\<forall>j < k. \<not> current (playlist (player st) ! j)"
    and "H \<le> length (playlist (player st))"
  shows "\<exists>c'. input_key H env KEY_O st = Inr (Continue (st\<lparr>canvas := c'\<rparr>) [redraw_list] [])
              \<and> selected_line c' = k \<and> canvas_ok H (length (playlist (player st))) c'"
proof -
  let ?pl = "playlist (player st)"
  have b: "bottom_line (canvas st) = top_line (canvas st) + H" using assms(2) by (simp add: canvas_ok_def)
  have f: "find_current 0 ?pl = k" using find_current_first [OF assms(4,5,6), of 0] by simp
  obtain c' where t: "try_center_id ?pl (canvas st) k = Inr (Some c')"
    using try_center_id_total [OF b assms(4)] assms(7) by blast
  have "selected_line c' = k" using t by (rule try_center_id_selected)
  moreover have "canvas_ok H (length ?pl) c'" using try_center_id_canvas_ok [OF b assms(3) t] .
  moreover have "input_key H env KEY_O st = Inr (Continue (st\<lparr>canvas := c'\<rparr>) [redraw_list] [])"
    using assms(1) t f by (simp add: input_key_def browse_key_O key_o_arm_def jump_to_current_def apply_canvas_def)
  ultimately show ?thesis by blast
qed

theorem key_o_centers_current_witness:
  "\<exists>c'. input_key 2 \<lparr>cmd_result = \<lambda>_. None, mpv_playlist = []\<rparr> KEY_O
      \<lparr>prompt = None, player = \<lparr>duration = Fin 0, is_muted = False, is_paused = False, metadata = None,
        playlist = [\<lparr>entry_id = 0, filename = ''a'', title = [], current = False\<rparr>,
                    \<lparr>entry_id = 1, filename = ''b'', title = [], current = False\<rparr>,
                    \<lparr>entry_id = 2, filename = ''c'', title = [], current = True\<rparr>],
        search_results = ([], 0), speed = Fin 1, time_pos = Fin 0, volume = Fin 50\<rparr>,
       canvas = \<lparr>top_line = 0, bottom_line = 2, selected_line = 0\<rparr>\<rparr>
    = Inr (Continue (\<lparr>prompt = None, player = \<lparr>duration = Fin 0, is_muted = False, is_paused = False, metadata = None,
        playlist = [\<lparr>entry_id = 0, filename = ''a'', title = [], current = False\<rparr>,
                    \<lparr>entry_id = 1, filename = ''b'', title = [], current = False\<rparr>,
                    \<lparr>entry_id = 2, filename = ''c'', title = [], current = True\<rparr>],
        search_results = ([], 0), speed = Fin 1, time_pos = Fin 0, volume = Fin 50\<rparr>,
       canvas = \<lparr>top_line = 0, bottom_line = 2, selected_line = 0\<rparr>\<rparr>\<lparr>canvas := c'\<rparr>) [redraw_list] [])
    \<and> selected_line c' = 2 \<and> canvas_ok 2 3 c'"
  using key_o_centers_current [of "\<lparr>prompt = None, player = \<lparr>duration = Fin 0, is_muted = False, is_paused = False, metadata = None,
        playlist = [\<lparr>entry_id = 0, filename = ''a'', title = [], current = False\<rparr>,
                    \<lparr>entry_id = 1, filename = ''b'', title = [], current = False\<rparr>,
                    \<lparr>entry_id = 2, filename = ''c'', title = [], current = True\<rparr>],
        search_results = ([], 0), speed = Fin 1, time_pos = Fin 0, volume = Fin 50\<rparr>,
       canvas = \<lparr>top_line = 0, bottom_line = 2, selected_line = 0\<rparr>\<rparr>" 2 2
       "\<lparr>cmd_result = \<lambda>_. None, mpv_playlist = []\<rparr>"]
  by (simp add: canvas_ok_def view_ok_def less_Suc_eq numeral_2_eq_2)

text \<open>C24. A key without an arm in the browsing \<open>match\<close> is ignored: no state
  changes, nothing is sent and no command is issued (spec 7(d)).\<close>

theorem unknown_key_ignored:
  assumes "prompt st = None" and "ch \<notin> set browse_keys"
  shows "input_key H env ch st = Inr (Continue st [] [])"
  using assms by (simp add: input_key_def browse_key_def browse_keys_def Let_def)

theorem unknown_key_ignored_witness:
  "input_key 10 \<lparr>cmd_result = \<lambda>_. None, mpv_playlist = []\<rparr> 120
      \<lparr>prompt = None, player = \<lparr>duration = Fin 0, is_muted = False, is_paused = False, metadata = None,
        playlist = [], search_results = ([], 0), speed = Fin 1, time_pos = Fin 0, volume = Fin 50\<rparr>,
       canvas = \<lparr>top_line = 0, bottom_line = 10, selected_line = 0\<rparr>\<rparr>
   = Inr (Continue \<lparr>prompt = None, player = \<lparr>duration = Fin 0, is_muted = False, is_paused = False, metadata = None,
        playlist = [], search_results = ([], 0), speed = Fin 1, time_pos = Fin 0, volume = Fin 50\<rparr>,
       canvas = \<lparr>top_line = 0, bottom_line = 10, selected_line = 0\<rparr>\<rparr> [] [])"
  by (rule unknown_key_ignored) (simp_all add: browse_keys_def key_codes)

end
