(* ===== verification/StatusBar.thy ===== *)
theory StatusBar
  imports Player
begin

text \<open>
  The time display of the status bar: \<open>get_pretty_time\<close> (lines 938--979) and the
  \<open>UpdateStatusBar::Time\<close> arm of the render loop (lines 757--787), which prints
  \<open>"    elapsed / total (pct%)"\<close> right-aligned and a progress bar of \<open>max_x\<close>
  cells. Times are \<open>f64\<close>; \<open>seconds as i64\<close> truncates and saturates
  (\<open>f_as_i64\<close>), i64 \<open>/\<close> and \<open>%\<close> truncate towards zero (\<open>sdiv\<close>, \<open>smod\<close>).
  The percentage is \<open>100f64 / duration * time_pos\<close> cast \<open>as i32\<close>; the bar compares
  each cell index with \<open>max_x / 100 * pct\<close> in i32 arithmetic, whose overflow panics.
\<close>

section \<open>Pretty time (lines 938--979)\<close>

definition time_fields :: "int \<Rightarrow> int \<times> int \<times> int" where
  "time_fields s =
     (let hours = s sdiv 3600;
          mins = (s - hours * 3600) sdiv 60;
          secs = s smod 60
      in (hours, mins, secs))"

definition pad2 :: "int \<Rightarrow> string" where
  "pad2 x = (if x < 10 then ''0'' @ show_int x else show_int x)"

definition get_pretty_time :: "f64 \<Rightarrow> string" where
  "get_pretty_time seconds =
     (case time_fields (f_as_i64 seconds) of (hours, mins, secs) \<Rightarrow>
        if flt seconds (Fin 3600) then pad2 mins @ '':'' @ pad2 secs
        else pad2 hours @ '':'' @ pad2 mins @ '':'' @ pad2 secs)"

section \<open>The Time arm of the render loop (lines 757--787)\<close>

definition percentage :: "f64 \<Rightarrow> f64 \<Rightarrow> f64" where
  "percentage dur pos = fmul (fdiv (Fin 100) dur) pos"

definition time_text :: "f64 \<Rightarrow> f64 \<Rightarrow> string" where
  "time_text dur pos =
     ''    '' @ get_pretty_time pos @ '' / '' @ get_pretty_time dur @
     '' ('' @ show_int (f_as_i32 (percentage dur pos)) @ ''%)''"

definition bar_cell :: "int \<Rightarrow> int \<Rightarrow> char" where
  "bar_cell mark i = (if i < mark then CHR ''='' else if i = mark then CHR ''>'' else CHR ''-'')"

definition progress_bar :: "int \<Rightarrow> int \<Rightarrow> string res" where
  "progress_bar max_x pct =
     res_bind (i32_ok (max_x sdiv 100 * pct)) (\<lambda>mark.
       Inr (map (\<lambda>i. bar_cell mark (int i)) [0..<nat max_x]))"

text \<open>What the Time arm draws: the column and text of row 1 and the bar of row 2.\<close>

definition status_time :: "int \<Rightarrow> Player \<Rightarrow> (int \<times> string \<times> string) res" where
  "status_time max_x p =
     (let text = time_text (duration p) (time_pos p);
          pct = f_as_i32 (percentage (duration p) (time_pos p))
      in res_bind (progress_bar max_x pct) (\<lambda>bar. Inr (max_x - int (length text), text, bar)))"

section \<open>Lemmas\<close>

lemma sdiv_nonneg: "0 \<le> (a::int) \<Longrightarrow> 0 < b \<Longrightarrow> a sdiv b = a div b"
  by (auto simp: signed_divide_int_def sgn_if)

lemma smod_nonneg: "0 \<le> (a::int) \<Longrightarrow> 0 < b \<Longrightarrow> a smod b = a mod b"
  by (auto simp: signed_modulo_int_def sgn_if)

lemma time_fields_nonneg:
  assumes "0 \<le> s"
  shows "time_fields s = (s div 3600, s mod 3600 div 60, s mod 60)"
proof -
  have "s - s div 3600 * 3600 = s mod 3600" by (simp add: minus_div_mult_eq_mod)
  then show ?thesis using assms by (simp add: time_fields_def Let_def sdiv_nonneg smod_nonneg)
qed

lemma bar_cells:
  assumes "0 \<le> mark"
  shows "map (\<lambda>i. bar_cell mark (int i)) [0..<n] =
         replicate (min n (nat mark)) CHR ''='' @
         (if nat mark < n then CHR ''>'' # replicate (n - nat mark - 1) CHR ''-'' else [])"
  using assms by (auto simp: list_eq_iff_nth_eq bar_cell_def nth_append nth_Cons' min_def)

lemma pad2_length:
  assumes "0 \<le> x" and "x < 100"
  shows "length (pad2 x) = 2"
proof (cases "x < 10")
  case True
  with assms show ?thesis by (simp add: pad2_def show_int_def)
next
  case False
  then have "10 \<le> nat x" "nat x < 100" using assms by auto
  with False show ?thesis by (simp add: pad2_def show_int_def show_nat_length_two)
qed

lemma f_as_i64_of_int:
  assumes "- (2 ^ 63) \<le> s" and "s \<le> 2 ^ 63 - 1"
  shows "f_as_i64 (Fin (of_int s)) = s"
  using assms by (simp add: trunc_real_def)

lemma progress_bar_mark:
  assumes "0 \<le> max_x sdiv 100 * pct" and "max_x sdiv 100 * pct < 2 ^ 31"
  shows "progress_bar max_x pct =
           Inr (replicate (min (nat max_x) (nat (max_x sdiv 100 * pct))) CHR ''='' @
                (if nat (max_x sdiv 100 * pct) < nat max_x
                 then CHR ''>'' # replicate (nat max_x - nat (max_x sdiv 100 * pct) - 1) CHR ''-''
                 else []))"
  using assms by (simp add: progress_bar_def bar_cells)

section \<open>Properties of the time display\<close>

text \<open>C14. For a non-negative number of seconds the three fields computed by
  \<open>get_pretty_time\<close> are a correct hours/minutes/seconds decomposition.\<close>

theorem time_fields_correct:
  assumes "0 \<le> s" and "time_fields s = (h, m, x)"
  shows "3600 * h + 60 * m + x = s \<and> 0 \<le> h \<and> 0 \<le> m \<and> m < 60 \<and> 0 \<le> x \<and> x < 60"
proof -
  have e: "h = s div 3600" "m = s mod 3600 div 60" "x = s mod 60"
    using assms by (simp_all add: time_fields_nonneg)
  have "s mod 3600 mod 60 = s mod 60" by (simp add: mod_mod_cancel)
  then have "60 * (s mod 3600 div 60) + s mod 60 = s mod 3600" by (metis div_mult_mod_eq mult.commute)
  then have "3600 * h + 60 * m + x = s" unfolding e by (metis add.assoc div_mult_mod_eq mult.commute)
  moreover have "s mod 3600 div 60 < 60" by simp
  moreover have "0 \<le> s div 3600" "0 \<le> s mod 3600 div 60" using assms(1) by simp_all
  ultimately show ?thesis using e by simp
qed

theorem time_fields_correct_witness:
  "3600 * 1 + 60 * 1 + 1 = (3661::int) \<and> (0::int) \<le> 1 \<and> (0::int) \<le> 1 \<and> (1::int) < 60 \<and> (0::int) \<le> 1 \<and> (1::int) < 60"
  using time_fields_correct [of 3661 1 1 1] by (simp add: time_fields_def Let_def signed_divide_int_def signed_modulo_int_def)

text \<open>The pretty-time examples of spec 8: 65 s prints \<open>01:05\<close>, 3661 s prints
  \<open>01:01:01\<close>, 0 s prints \<open>00:00\<close>.\<close>

theorem pretty_time_spec_examples:
  "get_pretty_time (Fin 65) = ''01:05'' \<and> get_pretty_time (Fin 3661) = ''01:01:01''
   \<and> get_pretty_time (Fin 0) = ''00:00''"
  by (simp add: get_pretty_time_def time_fields_def pad2_def show_int_def digit_char_def trunc_real_def signed_divide_int_def signed_modulo_int_def)

text \<open>C16. Under one hour an integral time prints as \<open>mm:ss\<close>, both fields zero-padded
  to two digits, five characters in all.\<close>

theorem pretty_time_under_hour:
  assumes "0 \<le> s" and "s < 3600"
  shows "get_pretty_time (Fin (of_int s)) = pad2 (s div 60) @ '':'' @ pad2 (s mod 60)
         \<and> length (get_pretty_time (Fin (of_int s))) = 5"
proof -
  have i: "f_as_i64 (Fin (of_int s)) = s" by (rule f_as_i64_of_int) (use assms in simp_all)
  have "s mod 3600 = s" using assms by simp
  then have e: "get_pretty_time (Fin (of_int s)) = pad2 (s div 60) @ '':'' @ pad2 (s mod 60)"
    using assms i by (simp add: get_pretty_time_def time_fields_nonneg)
  have "length (pad2 (s div 60)) = 2" "length (pad2 (s mod 60)) = 2"
    using assms by (simp_all add: pad2_length)
  with e show ?thesis by simp
qed

theorem pretty_time_under_hour_witness:
  "get_pretty_time (Fin (of_int 754)) = pad2 (754 div 60) @ '':'' @ pad2 (754 mod 60)
   \<and> length (get_pretty_time (Fin (of_int 754))) = 5"
  by (rule pretty_time_under_hour [of 754]) simp_all

lemma percentage_zero_duration_i32:
  "f_as_i32 (percentage (Fin 0) (Fin t)) =
     (if t = 0 then 0 else if 0 < t then 2 ^ 31 - 1 else - (2 ^ 31))"
  by (simp add: percentage_def)

text \<open>C17. Spec 8 asks that a zero duration yields a defined percentage. For every
  position \<open>t\<close>, \<open>100 / 0 * t\<close> is NaN at \<open>t = 0\<close>, whose cast gives 0 %, and an infinity
  otherwise, whose cast saturates: the status bar prints \<open>2147483647%\<close> for any positive
  position (and \<open>-2147483648%\<close> for a negative one), next to a duration of 00:00.\<close>

theorem percentage_zero_duration:
  "f_as_i32 (percentage (Fin 0) (Fin t)) =
     (if t = 0 then 0 else if 0 < t then 2 ^ 31 - 1 else - (2 ^ 31))
   \<and> time_text (Fin 0) (Fin t) =
     ''    '' @ get_pretty_time (Fin t) @ '' / 00:00 ('' @
     (if t = 0 then ''0'' else if 0 < t then ''2147483647'' else ''-2147483648'') @ ''%)''"
proof -
  have z: "get_pretty_time (Fin 0) = ''00:00''"
    by (simp add: get_pretty_time_def time_fields_def pad2_def show_int_def show_nat_step digit_char_def
        trunc_real_def signed_divide_int_def signed_modulo_int_def)
  have s: "show_int (f_as_i32 (percentage (Fin 0) (Fin t))) =
        (if t = 0 then ''0'' else if 0 < t then ''2147483647'' else ''-2147483648'')"
    unfolding percentage_zero_duration_i32 by (simp add: show_int_def show_nat_step digit_char_def)
  show ?thesis
    unfolding time_text_def s z using percentage_zero_duration_i32 [of t] by simp
qed

text \<open>C18. With a zero duration, a positive position and a terminal of at least 200
  columns, the bar's \<open>max_x / 100 * percentage as i32\<close> overflows i32, and the render
  loop (the main thread) panics.\<close>

theorem status_time_zero_duration_panics:
  assumes "duration p = Fin 0" and "time_pos p = Fin t" and "0 < t"
    and "200 \<le> max_x"
  shows "status_time max_x p = Inl ArithOverflow"
proof -
  have "f_as_i32 (percentage (duration p) (time_pos p)) = 2 ^ 31 - 1"
    using assms by (simp add: percentage_def)
  moreover have "2 \<le> max_x sdiv 100" using assms(4) by (simp add: sdiv_nonneg)
  then have "2 ^ 31 \<le> max_x sdiv 100 * (2 ^ 31 - 1)" by simp
  ultimately show ?thesis by (simp add: status_time_def Let_def progress_bar_def i32_ok_out)
qed

theorem status_time_zero_duration_panics_witness:
  "status_time 200 \<lparr>duration = Fin 0, is_muted = False, is_paused = False, metadata = None,
      playlist = [], search_results = ([], 0), speed = Fin 1, time_pos = Fin 7, volume = Fin 50\<rparr>
   = Inl ArithOverflow"
  using status_time_zero_duration_panics [of "\<lparr>duration = Fin 0, is_muted = False, is_paused = False,
      metadata = None, playlist = [], search_results = ([], 0), speed = Fin 1, time_pos = Fin 7,
      volume = Fin 50\<rparr>" 7 200]
  by simp

text \<open>C19. The bar divides the width by 100 before scaling: on a terminal narrower than
  100 columns the mark is always cell 0, so the bar shows no progress at all.\<close>

theorem narrow_bar:
  assumes "0 < max_x" and "max_x < 100"
  shows "progress_bar max_x pct = Inr (CHR ''>'' # replicate (nat max_x - 1) CHR ''-'')"
proof -
  have "max_x sdiv 100 = 0" using assms by (simp add: sdiv_nonneg)
  then show ?thesis using assms by (simp add: progress_bar_def bar_cells)
qed

theorem narrow_bar_witness:
  "progress_bar 80 57 = Inr (CHR ''>'' # replicate 79 CHR ''-'')"
  using narrow_bar [of 80 57] by simp

text \<open>C20. Otherwise the bar has exactly \<open>max_x\<close> cells: \<open>k = max_x / 100 * pct\<close>
  filled cells, the cursor at cell \<open>k\<close> when it is inside the bar, and empty cells
  after it.\<close>

theorem progress_bar_shape:
  assumes "0 \<le> max_x" and "0 \<le> pct" and "max_x sdiv 100 * pct < 2 ^ 31"
  shows "progress_bar max_x pct =
           Inr (if max_x div 100 * pct < max_x
                then replicate (nat (max_x div 100 * pct)) CHR ''='' @
                     CHR ''>'' # replicate (nat max_x - nat (max_x div 100 * pct) - 1) CHR ''-''
                else replicate (nat max_x) CHR ''='')
         \<and> length (projr (progress_bar max_x pct)) = nat max_x"
proof -
  have d: "max_x sdiv 100 = max_x div 100" using assms(1) by (simp add: sdiv_nonneg)
  have k: "0 \<le> max_x div 100 * pct" using assms(1,2) by simp
  have p: "progress_bar max_x pct =
           Inr (replicate (min (nat max_x) (nat (max_x div 100 * pct))) CHR ''='' @
                (if nat (max_x div 100 * pct) < nat max_x
                 then CHR ''>'' # replicate (nat max_x - nat (max_x div 100 * pct) - 1) CHR ''-''
                 else []))"
    using progress_bar_mark [of max_x pct] k assms(3) by (simp only: d)
  show ?thesis
  proof (cases "max_x div 100 * pct < max_x")
    case True
    then have "nat (max_x div 100 * pct) < nat max_x" using k by simp
    with True p show ?thesis by (simp add: min_def)
  next
    case False
    then have "\<not> nat (max_x div 100 * pct) < nat max_x" by simp
    with False p show ?thesis by (simp add: min_def)
  qed
qed

theorem progress_bar_shape_witness:
  "progress_bar 300 40 =
     Inr (replicate 120 CHR ''='' @ CHR ''>'' # replicate 179 CHR ''-'')
   \<and> length (projr (progress_bar 300 40)) = 300"
  using progress_bar_shape [of 300 40] by simp

end
