(* ===== verification/Render.thy ===== *)
theory Render
  imports Input StatusBar
begin

text \<open>
  The render loop of the main thread (lines 690--857) and \<open>print_playlist\<close> (lines
  866--936). Each request taken from the channel is drawn on one pane; what is drawn is
  the list of ncurses calls made (\<open>DrawOp\<close>), and the only state the loop writes is
  the canvas (on a playlist request). The loop reads the current player store, not the
  store as it was when the request was sent.
  Strings are UTF-8 bytes: \<open>chars().count()\<close> counts the bytes that start a character
  (\<open>char_count\<close>), and \<open>String::truncate\<close> takes a byte index and panics inside a
  multi-byte character (\<open>str_truncate\<close>).
  \<open>media_title\<close> is the answer of \<open>get_property("media-title")\<close>.
\<close>

section \<open>ncurses calls\<close>

datatype Pane = TopBarWin | PlaylistWin | StatusBarWin

datatype Attr = AReverse | ABold | ABlink

datatype DrawOp =
    WClear Pane
  | WMove Pane int int
  | WPrint Pane string
  | WAttrOn Pane Attr
  | WAttrOff Pane Attr
  | WHLine Pane int
  | WVLine Pane int
  | WRefresh Pane

section \<open>UTF-8 strings\<close>

definition char_count :: "string \<Rightarrow> nat" where
  "char_count s = length (filter (\<lambda>b. \<not> is_cont_byte b) s)"

definition is_char_boundary :: "string \<Rightarrow> nat \<Rightarrow> bool" where
  "is_char_boundary s n \<longleftrightarrow> n = 0 \<or> n = length s \<or> (n < length s \<and> \<not> is_cont_byte (s ! n))"

definition str_truncate :: "nat \<Rightarrow> string \<Rightarrow> string res" where
  "str_truncate n s =
     (if length s \<le> n then Inr s
      else if is_char_boundary s n then Inr (take n s) else Inl NotCharBoundary)"

section \<open>One playlist row (lines 876--924)\<close>

text \<open>\<open>\<triangleright>\<close> is U+25B6, the bytes E2 96 B6.\<close>

definition play_glyph :: string where
  "play_glyph = [char_of (226::nat), char_of (150::nat), char_of (182::nat)]"

definition row_marker :: "PlaylistEntry \<Rightarrow> string" where
  "row_marker e =
     (if current e then
        (if entry_id e < 10 then ''   '' @ play_glyph @ '' ''
         else if entry_id e < 100 then ''  '' @ play_glyph @ '' ''
         else '' '' @ play_glyph @ '' '')
      else
        (if entry_id e < 10 then ''     '' else if entry_id e < 100 then ''    '' else ''   ''))"

definition row_string :: "PlaylistEntry \<Rightarrow> string" where
  "row_string e = show_nat (entry_id e) @ row_marker e @ (if title e = [] then filename e else title e)"

definition row_text :: "int \<Rightarrow> PlaylistEntry \<Rightarrow> string res" where
  "row_text max_x e =
     (let output = row_string e;
          len = char_count output
      in res_bind
           (if int len > max_x then
              res_bind (usub (nat max_x) 3) (\<lambda>n.
              res_bind (str_truncate n output) (\<lambda>t. Inr (t @ ''...'')))
            else Inr output)
           (\<lambda>out. Inr (if int len < max_x then out @ replicate (nat max_x - len) CHR '' '' else out)))"

definition row_ops :: "int \<Rightarrow> nat \<Rightarrow> PlaylistEntry \<Rightarrow> nat \<Rightarrow> DrawOp list res" where
  "row_ops max_x selected e i =
     res_bind (row_text max_x e) (\<lambda>out.
       Inr ((if i = selected then [WAttrOn PlaylistWin AReverse] else []) @
            (if current e then [WAttrOn PlaylistWin ABold] else []) @
            [WPrint PlaylistWin out, WAttrOff PlaylistWin ABold] @
            (if i = selected then [WAttrOff PlaylistWin AReverse] else [])))"

section \<open>print_playlist (lines 866--936)\<close>

fun rows_loop :: "int \<Rightarrow> Playlist \<Rightarrow> nat \<Rightarrow> int \<Rightarrow> nat list \<Rightarrow> DrawOp list res" where
  "rows_loop max_x pl selected y [] = Inr []"
| "rows_loop max_x pl selected y (i # is) =
     res_bind (if i < length pl then row_ops max_x selected (pl ! i) i else Inr []) (\<lambda>ops.
     res_bind (rows_loop max_x pl selected (y + 1) is) (\<lambda>rest.
       Inr (WMove PlaylistWin y 0 # ops @ rest)))"

definition print_playlist :: "int \<Rightarrow> Playlist \<Rightarrow> PlaylistCanvas \<Rightarrow> DrawOp list res" where
  "print_playlist max_x pl c =
     res_bind
       (if 0 < length pl then rows_loop max_x pl (selected_line c) 0 [top_line c..<bottom_line c]
        else Inr [WMove PlaylistWin 0 6, WPrint PlaylistWin ''Playlist is empty''])
       (\<lambda>ops. res_bind (usub (bottom_line c) (top_line c)) (\<lambda>h.
          Inr (ops @ [WMove PlaylistWin 0 5, WVLine PlaylistWin (as_i32 h), WRefresh PlaylistWin])))"

section \<open>The arms of the render loop (lines 699--855)\<close>

definition fixed2 :: "f64 \<Rightarrow> string" where
  "fixed2 v =
     (case v of
        Fin x \<Rightarrow> (let k = round (x * 100) in
                   (if k < 0 then ''-'' else []) @ show_nat (nat \<bar>k\<bar> div 100) @ ''.'' @
                   (if nat \<bar>k\<bar> mod 100 < 10 then ''0'' else []) @ show_nat (nat \<bar>k\<bar> mod 100))
      | PInf \<Rightarrow> ''inf'' | NInf \<Rightarrow> ''-inf'' | NaN \<Rightarrow> ''NaN'')"

definition meta_string :: "(string \<times> MpvDataType) list \<Rightarrow> string \<Rightarrow> string option" where
  "meta_string m key = (case map_of m key of Some (MpvString t) \<Rightarrow> Some t | _ \<Rightarrow> None)"

definition status_ops :: "int \<Rightarrow> Player \<Rightarrow> UpdateStatusBar \<Rightarrow> DrawOp list res" where
  "status_ops max_x p u =
     res_bind
       (case u of
          StatusClear \<Rightarrow> Inr [WClear StatusBarWin]
        | Message msg fmt \<Rightarrow>
            Inr ((if fmt = Blinking then [WAttrOn StatusBarWin ABlink] else []) @
                 [WMove StatusBarWin 1 0, WPrint StatusBarWin msg] @
                 (if fmt = Blinking then [WAttrOff StatusBarWin ABlink] else []))
        | Time \<Rightarrow>
            res_bind (status_time max_x p) (\<lambda>(col, text, bar).
              Inr [WMove StatusBarWin 1 col, WPrint StatusBarWin text,
                   WMove StatusBarWin 2 0, WPrint StatusBarWin bar]))
       (\<lambda>ops. Inr (ops @ [WMove StatusBarWin 0 0, WHLine StatusBarWin max_x, WRefresh StatusBarWin]))"

definition top_ops :: "int \<Rightarrow> string option \<Rightarrow> Player \<Rightarrow> UpdateTopBar \<Rightarrow> DrawOp list res" where
  "top_ops max_x media_title p u =
     res_bind
       (case u of
          TopClear \<Rightarrow> Inr [WClear TopBarWin]
        | Metadata \<Rightarrow>
            (case metadata p of
               None \<Rightarrow> Inl UnwrapNone
             | Some m \<Rightarrow>
                 Inr ([WMove TopBarWin 0 0, WPrint TopBarWin ''Title:  ''] @
                      (if map_of m ''title'' \<noteq> None
                       then (case meta_string m ''title'' of Some t \<Rightarrow> [WPrint TopBarWin t] | None \<Rightarrow> [])
                       else [WPrint TopBarWin (case media_title of Some t \<Rightarrow> t | None \<Rightarrow> ''<empty>'')]) @
                      [WMove TopBarWin 1 0, WPrint TopBarWin ''Artist: ''] @
                      (if map_of m ''artist'' \<noteq> None
                       then (case meta_string m ''artist'' of Some a \<Rightarrow> [WPrint TopBarWin a] | None \<Rightarrow> [])
                       else [WPrint TopBarWin ''<empty>''])))
        | Speed \<Rightarrow>
            (let s = ''  Speed: '' @ fixed2 (speed p) @ '' '' in
             Inr [WMove TopBarWin 0 (max_x - int (length s)), WPrint TopBarWin s])
        | Volume \<Rightarrow>
            (let s = ''  Volume: '' @ show_nat (nat (f_as_int 0 (2 ^ 64 - 1) (volume p))) @ ''%%'' in
             Inr [WMove TopBarWin 1 (max_x - int (length s)), WPrint TopBarWin s]))
       (\<lambda>ops. Inr (ops @ [WMove TopBarWin 2 0, WHLine TopBarWin max_x, WRefresh TopBarWin]))"

text \<open>One request: the canvas after it and the calls made. A playlist request
  re-reads top and selection, corrects them (\<open>repaint_canvas\<close>) and draws the rows.\<close>

definition render_request ::
  "int \<Rightarrow> nat \<Rightarrow> string option \<Rightarrow> Player \<Rightarrow> PlaylistCanvas \<Rightarrow> Repaint
   \<Rightarrow> (PlaylistCanvas \<times> DrawOp list) res" where
  "render_request max_x H media_title p c r =
     (case r of
        RPlaylist clear scroll \<Rightarrow>
          res_bind (repaint_canvas H (playlist p) scroll c) (\<lambda>c'.
          res_bind (print_playlist max_x (playlist p) c') (\<lambda>ops.
            Inr (c', (if clear then [WClear PlaylistWin] else []) @ WMove PlaylistWin 0 0 # ops)))
      | StatusBar u \<Rightarrow> res_bind (status_ops max_x p u) (\<lambda>ops. Inr (c, ops))
      | TopBar u \<Rightarrow> res_bind (top_ops max_x media_title p u) (\<lambda>ops. Inr (c, ops)))"

text \<open>The rows of a playlist all fit the pane when no row string is longer than
  \<open>max_x\<close> characters: then \<open>print_playlist\<close> never truncates.\<close>

definition rows_fit :: "int \<Rightarrow> Playlist \<Rightarrow> bool" where
  "rows_fit max_x pl \<longleftrightarrow> list_all (\<lambda>e. int (char_count (row_string e)) \<le> max_x) pl"

section \<open>Lemmas\<close>

lemma ascii_char_count:
  assumes "\<forall>b \<in> set s. of_char b < (128::nat)"
  shows "char_count s = length s"
proof -
  have "\<forall>b \<in> set s. \<not> is_cont_byte b" using assms by (auto simp: is_cont_byte_def)
  then show ?thesis by (simp add: char_count_def)
qed

lemma show_nat_ascii: "\<forall>b \<in> set (show_nat n). of_char b < (128::nat)"
proof (induction n rule: show_nat.induct)
  case (1 n)
  have d: "\<And>d. d < 10 \<Longrightarrow> of_char (digit_char d) < (128::nat)"
    by (auto simp: digit_char_def less_Suc_eq numeral_eq_Suc)
  show ?case
  proof (cases "n < 10")
    case True
    then show ?thesis using d by simp
  next
    case False
    then show ?thesis using "1.IH" d by (simp add: show_nat_step)
  qed
qed

lemma top_ops_metadata_None:
  assumes "metadata p = None"
  shows "top_ops max_x mt p Metadata = Inl UnwrapNone"
  using assms by (simp add: top_ops_def)

lemma row_ops_fit:
  assumes "int (char_count (row_string e)) \<le> max_x"
  shows "\<exists>ops. row_ops max_x sel e i = Inr ops"
  using assms by (simp add: row_ops_def row_text_def Let_def)

lemma rows_loop_fit:
  assumes "rows_fit max_x pl"
  shows "\<exists>ops. rows_loop max_x pl sel y is = Inr ops"
proof (induction "is" arbitrary: y)
  case (Cons i "is")
  obtain rest where rest: "rows_loop max_x pl sel (y + 1) is = Inr rest"
    using Cons.IH by blast
  have "\<exists>ops. (if i < length pl then row_ops max_x sel (pl ! i) i else Inr []) = Inr ops"
    using assms row_ops_fit by (auto simp: rows_fit_def list_all_length)
  then obtain ops where "(if i < length pl then row_ops max_x sel (pl ! i) i else Inr []) = Inr ops" ..
  with rest show ?case by simp
qed simp

text \<open>When the rows fit, printing a canvas whose bounds are ordered never panics.\<close>

lemma print_playlist_fit:
  assumes "rows_fit max_x pl" and "top_line c \<le> bottom_line c"
  shows "\<exists>ops. print_playlist max_x pl c = Inr ops"
proof -
  obtain rs where "rows_loop max_x pl (selected_line c) 0 [top_line c..<bottom_line c] = Inr rs"
    using rows_loop_fit[OF assms(1)] by blast
  with assms(2) show ?thesis by (simp add: print_playlist_def)
qed

section \<open>Properties of the render loop\<close>

text \<open>C25. A row of a non-current entry whose name is ASCII is exactly as wide as the
  pane: longer names are cut and end in \<open>...\<close>, shorter ones are padded with blanks
  (spec 4.6).\<close>

theorem row_text_ascii_width:
  assumes "\<not> current e" and "\<forall>b \<in> set (if title e = [] then filename e else title e). of_char b < (128::nat)"
    and "3 \<le> max_x"
  shows "\<exists>out. row_text max_x e = Inr out \<and> length out = nat max_x \<and> char_count out = nat max_x"
proof -
  let ?s = "row_string e"
  have m: "\<forall>b \<in> set (row_marker e). of_char b < (128::nat)" using assms(1) by (simp add: row_marker_def)
  have a: "\<forall>b \<in> set ?s. of_char b < (128::nat)"
    using show_nat_ascii [of "entry_id e"] m assms(2) unfolding row_string_def
    by (cases "title e = []") auto
  then have cc: "char_count ?s = length ?s" by (rule ascii_char_count)
  show ?thesis
  proof (cases "int (length ?s) > max_x")
    case True
    let ?n = "nat max_x - 3"
    have n: "?n < length ?s" using True assms(3) by linarith
    then have "of_char (?s ! ?n) < (128::nat)" using a by simp
    then have "\<not> is_cont_byte (?s ! ?n)" by (simp add: is_cont_byte_def)
    then have "str_truncate ?n ?s = Inr (take ?n ?s)"
      using n by (simp add: str_truncate_def is_char_boundary_def)
    moreover have "\<forall>b \<in> set (take ?n ?s @ ''...''). of_char b < (128::nat)"
      using a by (auto dest: in_set_takeD)
    ultimately show ?thesis using True assms(3) n cc
      by (simp add: row_text_def Let_def ascii_char_count)
  next
    case False
    have "\<forall>b \<in> set (?s @ replicate (nat max_x - length ?s) CHR '' ''). of_char b < (128::nat)"
      using a by auto
    then show ?thesis using False assms(3) cc by (auto simp: row_text_def Let_def ascii_char_count)
  qed
qed

theorem row_text_ascii_width_witness:
  "\<exists>out. row_text 8 \<lparr>entry_id = 3, filename = ''long_file_name.ogg'', title = [], current = False\<rparr> = Inr out
        \<and> length out = nat 8 \<and> char_count out = nat 8"
  by (rule row_text_ascii_width) simp_all

text \<open>C26. \<open>print_playlist\<close> measures a row in characters but cuts it with
  \<open>String::truncate\<close>, which takes a byte index: when the row is wider than the pane
  and the byte at \<open>max_x - 3\<close> lies inside a multi-byte character (any non-ASCII
  title, or the play glyph), the render loop panics. For instance a 10-column pane and
  the title of five \<open>\<acute>e\<close> (bytes C3 A9) cut at byte 7.\<close>

theorem row_text_panics:
  assumes "max_x < int (char_count (row_string e))" and "4 \<le> max_x"
    and "is_cont_byte (row_string e ! (nat max_x - 3))"
  shows "row_text max_x e = Inl NotCharBoundary"
proof -
  have "char_count (row_string e) \<le> length (row_string e)" by (simp add: char_count_def)
  then have "nat max_x - 3 < length (row_string e)" using assms(1,2) by linarith
  then show ?thesis using assms by (simp add: row_text_def Let_def str_truncate_def is_char_boundary_def)
qed

theorem row_text_panics_witness:
  "row_text 10 \<lparr>entry_id = 0, filename = ''f.ogg'', title = [char_of (195::nat), char_of (169::nat), char_of (195::nat), char_of (169::nat), char_of (195::nat), char_of (169::nat), char_of (195::nat), char_of (169::nat), char_of (195::nat), char_of (169::nat)], current = False\<rparr> = Inl NotCharBoundary"
  using row_text_panics [of 10 "\<lparr>entry_id = 0, filename = ''f.ogg'', title = [char_of (195::nat), char_of (169::nat), char_of (195::nat), char_of (169::nat), char_of (195::nat), char_of (169::nat), char_of (195::nat), char_of (169::nat), char_of (195::nat), char_of (169::nat)], current = False\<rparr>"]
  by (simp add: row_string_def row_marker_def char_count_def is_cont_byte_def digit_char_def)

text \<open>C27. On an empty playlist a playlist request never panics: the selection is reset
  to row 0 and the pane shows the placeholder "Playlist is empty" (spec 8).\<close>

theorem empty_playlist_render:
  assumes "playlist p = []" and "selected_line c < 2 ^ 31"
  shows "\<exists>c' ops. render_request max_x H mt p c (RPlaylist cl sc) = Inr (c', ops)
           \<and> selected_line c' = 0 \<and> WPrint PlaylistWin ''Playlist is empty'' \<in> set ops"
  using assms by (simp add: render_request_def repaint_canvas_def print_playlist_def Let_def)

theorem empty_playlist_render_witness:
  "\<exists>c' ops. render_request 80 10 None \<lparr>duration = Fin 0, is_muted = False, is_paused = False, metadata = None, playlist = [], search_results = ([], 0), speed = Fin 1, time_pos = Fin 0, volume = Fin 50\<rparr> \<lparr>top_line = 4, bottom_line = 9, selected_line = 7\<rparr>
      (RPlaylist False False) = Inr (c', ops)
    \<and> selected_line c' = 0 \<and> WPrint PlaylistWin ''Playlist is empty'' \<in> set ops"
  by (rule empty_playlist_render) simp_all

end
