(* ===== verification/System.thy ===== *)
theory System
  imports Render
begin

text \<open>
  The whole program after start-up (lines 130--857): the player store and the canvas,
  each behind its own \<open>Mutex\<close>, the \<open>mpsc\<close> channel of repaint requests, and three
  threads that run in any interleaving: the property listener (one event per step),
  the input listener (one key per step) and the render loop of the main thread (one
  request per step). A step of a thread is atomic here: the handler of one key, one
  event or one request runs without interference.
  \<^item> A panic in a spawned thread ends that thread only (\<open>listener_alive\<close>,
    \<open>input_alive\<close>); a panic of the render loop ends the process (\<open>Crashed\<close>); \<open>q\<close>
    exits it (\<open>Exited\<close>).
  \<^item> A panic while a lock guard is held poisons that mutex; from then on every
    \<open>lock().unwrap()\<close> of it panics (\<open>PoisonedLock\<close>). Which arm holds which guard
    when it can panic is read off the code: the guards bound by \<open>let ref\<close> live to the
    end of the arm (player lock of KEY_DOWN, KEY_NPAGE, KEY_N, KEY_O and of a search
    commit), the canvas guard bound inside the centering blocks lives during
    \<open>try_center_id\<close> (KEY_N, KEY_O, KEY_Z and a search commit).
  \<^item> \<open>sent\<close> and \<open>drawn\<close> are ghost logs of the requests sent and consumed.
\<close>

section \<open>State and actions\<close>

record SysState =
  store :: Player
  view :: PlaylistCanvas
  queue :: "Repaint list"
  prompt_mode :: "string option"
  listener_alive :: bool
  input_alive :: bool
  player_poisoned :: bool
  canvas_poisoned :: bool
  sent :: "Repaint list"
  drawn :: "Repaint list"

datatype Sys = Running SysState | Crashed rust_error | Exited

datatype Action =
    Listen Event                \<comment> \<open>the property listener handles one event\<close>
  | Key MpvEnv int              \<comment> \<open>the input listener handles one key, mpv answering as given\<close>
  | Draw "string option"        \<comment> \<open>the render loop handles the oldest request\<close>

section \<open>Which locks each step takes\<close>

text \<open>A property event locks the player store exactly when its arm acts, and every
  acting arm sends a request.\<close>

definition event_locks_player :: "Player \<Rightarrow> Event \<Rightarrow> bool" where
  "event_locks_player p e =
     (case e of PropertyChange i d \<Rightarrow> snd (property_change p i d) \<noteq> [] | _ \<Rightarrow> False)"

text \<open>A key locks the player store when its arm binds it (KEY_DOWN, KEY_NPAGE, KEY_N,
  KEY_O, KEY_U), and the search prompt's Enter always does: it stores the results
  under the guard (line 613) whatever the pattern.\<close>

definition key_locks_player :: "string option \<Rightarrow> Player \<Rightarrow> int \<Rightarrow> bool" where
  "key_locks_player m p ch =
     (case m of
        None \<Rightarrow> ch \<in> {NC_KEY_DOWN, NC_KEY_NPAGE, KEY_N, KEY_O, KEY_U}
      | Some s \<Rightarrow> ch = KEY_ENTER)"

definition key_locks_canvas :: "string option \<Rightarrow> Player \<Rightarrow> int \<Rightarrow> bool" where
  "key_locks_canvas m p ch =
     (case m of
        None \<Rightarrow> ch \<in> {NC_KEY_UP, NC_KEY_DOWN, NC_KEY_PPAGE, NC_KEY_NPAGE, KEY_ENTER, KEY_N, KEY_O,
                     KEY_R, KEY_Z}
      | Some s \<Rightarrow> ch = KEY_ENTER \<and> s \<noteq> [] \<and> search_playlist (playlist p) s \<noteq> [])"

text \<open>The guards held when the handler of a key panics with a given error: the player
  guard of the arms above, and the canvas guard during centering (a \<open>SubOverflow\<close>
  of KEY_N, KEY_O, KEY_Z or of a search commit).\<close>

definition key_poisons_player :: "string option \<Rightarrow> int \<Rightarrow> bool" where
  "key_poisons_player m ch =
     (case m of
        None \<Rightarrow> ch \<in> {NC_KEY_DOWN, NC_KEY_NPAGE, KEY_N, KEY_O}
      | Some s \<Rightarrow> ch = KEY_ENTER)"

definition key_poisons_canvas :: "string option \<Rightarrow> int \<Rightarrow> rust_error \<Rightarrow> bool" where
  "key_poisons_canvas m ch err =
     (err = SubOverflow \<and>
      (case m of None \<Rightarrow> ch \<in> {KEY_N, KEY_O, KEY_Z} | Some s \<Rightarrow> ch = KEY_ENTER))"

definition request_locks_player :: "Repaint \<Rightarrow> bool" where
  "request_locks_player r =
     (case r of
        RPlaylist _ _ \<Rightarrow> True
      | StatusBar u \<Rightarrow> u = Time
      | TopBar u \<Rightarrow> u \<noteq> TopClear)"

definition request_locks_canvas :: "Repaint \<Rightarrow> bool" where
  "request_locks_canvas r = (case r of RPlaylist _ _ \<Rightarrow> True | _ \<Rightarrow> False)"

section \<open>One step of one thread\<close>

fun sys_exec :: "nat \<Rightarrow> int \<Rightarrow> Sys \<Rightarrow> Action \<Rightarrow> Sys" where
  "sys_exec H max_x (Running s) (Listen e) =
     (if \<not> listener_alive s then Running s
      else if player_poisoned s \<and> event_locks_player (store s) e
      then Running (s\<lparr>listener_alive := False\<rparr>)
      else
        (case listener_step (store s) e of
           Inr (p', rs) \<Rightarrow> Running (s\<lparr>store := p', queue := queue s @ rs, sent := sent s @ rs\<rparr>)
         | Inl err \<Rightarrow> Running (s\<lparr>listener_alive := False\<rparr>)))"
| "sys_exec H max_x (Running s) (Key env ch) =
     (if \<not> input_alive s then Running s
      else if (player_poisoned s \<and> key_locks_player (prompt_mode s) (store s) ch)
            \<or> (canvas_poisoned s \<and> key_locks_canvas (prompt_mode s) (store s) ch)
      then Running (s\<lparr>input_alive := False\<rparr>)
      else
        (case input_key H env ch \<lparr>prompt = prompt_mode s, player = store s, canvas = view s\<rparr> of
           Inr (Continue st rs cmds) \<Rightarrow>
             Running (s\<lparr>prompt_mode := prompt st, store := player st, view := canvas st,
                        queue := queue s @ rs, sent := sent s @ rs\<rparr>)
         | Inr (Quit cmds) \<Rightarrow> Exited
         | Inl err \<Rightarrow>
             Running (s\<lparr>input_alive := False,
                        player_poisoned := (player_poisoned s \<or> key_poisons_player (prompt_mode s) ch),
                        canvas_poisoned := (canvas_poisoned s \<or> key_poisons_canvas (prompt_mode s) ch err)\<rparr>)))"
| "sys_exec H max_x (Running s) (Draw mt) =
     (case queue s of
        [] \<Rightarrow> Running s
      | r # rest \<Rightarrow>
          (if (player_poisoned s \<and> request_locks_player r) \<or> (canvas_poisoned s \<and> request_locks_canvas r)
           then Crashed PoisonedLock
           else
             (case render_request max_x H mt (store s) (view s) r of
                Inr (c', ops) \<Rightarrow> Running (s\<lparr>view := c', queue := rest, drawn := drawn s @ [r]\<rparr>)
              | Inl err \<Rightarrow> Crashed err)))"
| "sys_exec H max_x (Crashed e) a = Crashed e"
| "sys_exec H max_x Exited a = Exited"

fun sys_run :: "nat \<Rightarrow> int \<Rightarrow> Sys \<Rightarrow> Action list \<Rightarrow> Sys" where
  "sys_run H max_x s [] = s"
| "sys_run H max_x s (a # as) = sys_run H max_x (sys_exec H max_x s a) as"

section \<open>Start-up (lines 130--148, 305--310, 684--688)\<close>

text \<open>The store as \<open>main\<close> builds it from mpv's answers, the canvas with
  \<open>bottom_line = max_y\<close>, and the first playlist request in the channel.\<close>

definition initial_state :: "Player \<Rightarrow> nat \<Rightarrow> SysState" where
  "initial_state p max_y =
     \<lparr>store = p, view = \<lparr>top_line = 0, bottom_line = max_y, selected_line = 0\<rparr>,
      queue = [redraw_list], prompt_mode = None, listener_alive = True, input_alive = True,
      player_poisoned = False, canvas_poisoned = False, sent = [redraw_list], drawn = []\<rparr>"

inductive reachable :: "nat \<Rightarrow> int \<Rightarrow> Sys \<Rightarrow> bool" for H max_x where
  init: "reachable H max_x (Running (initial_state p max_y))"
| step: "reachable H max_x s \<Longrightarrow> reachable H max_x (sys_exec H max_x s a)"

section \<open>Schedules of the three threads\<close>

text \<open>The key codes of the four navigation arms, and the condition under which the
  input thread handles a browse-mode key: it is alive, no search prompt is open and
  neither mutex is poisoned.\<close>

definition nav_code :: "NavKey \<Rightarrow> int" where
  "nav_code k = (case k of KeyUp \<Rightarrow> NC_KEY_UP | KeyDown \<Rightarrow> NC_KEY_DOWN
                   | KeyPPage \<Rightarrow> NC_KEY_PPAGE | KeyNPage \<Rightarrow> NC_KEY_NPAGE)"

definition browsing :: "SysState \<Rightarrow> bool" where
  "browsing s \<longleftrightarrow> input_alive s \<and> prompt_mode s = None \<and> \<not> player_poisoned s \<and> \<not> canvas_poisoned s"

text \<open>The channel keeps its order: what the render loop has drawn followed by what
  is still queued is exactly what the two listeners have sent.\<close>

definition requests_fifo :: "Sys \<Rightarrow> bool" where
  "requests_fifo s = (case s of Running t \<Rightarrow> drawn t @ queue t = sent t | _ \<Rightarrow> True)"

text \<open>Sample configurations: a player with no metadata and an empty playlist as
  \<open>main\<close> builds it before the first events, a ten-entry playlist whose rows
  are short, and an mpv that accepts every command.\<close>

definition idle_player :: Player where
  "idle_player = \<lparr>duration = Fin 0, is_muted = False, is_paused = False, metadata = None,
     playlist = [], search_results = ([], 0), speed = Fin 1, time_pos = Fin 0, volume = Fin 50\<rparr>"

definition ten_entries :: Playlist where
  "ten_entries = replicate 10 \<lparr>entry_id = 0, filename = ''f'', title = [], current = False\<rparr>"

definition accepting_mpv :: MpvEnv where
  "accepting_mpv = \<lparr>cmd_result = \<lambda>_. None, mpv_playlist = []\<rparr>"

section \<open>Lemmas on single steps\<close>

text \<open>A navigation key in browse mode: the canvas moves as \<open>navigate\<close> says and a
  playlist request is sent, or the arm panics and the input thread dies, poisoning the
  player lock when it held it.\<close>

lemma sys_exec_nav:
  assumes "browsing s"
  shows "sys_exec H max_x (Running s) (Key env (nav_code k)) =
           (case navigate H (playlist (store s)) k (view s) of
              Inr c' \<Rightarrow> Running (s\<lparr>view := c', queue := queue s @ [redraw_list],
                                   sent := sent s @ [redraw_list]\<rparr>)
            | Inl e \<Rightarrow> Running (s\<lparr>input_alive := False,
                                  player_poisoned := key_poisons_player None (nav_code k),
                                  canvas_poisoned := key_poisons_canvas None (nav_code k) e\<rparr>))"
  using assms by (cases k) (auto simp: browsing_def nav_code_def input_key_def browse_key_def key_codes
      key_locks_player_def key_locks_canvas_def split: sum.splits)

text \<open>The render loop on a playlist request, when the rows fit the pane: the canvas
  is corrected by \<open>repaint_canvas\<close> and the request leaves the channel.\<close>

lemma sys_exec_draw_list:
  assumes "queue s \<noteq> []" and "request_locks_canvas (hd (queue s))"
    and "\<not> player_poisoned s" and "\<not> canvas_poisoned s"
    and "rows_fit max_x (playlist (store s))"
  shows "sys_exec H max_x (Running s) (Draw mt) =
           (case repaint_canvas H (playlist (store s)) (scroll_to_beginning (hd (queue s))) (view s) of
              Inr c' \<Rightarrow> Running (s\<lparr>view := c', queue := tl (queue s), drawn := drawn s @ [hd (queue s)]\<rparr>)
            | Inl e \<Rightarrow> Crashed e)"
proof -
  obtain cl sc rest where q: "queue s = RPlaylist cl sc # rest"
    using assms(1,2) by (cases "queue s") (auto simp: request_locks_canvas_def split: Repaint.splits)
  show ?thesis
  proof (cases "repaint_canvas H (playlist (store s)) sc (view s)")
    case (Inr c')
    then have "top_line c' \<le> bottom_line c'"
      by (auto simp: repaint_canvas_def Let_def res_bind_eq_Inr)
    then obtain ops where "print_playlist max_x (playlist (store s)) c' = Inr ops"
      using print_playlist_fit[OF assms(5)] by blast
    with Inr q assms(3,4) show ?thesis by (simp add: render_request_def request_locks_player_def)
  qed (use q assms(3,4) in \<open>simp add: render_request_def request_locks_player_def\<close>)
qed

text \<open>A draw step either crashes the process or removes the oldest request.\<close>

lemma sys_exec_draw_cases:
  assumes "queue s = r # rest"
  shows "(\<exists>e. sys_exec H max_x (Running s) (Draw mt) = Crashed e)
         \<or> (\<exists>c'. sys_exec H max_x (Running s) (Draw mt)
                  = Running (s\<lparr>view := c', queue := rest, drawn := drawn s @ [r]\<rparr>))"
  using assms by (auto split: sum.splits)

lemma sys_exec_requests_fifo: "requests_fifo s \<Longrightarrow> requests_fifo (sys_exec H max_x s a)"
proof (cases s)
  case (Running t)
  assume f: "requests_fifo s"
  show ?thesis
  proof (cases a)
    case (Listen e)
    with Running f show ?thesis
      by (auto simp: requests_fifo_def split: sum.splits prod.splits)
  next
    case (Key env ch)
    with Running f show ?thesis
      by (auto simp: requests_fifo_def split: sum.splits prod.splits KeyOutcome.splits)
  next
    case (Draw mt)
    with Running f show ?thesis
      by (auto simp: requests_fifo_def split: list.splits sum.splits prod.splits)
  qed
qed (simp_all add: requests_fifo_def)

lemma reachable_run: "reachable H max_x s \<Longrightarrow> reachable H max_x (sys_run H max_x s as)"
  by (induction as arbitrary: s) (auto intro: reachable.step)

lemma sys_run_append: "sys_run H max_x s (as @ bs) = sys_run H max_x (sys_run H max_x s as) bs"
  by (induction as arbitrary: s) simp_all

lemma sys_run_Crashed [simp]: "sys_run H max_x (Crashed e) as = Crashed e"
  by (induction as) simp_all

lemma length_ten_entries: "length ten_entries = 10"
  by (simp add: ten_entries_def)

lemma rows_fit_ten_entries: "rows_fit 80 ten_entries"
  by (simp add: rows_fit_def list_all_iff ten_entries_def row_string_def row_marker_def
      char_count_def is_cont_byte_def)

section \<open>Properties of the whole program\<close>

text \<open>C28. In every reachable state the render loop draws the repaint requests in the
  order the listener threads sent them, none lost and none twice.\<close>

theorem reachable_requests_fifo:
  assumes "reachable H max_x s"
  shows "requests_fifo s"
  using assms
proof (induction rule: reachable.induct)
  case (init p max_y)
  show ?case by (simp add: requests_fifo_def initial_state_def)
next
  case (step s a)
  from step.IH show ?case by (rule sys_exec_requests_fifo)
qed

theorem reachable_requests_fifo_witness:
  "requests_fifo (Running (initial_state idle_player 16))"
  by (rule reachable_requests_fifo [OF reachable.init [of 10 80 idle_player 16]])

text \<open>C29. The metadata race: when mpv reports metadata and then its disappearance
  before the render loop has drawn the first top-bar request, the render loop reads
  \<open>player.metadata\<close> after the listener has reset it to \<open>None\<close>, and the
  \<open>unwrap()\<close> of line 801 panics in the main thread: the whole program crashes.\<close>

theorem metadata_race_crash: "reachable 10 80 (Crashed UnwrapNone)"
proof -
  have "sys_run 10 80 (Running (initial_state idle_player 16))
          [Listen (PropertyChange 5 (MpvHashMap [])), Listen (PropertyChange 5 MpvNull),
           Draw None, Draw None]
        = Crashed UnwrapNone"
    by (simp add: initial_state_def idle_player_def property_change_def obs_ids
        event_locks_player_def request_locks_player_def request_locks_canvas_def
        render_request_def repaint_canvas_def print_playlist_def top_ops_def Let_def)
  then show ?thesis
    using reachable_run [OF reachable.init, of 10 80 idle_player 16] by metis
qed

text \<open>C30. The selection can leave the visible rows. At start-up the canvas has
  \<open>bottom_line = max_y\<close> (line 307), larger than the pane height. Keys pressed
  before the render loop has corrected it move the selection down without scrolling,
  and the correction then leaves it below the last shown row, in a quiescent state (no
  request pending) where the selected row is not on the screen.\<close>

theorem startup_selection_escapes:
  "\<exists>t. reachable 3 80 (Running t) \<and> queue t = [] \<and> browsing t
       \<and> \<not> view_ok 3 (length (playlist (store t))) (view t)"
proof -
  let ?s = "initial_state (idle_player\<lparr>playlist := ten_entries\<rparr>) 9"
  let ?t = "?s\<lparr>view := \<lparr>top_line = 0, bottom_line = 3, selected_line = 3\<rparr>, queue := [],
              sent := [redraw_list, redraw_list, redraw_list, redraw_list],
              drawn := [redraw_list, redraw_list, redraw_list, redraw_list]\<rparr>"
  have run: "sys_run 3 80 (Running ?s)
      [Key accepting_mpv (nav_code KeyDown), Key accepting_mpv (nav_code KeyDown),
       Key accepting_mpv (nav_code KeyDown), Draw None, Draw None, Draw None, Draw None]
      = Running ?t"
    by (simp add: sys_exec_nav sys_exec_draw_list browsing_def initial_state_def
        rows_fit_ten_entries request_locks_canvas_def key_down_def repaint_canvas_def
        length_ten_entries Let_def del: sys_exec.simps)
  have "reachable 3 80 (Running ?t)"
    using reachable_run [OF reachable.init, of 3 80 _ 9] run by metis
  moreover have "queue ?t = [] \<and> browsing ?t \<and> \<not> view_ok 3 (length (playlist (store ?t))) (view ?t)"
    by (simp add: browsing_def initial_state_def view_ok_def length_ten_entries)
  ultimately show ?thesis by blast
qed

text \<open>C31. A panic of the input thread takes the program down: on an empty playlist
  KEY_DOWN underflows \<open>len() - 1\<close> (line 352) while it holds the player guard, the
  mutex is poisoned, and the render loop's next \<open>lock().unwrap()\<close> panics.\<close>

theorem input_panic_crashes_render: "reachable 3 80 (Crashed PoisonedLock)"
proof -
  have "sys_run 3 80 (Running (initial_state idle_player 9)) [Key accepting_mpv NC_KEY_DOWN, Draw None]
        = Crashed PoisonedLock"
    by (simp add: initial_state_def idle_player_def accepting_mpv_def input_key_def
        browse_key_def key_codes key_locks_player_def key_locks_canvas_def key_down_def
        key_poisons_player_def key_poisons_canvas_def request_locks_player_def)
  then show ?thesis
    using reachable_run [OF reachable.init, of 3 80 idle_player 9] by metis
qed

text \<open>C32. The render loop consumes every request: as many draw steps as there are
  queued requests either empty the channel or end in a crash of the process; no
  request is left behind while the program keeps running.\<close>

theorem render_drains_queue:
  "(\<exists>e. sys_run H max_x (Running s) (replicate (length (queue s)) (Draw mt)) = Crashed e)
   \<or> (\<exists>t. sys_run H max_x (Running s) (replicate (length (queue s)) (Draw mt)) = Running t
          \<and> queue t = [] \<and> drawn t = drawn s @ queue s)"
proof (induction "queue s" arbitrary: s)
  case Nil
  then show ?case by simp
next
  case (Cons r rest)
  from sys_exec_draw_cases [OF Cons.hyps(2)[symmetric], of H max_x mt]
  show ?case
  proof
    assume "\<exists>e. sys_exec H max_x (Running s) (Draw mt) = Crashed e"
    then show ?thesis using Cons.hyps(2)[symmetric] by (auto simp del: sys_exec.simps)
  next
    assume "\<exists>c'. sys_exec H max_x (Running s) (Draw mt)
                  = Running (s\<lparr>view := c', queue := rest, drawn := drawn s @ [r]\<rparr>)"
    then obtain c' where step: "sys_exec H max_x (Running s) (Draw mt)
                  = Running (s\<lparr>view := c', queue := rest, drawn := drawn s @ [r]\<rparr>)" ..
    from Cons.hyps(1) [of "s\<lparr>view := c', queue := rest, drawn := drawn s @ [r]\<rparr>"]
    show ?thesis using step Cons.hyps(2)[symmetric] by (auto simp del: sys_exec.simps)
  qed
qed

end
