(* ===== verification/Startup.thy ===== *)
theory Startup
  imports System
begin

text \<open>
  Start-up of \<open>main\<close> (lines 106--148 and 305--310): the three panes are laid out
  from the terminal size, mpv is queried for the initial store, and the canvas is
  created. mpv's answers are an environment \<open>MpvStartup\<close> (\<open>None\<close> for an
  \<open>Err\<close>). Querying the metadata may fail (the store then holds \<open>None\<close>); every other
  query is unwrapped and its failure panics before any thread is spawned. A failed
  connection ends the program after restoring the terminal (the \<open>Err\<close> arm, lines
  859--862). The property listener then connects again and registers its observed
  properties in its own thread (lines 150--173); a failure there ends that thread only
  (\<open>start_system\<close>).
\<close>

section \<open>Pane layout (lines 113--128)\<close>

definition height_top_bar :: int where "height_top_bar = 3"

definition height_status_bar :: int where "height_status_bar = 3"

definition height_playlist_win :: "int \<Rightarrow> int" where
  "height_playlist_win max_y = max_y - height_status_bar - height_top_bar"

text \<open>The three \<open>newwin(rows, cols, y, x)\<close> calls: top bar, playlist, status bar.\<close>

definition panes :: "int \<Rightarrow> int \<Rightarrow> (int \<times> int \<times> int \<times> int) list" where
  "panes max_y max_x =
     [(height_top_bar, max_x, 0, 0),
      (height_playlist_win max_y, max_x, height_status_bar, 0),
      (height_status_bar, max_x, height_top_bar + height_playlist_win max_y, 0)]"

section \<open>The initial store (lines 133--147)\<close>

record MpvStartup =
  q_metadata :: "(string \<times> MpvDataType) list option"
  q_mute :: "bool option"
  q_pause :: "bool option"
  q_playlist :: "Playlist option"
  q_speed :: "f64 option"
  q_volume :: "f64 option"

definition unwrap_query :: "'a option \<Rightarrow> 'a res" where
  "unwrap_query q = (case q of Some v \<Rightarrow> Inr v | None \<Rightarrow> Inl CommandFailed)"

definition startup_player :: "MpvStartup \<Rightarrow> Player res" where
  "startup_player env =
     res_bind (unwrap_query (q_mute env)) (\<lambda>muted.
     res_bind (unwrap_query (q_pause env)) (\<lambda>paused.
     res_bind (unwrap_query (q_playlist env)) (\<lambda>pl.
     res_bind (unwrap_query (q_speed env)) (\<lambda>sp.
     res_bind (unwrap_query (q_volume env)) (\<lambda>vol.
       Inr \<lparr>duration = Fin 0, is_muted = muted, is_paused = paused, metadata = q_metadata env,
            playlist = pl, search_results = ([], 0), speed = sp, time_pos = Fin 0,
            volume = vol\<rparr>)))))"

section \<open>Start-up (lines 130--148, 305--310, 859--862)\<close>

text \<open>The system as the three threads find it, or \<open>Exited\<close> when the socket cannot
  be reached; \<open>max_y\<close> rows as \<open>getmaxyx\<close> reports them.\<close>

definition start :: "bool \<Rightarrow> MpvStartup \<Rightarrow> int \<Rightarrow> Sys res" where
  "start conn env max_y =
     (if conn then
        res_bind (startup_player env) (\<lambda>p. Inr (Running (initial_state p (nat max_y))))
      else Inr Exited)"

section \<open>The property listener's set-up (lines 150--173)\<close>

text \<open>The listener thread opens its own connection to mpv (line 157) and registers
  eight observed properties (lines 158--173), unwrapping each answer: a refused
  connection or registration panics the listener thread alone, after it is spawned.
  mpv's answers are whether the connection succeeds and which property names it
  accepts.\<close>

definition observed_properties :: "(nat \<times> string) list" where
  "observed_properties =
     [(OBS_ID_DURATION, ''duration''), (OBS_ID_METADATA, ''metadata''), (OBS_ID_MUTE, ''mute''),
      (OBS_ID_PLAYLIST, ''playlist''), (OBS_ID_PAUSE, ''pause''), (OBS_ID_SPEED, ''speed''),
      (OBS_ID_TIME_POS, ''time-pos''), (OBS_ID_VOLUME, ''volume'')]"

fun observe_all :: "(string \<Rightarrow> bool) \<Rightarrow> (nat \<times> string) list \<Rightarrow> unit res" where
  "observe_all accepts [] = Inr ()"
| "observe_all accepts ((i, name) # ps) =
     (if accepts name then observe_all accepts ps else Inl CommandFailed)"

definition observer_setup :: "bool \<Rightarrow> (string \<Rightarrow> bool) \<Rightarrow> unit res" where
  "observer_setup conn accepts =
     (if conn then observe_all accepts observed_properties else Inl CommandFailed)"

text \<open>Start-up followed by the listener's set-up in the spawned thread: the system
  runs on with the listener dead when the set-up panics.\<close>

definition start_system :: "bool \<Rightarrow> MpvStartup \<Rightarrow> bool \<Rightarrow> (string \<Rightarrow> bool) \<Rightarrow> int \<Rightarrow> Sys res" where
  "start_system conn env obs accepts max_y =
     res_bind (start conn env max_y) (\<lambda>sys.
       case sys of
         Running s \<Rightarrow>
           Inr (Running (s\<lparr>listener_alive := (case observer_setup obs accepts of Inr u \<Rightarrow> True | Inl e \<Rightarrow> False)\<rparr>))
       | _ \<Rightarrow> Inr sys)"

lemma observe_all_eq:
  "observe_all accepts ps = (if \<forall>(i, n)\<in>set ps. accepts n then Inr () else Inl CommandFailed)"
  by (induction accepts ps rule: observe_all.induct) auto

section \<open>Properties of start-up\<close>

text \<open>The three panes tile the screen: on a terminal of at least six rows they
  are stacked without gap or overlap from row 0 to row \<open>max_y\<close>, each \<open>max_x\<close>
  columns wide, and the playlist pane has \<open>max_y - 6\<close> rows.\<close>

theorem panes_tile_screen:
  assumes "6 \<le> max_y"
  shows "map (\<lambda>(h, w, y, x). (y, y + h)) (panes max_y max_x) = [(0, 3), (3, max_y - 3), (max_y - 3, max_y)]
         \<and> (\<forall>(h, w, y, x) \<in> set (panes max_y max_x). w = max_x \<and> x = 0 \<and> 0 \<le> h)
         \<and> height_playlist_win max_y = max_y - 6"
  using assms
  by (simp add: panes_def height_playlist_win_def height_top_bar_def height_status_bar_def)

theorem panes_tile_screen_witness:
  "map (\<lambda>(h, w, y, x). (y, y + h)) (panes 24 80) = [(0, 3), (3, 24 - 3), (24 - 3, 24)]
   \<and> (\<forall>(h, w, y, x) \<in> set (panes 24 80). w = 80 \<and> x = 0 \<and> 0 \<le> h)
   \<and> height_playlist_win 24 = 24 - 6"
  by (rule panes_tile_screen) simp

text \<open>C39. Start-up fails exactly when mpv does not answer one of the unwrapped
  queries (mute, pause, playlist, speed, volume): then \<open>main\<close> panics before any
  thread runs. A missing metadata answer is not an error. On success the store holds
  mpv's answers, no search results, and position and duration 0. A failure of the
  listener's own connection or of one of its registrations is not fatal: the program
  runs on, with the input thread and the render loop alive and the listener dead, so
  that the store is never updated (spec 6(a) makes a connection failure fatal).\<close>

theorem startup_errors:
  "(start True env max_y = Inl CommandFailed \<longleftrightarrow>
      q_mute env = None \<or> q_pause env = None \<or> q_playlist env = None
      \<or> q_speed env = None \<or> q_volume env = None)
   \<and> (start True env max_y = Inl CommandFailed \<or>
      (\<exists>p. start True env max_y = Inr (Running (initial_state p (nat max_y)))
           \<and> metadata p = q_metadata env \<and> Some (playlist p) = q_playlist env
           \<and> search_results p = ([], 0) \<and> time_pos p = Fin 0 \<and> duration p = Fin 0))
   \<and> start False env max_y = Inr Exited
   \<and> ((\<exists>s. start_system True env obs accepts max_y = Inr (Running s) \<and> \<not> listener_alive s \<and> input_alive s)
      \<longleftrightarrow> start True env max_y \<noteq> Inl CommandFailed
          \<and> (\<not> obs \<or> (\<exists>(i, n)\<in>set observed_properties. \<not> accepts n)))"
proof -
  have "start True env max_y = Inl CommandFailed \<or>
      (\<exists>p. start True env max_y = Inr (Running (initial_state p (nat max_y))))"
    by (auto simp: start_def startup_player_def unwrap_query_def split: option.splits)
  then show ?thesis
    by (auto simp: start_def startup_player_def unwrap_query_def start_system_def observer_setup_def
        initial_state_def observe_all_eq split: option.splits)
qed

theorem startup_errors_witness:
  "\<exists>s. start_system True \<lparr>q_metadata = None, q_mute = Some False, q_pause = Some False, q_playlist = Some [],
        q_speed = Some (Fin 1), q_volume = Some (Fin 50)\<rparr> False (\<lambda>n. True) 24 = Inr (Running s)
      \<and> \<not> listener_alive s \<and> input_alive s"
  using startup_errors [of "\<lparr>q_metadata = None, q_mute = Some False, q_pause = Some False, q_playlist = Some [],
        q_speed = Some (Fin 1), q_volume = Some (Fin 50)\<rparr>" 24 False "\<lambda>n. True"]
  by (simp add: start_def startup_player_def unwrap_query_def)

end
