(* ===== verification/Concurrency.thy ===== *)
theory Concurrency
  imports Viewport
begin

text \<open>
  Per-field locking of the canvas. The code never holds the canvas mutex across a
  handler: KEY_UP and KEY_PPAGE (lines 324--390) take it once to read \<open>top_line\<close>,
  once to read \<open>selected_line\<close>, and once for each write back; the render loop's
  correction (lines 705--727) does the same. Neither of these two input arms takes the
  player lock, so their critical sections interleave freely with those of the render
  loop. A thread is a list of critical sections (\<open>CStep\<close>), each a function of the
  thread's local variables (\<open>Regs\<close>) and the canvas; a schedule (\<open>bool list\<close>)
  merges two threads (\<open>interleave\<close>), and \<open>run_steps\<close> executes the merge.
  Running the critical sections of one thread alone gives back the atomic handlers of
  the theory \<open>Viewport\<close>; an interleaving can tear the canvas and leave it in a state
  from which the navigation keys never recover.
\<close>

section \<open>Threads as lists of critical sections\<close>

text \<open>The local variables \<open>top_line\<close> and \<open>selected_line\<close> of a handler.\<close>

record Regs =
  r_top :: nat
  r_sel :: nat

type_synonym CStep = "Regs \<times> PlaylistCanvas \<Rightarrow> (Regs \<times> PlaylistCanvas) res"

definition regs_view :: "Regs \<Rightarrow> PlaylistCanvas" where
  "regs_view r = \<lparr>top_line = r_top r, bottom_line = 0, selected_line = r_sel r\<rparr>"

text \<open>An input arm that reads the two fields, computes a new view from the values
  read (\<open>f\<close>, which may panic) and writes the two fields back, one lock each.\<close>

definition field_prog :: "(PlaylistCanvas \<Rightarrow> PlaylistCanvas res) \<Rightarrow> CStep list" where
  "field_prog f =
     [\<lambda>(r, c). Inr (r\<lparr>r_top := top_line c\<rparr>, c),
      \<lambda>(r, c). Inr (r\<lparr>r_sel := selected_line c\<rparr>, c),
      \<lambda>(r, c). res_bind (f (regs_view r)) (\<lambda>k.
                 Inr (r\<lparr>r_top := top_line k, r_sel := selected_line k\<rparr>, c\<lparr>top_line := top_line k\<rparr>)),
      \<lambda>(r, c). Inr (r, c\<lparr>selected_line := r_sel r\<rparr>)]"

text \<open>KEY_UP (lines 324--343) and KEY_PPAGE (lines 370--390).\<close>

definition key_up_prog :: "CStep list" where
  "key_up_prog = field_prog (\<lambda>c. Inr (key_up c))"

definition key_ppage_prog :: "nat \<Rightarrow> CStep list" where
  "key_ppage_prog H = field_prog (key_ppage H)"

text \<open>The render loop on \<open>Repaint::Playlist\<close> (lines 705--727): read the two fields,
  on \<open>scroll_to_beginning\<close> write both as 0, write \<open>bottom_line\<close>, and reset the
  selection when it is past the end of the playlist.\<close>

definition render_fix_prog :: "nat \<Rightarrow> Playlist \<Rightarrow> bool \<Rightarrow> CStep list" where
  "render_fix_prog H pl scroll =
     [\<lambda>(r, c). Inr (r\<lparr>r_top := top_line c\<rparr>, c),
      \<lambda>(r, c). Inr (r\<lparr>r_sel := selected_line c\<rparr>, c),
      \<lambda>(r, c). (if scroll then Inr (r\<lparr>r_top := 0, r_sel := 0\<rparr>, c\<lparr>top_line := 0\<rparr>) else Inr (r, c)),
      \<lambda>(r, c). (if scroll then Inr (r, c\<lparr>selected_line := 0\<rparr>) else Inr (r, c)),
      \<lambda>(r, c). Inr (r, c\<lparr>bottom_line := r_top r + H\<rparr>),
      \<lambda>(r, c). res_bind (i32_ok (as_i32 (length pl) - 1)) (\<lambda>last.
                 if last < as_i32 (r_sel r) then Inr (r\<lparr>r_sel := 0\<rparr>, c\<lparr>selected_line := 0\<rparr>)
                 else Inr (r, c))]"

section \<open>Schedules\<close>

datatype Tid = InputThread | RenderThread

text \<open>A schedule picks, at each point, the thread whose next critical section runs;
  when it is used up or names a thread that has finished, the rest runs in order.\<close>

fun interleave :: "bool list \<Rightarrow> 'a list \<Rightarrow> 'a list \<Rightarrow> 'a list" where
  "interleave (True # bs) (x # xs) ys = x # interleave bs xs ys"
| "interleave (False # bs) xs (y # ys) = y # interleave bs xs ys"
| "interleave bs xs ys = xs @ ys"

fun run_steps :: "(Tid \<times> CStep) list \<Rightarrow> Regs \<times> Regs \<times> PlaylistCanvas
                    \<Rightarrow> (Regs \<times> Regs \<times> PlaylistCanvas) res" where
  "run_steps [] st = Inr st"
| "run_steps ((InputThread, f) # ss) (r1, r2, c) =
     res_bind (f (r1, c)) (\<lambda>(r1', c'). run_steps ss (r1', r2, c'))"
| "run_steps ((RenderThread, f) # ss) (r1, r2, c) =
     res_bind (f (r2, c)) (\<lambda>(r2', c'). run_steps ss (r1, r2', c'))"

text \<open>KEY_UP racing with the render loop under a schedule, from a canvas and fresh
  local variables; the result is the canvas left behind.\<close>

definition race :: "nat \<Rightarrow> Playlist \<Rightarrow> bool \<Rightarrow> CStep list \<Rightarrow> bool list \<Rightarrow> PlaylistCanvas
                     \<Rightarrow> PlaylistCanvas res" where
  "race H pl scroll key bs c =
     res_bind (run_steps (interleave bs (map (Pair InputThread) key)
                                        (map (Pair RenderThread) (render_fix_prog H pl scroll)))
                         (\<lparr>r_top = 0, r_sel = 0\<rparr>, \<lparr>r_top = 0, r_sel = 0\<rparr>, c))
       (\<lambda>(r1, r2, c'). Inr c')"

text \<open>A canvas scrolled past the end of a playlist no longer than the pane: the first
  shown row is beyond the last entry (and at least a page down), the selection is
  inside the playlist, and \<open>bottom_line\<close> is consistent.\<close>

definition stuck :: "nat \<Rightarrow> nat \<Rightarrow> PlaylistCanvas \<Rightarrow> bool" where
  "stuck H n c \<longleftrightarrow> H \<le> top_line c \<and> max 1 n \<le> top_line c \<and> selected_line c < max 1 n
                     \<and> bottom_line c = top_line c + H"

text \<open>The input thread's keys, each followed by the render loop's correction of the
  playlist request it sends.\<close>

fun nav_draw :: "nat \<Rightarrow> Playlist \<Rightarrow> NavKey list \<Rightarrow> PlaylistCanvas \<Rightarrow> PlaylistCanvas res" where
  "nav_draw H pl [] c = Inr c"
| "nav_draw H pl (k # ks) c =
     res_bind (navigate H pl k c) (\<lambda>c'.
     res_bind (repaint_canvas H pl False c') (\<lambda>c''. nav_draw H pl ks c''))"

text \<open>A playlist of five entries, as left by mpv after entries were removed.\<close>

definition five_entries :: Playlist where
  "five_entries = replicate 5 \<lparr>entry_id = 0, filename = ''f'', title = [], current = False\<rparr>"

section \<open>Lemmas\<close>

lemma interleave_Nil [simp]: "interleave [] xs ys = xs @ ys"
  by simp

lemma interleave_filter_left:
  "\<forall>y\<in>set ys. \<not> P y \<Longrightarrow> filter P (interleave bs xs ys) = filter P xs"
  by (induction bs xs ys rule: interleave.induct) auto

lemma interleave_filter_right:
  "\<forall>x\<in>set xs. \<not> P x \<Longrightarrow> filter P (interleave bs xs ys) = filter P ys"
  by (induction bs xs ys rule: interleave.induct) auto

lemma run_steps_append:
  "run_steps (xs @ ys) st = res_bind (run_steps xs st) (run_steps ys)"
proof (induction xs st rule: run_steps.induct)
  case (2 f ss r1 r2 c)
  then show ?case by (cases "f (r1, c)") auto
next
  case (3 f ss r1 r2 c)
  then show ?case by (cases "f (r2, c)") auto
qed simp

lemma run_field_prog:
  "run_steps (map (Pair InputThread) (field_prog f)) (r1, r2, c) =
     res_bind (f \<lparr>top_line = top_line c, bottom_line = 0, selected_line = selected_line c\<rparr>) (\<lambda>k.
       Inr (\<lparr>r_top = top_line k, r_sel = selected_line k\<rparr>, r2,
            c\<lparr>top_line := top_line k, selected_line := selected_line k\<rparr>))"
  by (cases "f \<lparr>top_line = top_line c, bottom_line = 0, selected_line = selected_line c\<rparr>")
     (simp_all add: field_prog_def regs_view_def)

lemma run_render_fix_prog:
  "run_steps (map (Pair RenderThread) (render_fix_prog H pl scroll)) (r1, r2, c) =
     res_bind (repaint_canvas H pl scroll c) (\<lambda>c'.
       Inr (r1, \<lparr>r_top = top_line c', r_sel = selected_line c'\<rparr>, c'))"
  by (simp add: render_fix_prog_def repaint_canvas_def Let_def i32_ok_def)

text \<open>The two arms only move \<open>top_line\<close> and \<open>selected_line\<close>, and read nothing else.\<close>

lemma key_up_fields:
  "c\<lparr>top_line := top_line (key_up \<lparr>top_line = top_line c, bottom_line = 0, selected_line = selected_line c\<rparr>),
     selected_line := selected_line (key_up \<lparr>top_line = top_line c, bottom_line = 0,
                                               selected_line = selected_line c\<rparr>)\<rparr>
   = key_up c"
  by (simp add: key_up_def Let_def)

lemma key_ppage_fields:
  "res_bind (key_ppage H \<lparr>top_line = top_line c, bottom_line = 0, selected_line = selected_line c\<rparr>)
     (\<lambda>k. g (c\<lparr>top_line := top_line k, selected_line := selected_line k\<rparr>))
   = res_bind (key_ppage H c) g"
  by (simp add: key_ppage_def usub_def)

lemma key_ppage_fields_Inr:
  "res_bind (key_ppage H \<lparr>top_line = top_line c, bottom_line = 0, selected_line = selected_line c\<rparr>)
     (\<lambda>k. Inr (c\<lparr>top_line := top_line k, selected_line := selected_line k\<rparr>))
   = key_ppage H c"
  using key_ppage_fields [of H c Inr] by (simp add: res_bind_return)

lemma stuck_not_view_ok: "stuck H n c \<Longrightarrow> \<not> view_ok H n c"
  by (auto simp: stuck_def view_ok_def)

lemma stuck_repaint:
  assumes "H \<le> top_line c" and "max 1 n \<le> top_line c" and "selected_line c < max 1 n"
    and "n < 2 ^ 31" and "repaint_canvas H pl False c = Inr c'" and "length pl = n"
  shows "stuck H n c'"
proof -
  have "as_i32 (selected_line c) = int (selected_line c)"
    using assms(3,4) by (intro as_i32_small) simp
  with assms show ?thesis
    by (auto simp: stuck_def repaint_canvas_def Let_def res_bind_eq_Inr split: if_splits)
qed

text \<open>One navigation key on a stuck canvas keeps the first row and keeps the
  selection inside the playlist.\<close>

lemma stuck_navigate:
  assumes "stuck H (length pl) c" and "length pl \<le> H" and "navigate H pl k c = Inr c'"
  shows "H \<le> top_line c' \<and> max 1 (length pl) \<le> top_line c' \<and> selected_line c' < max 1 (length pl)"
proof (cases k)
  case KeyUp
  with assms show ?thesis by (auto simp: stuck_def key_up_def Let_def)
next
  case KeyDown
  with assms show ?thesis by (auto simp: stuck_def key_down_def Let_def usub_def split: if_splits)
next
  case KeyPPage
  with assms show ?thesis by (auto simp: stuck_def key_ppage_def usub_def split: if_splits)
next
  case KeyNPage
  with assms show ?thesis by (auto simp: stuck_def key_npage_def usub_def split: if_splits)
qed

lemma race_key_first:
  "race H pl scroll (field_prog f) [] c =
     res_bind (f \<lparr>top_line = top_line c, bottom_line = 0, selected_line = selected_line c\<rparr>) (\<lambda>k.
       repaint_canvas H pl scroll (c\<lparr>top_line := top_line k, selected_line := selected_line k\<rparr>))"
  unfolding race_def interleave_Nil run_steps_append res_bind_assoc run_field_prog res_bind_Inr
    run_render_fix_prog prod.case res_bind_return ..

lemma interleave_replicate_False: "interleave (replicate (length ys) False) xs ys = ys @ xs"
  by (induction ys) simp_all

lemma length_render_fix_prog: "length (render_fix_prog H pl scroll) = 6"
  by (simp add: render_fix_prog_def)

lemma race_render_first:
  "race H pl scroll (field_prog f) (replicate 6 False) c =
     res_bind (repaint_canvas H pl scroll c) (\<lambda>c'.
       res_bind (f \<lparr>top_line = top_line c', bottom_line = 0, selected_line = selected_line c'\<rparr>) (\<lambda>k.
         Inr (c'\<lparr>top_line := top_line k, selected_line := selected_line k\<rparr>)))"
proof -
  have eq: "interleave (replicate 6 False) (map (Pair InputThread) (field_prog f))
          (map (Pair RenderThread) (render_fix_prog H pl scroll))
        = map (Pair RenderThread) (render_fix_prog H pl scroll) @ map (Pair InputThread) (field_prog f)"
    using interleave_replicate_False [of "map (Pair RenderThread) (render_fix_prog H pl scroll)"]
    by (simp only: length_map length_render_fix_prog)
  show ?thesis
    unfolding race_def eq run_steps_append res_bind_assoc run_render_fix_prog res_bind_Inr
      run_field_prog prod.case ..
qed

lemma stuck_nav_draw_step:
  assumes "stuck H (length pl) c" and "length pl \<le> H" and "length pl < 2 ^ 31"
    and "navigate H pl k c = Inr c'" and "repaint_canvas H pl False c' = Inr c''"
  shows "stuck H (length pl) c''"
  using stuck_navigate [OF assms(1,2,4)] assms(3,5) by (intro stuck_repaint) auto

lemma sequential_schedules_atomic:
  "race H pl scroll key_up_prog [] c = res_bind (navigate H pl KeyUp c) (repaint_canvas H pl scroll)
   \<and> race H pl scroll key_up_prog (replicate 6 False) c
       = res_bind (repaint_canvas H pl scroll c) (navigate H pl KeyUp)
   \<and> race H pl scroll (key_ppage_prog H) [] c = res_bind (navigate H pl KeyPPage c) (repaint_canvas H pl scroll)
   \<and> race H pl scroll (key_ppage_prog H) (replicate 6 False) c
       = res_bind (repaint_canvas H pl scroll c) (navigate H pl KeyPPage)"
proof -
  have "navigate H pl KeyUp = (\<lambda>c. Inr (key_up c))" "navigate H pl KeyPPage = key_ppage H"
    by (simp_all add: fun_eq_iff)
  then show ?thesis
    unfolding key_up_prog_def key_ppage_prog_def race_key_first race_render_first
    by (simp add: key_up_fields key_ppage_fields key_ppage_fields_Inr res_bind_return)
qed

lemma sequential_nav_consistent:
  assumes "canvas_ok H (length pl) c" and "0 < length pl" and "0 < H"
    and "length pl < 2 ^ 31" and "H < 2 ^ 30"
  shows "(\<exists>c'. res_bind (navigate H pl k c) (repaint_canvas H pl scroll) = Inr c' \<and> canvas_ok H (length pl) c')
       \<and> (\<exists>c'. res_bind (repaint_canvas H pl scroll c) (navigate H pl k) = Inr c' \<and> view_ok H (length pl) c')"
proof -
  obtain c1 where c1: "navigate H pl k c = Inr c1" and v1: "view_ok H (length pl) c1"
    using navigate_view_ok [OF assms] by blast
  obtain c2 where c2: "repaint_canvas H pl scroll c1 = Inr c2" and k2: "canvas_ok H (length pl) c2"
    using repaint_canvas_canvas_ok [OF v1 assms(4,3)] by blast
  obtain c3 where c3: "repaint_canvas H pl scroll c = Inr c3" and k3: "canvas_ok H (length pl) c3"
    using repaint_canvas_canvas_ok [OF _ assms(4,3)] assms(1) by (auto simp: canvas_ok_def)
  obtain c4 where c4: "navigate H pl k c3 = Inr c4" and v4: "view_ok H (length pl) c4"
    using navigate_view_ok [OF k3 assms(2-5)] by blast
  show ?thesis using c1 c2 k2 c3 c4 v4 by simp
qed

section \<open>Properties of the per-field locking\<close>

text \<open>C34. Run without overlapping the render loop's correction, the per-field
  sections of KEY_UP and KEY_PPAGE behave: from a consistent canvas over a non-empty
  playlist, when the key runs first the correction leaves a consistent canvas; when the
  correction runs first the key leaves the selection inside the playlist and on screen
  (its \<open>bottom_line\<close> is refreshed by the playlist request the key sends).\<close>

theorem sequential_schedules_consistent:
  assumes "canvas_ok H (length pl) c" and "0 < length pl" and "0 < H"
    and "length pl < 2 ^ 31" and "H < 2 ^ 30"
    and "P = key_up_prog \<or> P = key_ppage_prog H"
  shows "(\<exists>c'. race H pl scroll P [] c = Inr c' \<and> canvas_ok H (length pl) c')
       \<and> (\<exists>c'. race H pl scroll P (replicate 6 False) c = Inr c' \<and> view_ok H (length pl) c')"
  using assms(6) sequential_nav_consistent [OF assms(1-5)] sequential_schedules_atomic
  by (elim disjE) (simp_all only:)

theorem sequential_schedules_consistent_witness:
  "(\<exists>c'. race 6 five_entries True key_up_prog [] \<lparr>top_line = 0, bottom_line = 6, selected_line = 3\<rparr> = Inr c'
          \<and> canvas_ok 6 (length five_entries) c')
   \<and> (\<exists>c'. race 6 five_entries True key_up_prog (replicate 6 False)
           \<lparr>top_line = 0, bottom_line = 6, selected_line = 3\<rparr> = Inr c' \<and> view_ok 6 (length five_entries) c')"
  by (rule sequential_schedules_consistent)
     (simp_all add: five_entries_def canvas_ok_def view_ok_def)

text \<open>C35. The per-field locking lets KEY_UP tear the canvas. The playlist has just
  shrunk to five entries and the render loop handles the \<open>scroll_to_beginning\<close>
  request of line 273 while KEY_UP is pressed on row 52 of a six-row window starting
  at row 50. Both orders without overlap end in a consistent canvas; but when KEY_UP reads
  the two fields before the render loop resets them and writes them back after, the
  canvas is left with \<open>bottom_line\<close> above \<open>top_line\<close>, and the correction of the
  request KEY_UP sends then leaves the window past the end of the playlist.\<close>

theorem key_up_race_tears_canvas:
  "race 6 five_entries True key_up_prog [] \<lparr>top_line = 50, bottom_line = 56, selected_line = 52\<rparr>
     = Inr \<lparr>top_line = 0, bottom_line = 6, selected_line = 0\<rparr>
   \<and> race 6 five_entries True key_up_prog (replicate 6 False)
       \<lparr>top_line = 50, bottom_line = 56, selected_line = 52\<rparr>
     = Inr \<lparr>top_line = 0, bottom_line = 6, selected_line = 0\<rparr>
   \<and> canvas_ok 6 (length five_entries) \<lparr>top_line = 0, bottom_line = 6, selected_line = 0\<rparr>
   \<and> race 6 five_entries True key_up_prog [False, False, True, True, False, False, False, False]
       \<lparr>top_line = 50, bottom_line = 56, selected_line = 52\<rparr>
     = Inr \<lparr>top_line = 50, bottom_line = 6, selected_line = 51\<rparr>
   \<and> repaint_canvas 6 five_entries False \<lparr>top_line = 50, bottom_line = 6, selected_line = 51\<rparr>
     = Inr \<lparr>top_line = 50, bottom_line = 56, selected_line = 0\<rparr>
   \<and> stuck 6 (length five_entries) \<lparr>top_line = 50, bottom_line = 56, selected_line = 0\<rparr>"
proof -
  have n: "length five_entries = 5" by (simp add: five_entries_def)
  have seq1: "race 6 five_entries True key_up_prog [] \<lparr>top_line = 50, bottom_line = 56, selected_line = 52\<rparr>
     = Inr \<lparr>top_line = 0, bottom_line = 6, selected_line = 0\<rparr>"
    by (simp add: race_key_first key_up_prog_def key_up_def repaint_canvas_def n)
  have seq2: "race 6 five_entries True key_up_prog (replicate 6 False)
       \<lparr>top_line = 50, bottom_line = 56, selected_line = 52\<rparr>
     = Inr \<lparr>top_line = 0, bottom_line = 6, selected_line = 0\<rparr>"
    by (simp add: race_render_first key_up_prog_def key_up_def repaint_canvas_def n)
  have torn: "race 6 five_entries True key_up_prog [False, False, True, True, False, False, False, False]
       \<lparr>top_line = 50, bottom_line = 56, selected_line = 52\<rparr>
     = Inr \<lparr>top_line = 50, bottom_line = 6, selected_line = 51\<rparr>"
    by (simp add: race_def key_up_prog_def field_prog_def render_fix_prog_def regs_view_def
        key_up_def n)
  have fixed: "repaint_canvas 6 five_entries False \<lparr>top_line = 50, bottom_line = 6, selected_line = 51\<rparr>
     = Inr \<lparr>top_line = 50, bottom_line = 56, selected_line = 0\<rparr>"
    by (simp add: repaint_canvas_def n)
  show ?thesis
    using seq1 seq2 torn fixed by (simp add: n canvas_ok_def view_ok_def stuck_def)
qed

text \<open>C36. A canvas torn this way is never repaired by the navigation keys while the
  playlist is no longer than the pane: when the window starts past the last entry and
  at least a page down (\<open>H \<le> top_line\<close>), with the selection inside the playlist and
  \<open>bottom_line = top_line + H\<close> (\<open>stuck\<close>), then after any sequence of KEY_UP, KEY_DOWN,
  KEY_PPAGE and KEY_NPAGE, each followed by the render loop's correction, the canvas is
  still of that form and the selected row is not shown (KEY_PPAGE panics instead). Spec 3 asks for \<open>top_line = 0\<close> whenever the playlist fits.\<close>

theorem stuck_canvas_never_recovers:
  assumes "stuck H (length pl) c" and "length pl \<le> H" and "length pl < 2 ^ 31"
    and "nav_draw H pl ks c = Inr c'"
  shows "stuck H (length pl) c' \<and> \<not> view_ok H (length pl) c'"
  using assms(1,4)
proof (induction ks arbitrary: c)
  case Nil
  then show ?case by (simp add: stuck_not_view_ok)
next
  case (Cons k ks)
  then obtain c1 c2 where "navigate H pl k c = Inr c1" and "repaint_canvas H pl False c1 = Inr c2"
      and "nav_draw H pl ks c2 = Inr c'"
    by (auto simp: res_bind_eq_Inr)
  with Cons.prems(1) assms(2,3) show ?case
    by (intro Cons.IH) (auto intro: stuck_nav_draw_step)
qed

theorem stuck_canvas_never_recovers_witness:
  "stuck 6 (length five_entries) \<lparr>top_line = 50, bottom_line = 56, selected_line = 4\<rparr>
   \<and> \<not> view_ok 6 (length five_entries) \<lparr>top_line = 50, bottom_line = 56, selected_line = 4\<rparr>"
proof -
  have n: "length five_entries = 5" by (simp add: five_entries_def)
  show ?thesis
    using stuck_canvas_never_recovers [of 6 five_entries "\<lparr>top_line = 50, bottom_line = 56, selected_line = 0\<rparr>"
        "[KeyUp, KeyDown, KeyNPage]" "\<lparr>top_line = 50, bottom_line = 56, selected_line = 4\<rparr>"]
    by (simp add: n stuck_def key_up_def key_down_def key_npage_def repaint_canvas_def usub_def Let_def)
qed

end
