(* ===== verification/Locking.thy ===== *)
theory Locking
  imports Concurrency
begin

text \<open>
  The player lock and the canvas. \<open>Concurrency\<close> treats the arms that take no player
  guard; KEY_DOWN (lines 345--369), KEY_NPAGE (lines 392--419) and the centering arm
  KEY_O (lines 514--528) bind \<open>playlist\<close> through the guard of \<open>player.lock()\<close> and
  hold it to the end of the arm, and so does the render loop from line 707 to the end
  of its \<open>Repaint::Playlist\<close> arm. A critical section is tagged with the operation on
  the player mutex that comes with it (\<open>LockOp\<close>); a schedule respects the mutex when
  no thread takes it while the other holds it (\<open>lock_ok\<close>), and \<open>run_plain\<close> runs it.
  Two sections under the guard never overlap (\<open>locked_sections\<close>), so a guarded arm
  racing with the render loop runs as the arm with the render loop's two first reads
  inserted, or after the whole render arm (\<open>guarded_arm_race\<close>). Under every schedule
  that respects the mutex these arms, unlike KEY_UP, leave a consistent canvas.
\<close>

section \<open>Critical sections that take the player lock\<close>

text \<open>A critical section of a thread, with the operation on the player mutex that comes
  with it: \<open>TakePlayer\<close> when the section starts by taking the guard, \<open>DropPlayer\<close>
  when the guard is dropped at its end. \<open>IStep\<close> runs on the input thread's local
  variables, \<open>RStep\<close> on the render loop's.\<close>

datatype LockOp = NoLock | TakePlayer | DropPlayer

datatype ('a, 'b) LStep =
    IStep LockOp "'a \<times> PlaylistCanvas \<Rightarrow> ('a \<times> PlaylistCanvas) res"
  | RStep LockOp "'b \<times> PlaylistCanvas \<Rightarrow> ('b \<times> PlaylistCanvas) res"

fun lop :: "('a, 'b) LStep \<Rightarrow> LockOp" where
  "lop (IStep lk f) = lk"
| "lop (RStep lk f) = lk"

fun ltid :: "('a, 'b) LStep \<Rightarrow> Tid" where
  "ltid (IStep lk f) = InputThread"
| "ltid (RStep lk f) = RenderThread"

text \<open>A thread takes the mutex only when it is free and drops it only when it holds
  it; \<open>lock_ok\<close> holds of a schedule that respects the mutex from holder \<open>h\<close> on.\<close>

definition may_run :: "Tid \<Rightarrow> LockOp \<Rightarrow> Tid option \<Rightarrow> bool" where
  "may_run t lk h = (case lk of TakePlayer \<Rightarrow> h = None | DropPlayer \<Rightarrow> h = Some t | NoLock \<Rightarrow> True)"

definition next_holder :: "Tid \<Rightarrow> LockOp \<Rightarrow> Tid option \<Rightarrow> Tid option" where
  "next_holder t lk h = (case lk of TakePlayer \<Rightarrow> Some t | DropPlayer \<Rightarrow> None | NoLock \<Rightarrow> h)"

fun exec_step :: "('a, 'b) LStep \<Rightarrow> 'a \<times> 'b \<times> PlaylistCanvas \<Rightarrow> ('a \<times> 'b \<times> PlaylistCanvas) res" where
  "exec_step (IStep lk f) (r1, r2, c) = res_bind (f (r1, c)) (\<lambda>(r1', c'). Inr (r1', r2, c'))"
| "exec_step (RStep lk f) (r1, r2, c) = res_bind (f (r2, c)) (\<lambda>(r2', c'). Inr (r1, r2', c'))"

fun run_plain :: "('a, 'b) LStep list \<Rightarrow> 'a \<times> 'b \<times> PlaylistCanvas \<Rightarrow> ('a \<times> 'b \<times> PlaylistCanvas) res" where
  "run_plain [] st = Inr st"
| "run_plain (x # xs) st = res_bind (exec_step x st) (run_plain xs)"

fun lock_ok :: "('a, 'b) LStep list \<Rightarrow> Tid option \<Rightarrow> bool" where
  "lock_ok [] h = True"
| "lock_ok (x # xs) h = (may_run (ltid x) (lop x) h \<and> lock_ok xs (next_holder (ltid x) (lop x) h))"

text \<open>A section under the player guard: its first step takes the guard, its last drops
  it, and none in between touches it.\<close>

fun guarded :: "Tid \<Rightarrow> ('a, 'b) LStep list \<Rightarrow> bool" where
  "guarded t [] = False"
| "guarded t (x # xs) = (ltid x = t \<and> lop x = TakePlayer \<and> xs \<noteq> [] \<and> (\<forall>y\<in>set xs. ltid y = t)
     \<and> lop (last xs) = DropPlayer \<and> (\<forall>y\<in>set (butlast xs). lop y = NoLock))"

section \<open>KEY_DOWN and the render loop with their lock operations\<close>

text \<open>The local variables of KEY_DOWN (lines 345--369).\<close>

record DownRegs =
  d_top :: nat
  d_bottom :: nat
  d_sel :: nat

text \<open>KEY_DOWN binds \<open>playlist\<close> through the guard of \<open>player.lock()\<close> (line 346), which
  lives to the end of the arm; it then takes the canvas lock once per field read
  (lines 347--350) and once per field written (lines 363--364). The step that takes
  the player lock also reads \<open>top_line\<close>; the step that writes \<open>selected_line\<close> is the
  last one under the guard (the \<open>send\<close> of line 365 does not touch the canvas).\<close>

definition key_down_lprog :: "nat \<Rightarrow> Playlist \<Rightarrow> (DownRegs, Regs) LStep list" where
  "key_down_lprog H pl =
     [IStep TakePlayer (\<lambda>(r, c). Inr (r\<lparr>d_top := top_line c\<rparr>, c)),
      IStep NoLock (\<lambda>(r, c). Inr (r\<lparr>d_bottom := bottom_line c\<rparr>, c)),
      IStep NoLock (\<lambda>(r, c). Inr (r\<lparr>d_sel := selected_line c\<rparr>, c)),
      IStep NoLock (\<lambda>(r, c).
        res_bind (key_down H pl \<lparr>top_line = d_top r, bottom_line = d_bottom r, selected_line = d_sel r\<rparr>)
          (\<lambda>k. Inr (r\<lparr>d_top := top_line k, d_sel := selected_line k\<rparr>, c\<lparr>top_line := top_line k\<rparr>))),
      IStep DropPlayer (\<lambda>(r, c). Inr (r, c\<lparr>selected_line := d_sel r\<rparr>))]"

text \<open>The render loop on \<open>Repaint::Playlist\<close> reads the two fields (lines 705--706)
  before it binds \<open>playlist\<close> through the player guard (line 707), which it holds to
  the end of the arm (line 733). The model drops the guard with its last canvas
  write; the rest of the arm (\<open>print_playlist\<close>) only reads the canvas under a lock of
  its own, so the canvases the schedules can produce are the same.\<close>

definition render_lprog :: "nat \<Rightarrow> Playlist \<Rightarrow> bool \<Rightarrow> ('a, Regs) LStep list" where
  "render_lprog H pl scroll =
     map2 RStep [NoLock, NoLock, TakePlayer, NoLock, NoLock, DropPlayer] (render_fix_prog H pl scroll)"

text \<open>The atomic model of a key followed by the render loop's correction of a
  request, and of the correction of the key's own request: the key first, or the
  render loop first (the order \<open>sys_exec\<close> takes for a \<open>Key\<close> and a \<open>Draw\<close>).\<close>

definition seq_key_render :: "(PlaylistCanvas \<Rightarrow> PlaylistCanvas res) \<Rightarrow> nat \<Rightarrow> Playlist \<Rightarrow> bool
                                \<Rightarrow> PlaylistCanvas \<Rightarrow> PlaylistCanvas res" where
  "seq_key_render f H pl scroll c =
     res_bind (f c) (\<lambda>k. res_bind (repaint_canvas H pl scroll k) (repaint_canvas H pl False))"

definition seq_render_key :: "(PlaylistCanvas \<Rightarrow> PlaylistCanvas res) \<Rightarrow> nat \<Rightarrow> Playlist \<Rightarrow> bool
                                \<Rightarrow> PlaylistCanvas \<Rightarrow> PlaylistCanvas res" where
  "seq_render_key f H pl scroll c =
     res_bind (repaint_canvas H pl scroll c) (\<lambda>c0. res_bind (f c0) (repaint_canvas H pl False))"

section \<open>Lemmas\<close>

lemma interleave_Nil_left: "interleave bs [] ys = ys"
  by (induction bs "[] :: 'a list" ys rule: interleave.induct) auto

lemma interleave_Nil_right: "interleave bs xs [] = xs"
  by (induction bs xs "[] :: 'a list" rule: interleave.induct) auto

text \<open>While the input thread holds the lock, the render thread can only run the
  critical sections before its next \<open>TakePlayer\<close>.\<close>

lemma interleave_input_holds:
  assumes "\<forall>x\<in>set xs. ltid x = InputThread" and "\<forall>y\<in>set ys. ltid y = RenderThread"
    and "xs \<noteq> []" and "lop (last xs) = DropPlayer" and "\<forall>x\<in>set (butlast xs). lop x = NoLock"
    and "lock_ok (interleave bs xs ys) (Some InputThread)"
  shows "\<exists>bs'. interleave bs xs ys
           = interleave bs' xs (takeWhile (\<lambda>y. lop y = NoLock) ys) @ dropWhile (\<lambda>y. lop y = NoLock) ys"
  using assms
proof (induction bs xs ys rule: interleave.induct)
  case (1 bs x xs ys)
  show ?case
  proof (cases "xs = []")
    case True
    then have "interleave (True # bs) [x] ys = interleave [True] [x] (takeWhile (\<lambda>y. lop y = NoLock) ys)
                 @ dropWhile (\<lambda>y. lop y = NoLock) ys"
      by (simp add: interleave_Nil_left)
    with True show ?thesis by blast
  next
    case False
    with "1.prems" have "lop x = NoLock" by (cases xs) auto
    with False "1.prems" obtain bs' where
      "interleave bs xs ys = interleave bs' xs (takeWhile (\<lambda>y. lop y = NoLock) ys) @ dropWhile (\<lambda>y. lop y = NoLock) ys"
      using "1.IH" by (auto simp: next_holder_def may_run_def butlast_append split: if_splits)
    then have "interleave (True # bs) (x # xs) ys
          = interleave (True # bs') (x # xs) (takeWhile (\<lambda>y. lop y = NoLock) ys) @ dropWhile (\<lambda>y. lop y = NoLock) ys"
      by simp
    then show ?thesis by blast
  qed
next
  case (2 bs xs y ys)
  then have "lop y = NoLock"
    by (cases "lop y") (auto simp: may_run_def)
  with 2 obtain bs' where
    "interleave bs xs ys = interleave bs' xs (takeWhile (\<lambda>y. lop y = NoLock) ys) @ dropWhile (\<lambda>y. lop y = NoLock) ys"
    by (auto simp: next_holder_def)
  with \<open>lop y = NoLock\<close> have "interleave (False # bs) xs (y # ys)
      = interleave (False # bs') xs (takeWhile (\<lambda>y. lop y = NoLock) (y # ys)) @ dropWhile (\<lambda>y. lop y = NoLock) (y # ys)"
    by simp
  then show ?case by blast
qed (auto simp: interleave_Nil_right intro: exI [of _ "[]"])

lemma lock_ok_render_holds_input:
  "\<forall>x\<in>set xs. ltid x = InputThread \<Longrightarrow> lock_ok (xs @ ys) (Some RenderThread)
   \<Longrightarrow> \<forall>x\<in>set xs. lop x = NoLock"
proof (induction xs)
  case (Cons x xs)
  then have "lop x = NoLock" by (cases "lop x") (auto simp: may_run_def)
  with Cons show ?case by (auto simp: next_holder_def)
qed simp

lemma render_holds_default:
  assumes "\<forall>x\<in>set xs. ltid x = InputThread" and "lock_ok (xs @ ys) (Some RenderThread)"
  shows "\<exists>bs'. xs @ ys = interleave bs' (takeWhile (\<lambda>x. lop x = NoLock) xs) ys @ dropWhile (\<lambda>x. lop x = NoLock) xs"
proof -
  from assms have "\<forall>x\<in>set xs. lop x = NoLock" by (rule lock_ok_render_holds_input)
  then have tw: "takeWhile (\<lambda>x. lop x = NoLock) xs = xs" and dw: "dropWhile (\<lambda>x. lop x = NoLock) xs = []"
    by (simp_all add: takeWhile_eq_all_conv dropWhile_eq_Nil_conv)
  show ?thesis by (rule exI [of _ "[]"]) (simp only: tw dw append_Nil2 interleave_Nil)
qed

text \<open>While the render thread holds the lock, the input thread can only run the
  critical sections before its next \<open>TakePlayer\<close>.\<close>

lemma interleave_render_holds:
  assumes "\<forall>x\<in>set xs. ltid x = InputThread" and "\<forall>y\<in>set ys. ltid y = RenderThread"
    and "ys \<noteq> []" and "lop (last ys) = DropPlayer" and "\<forall>y\<in>set (butlast ys). lop y = NoLock"
    and "lock_ok (interleave bs xs ys) (Some RenderThread)"
  shows "\<exists>bs'. interleave bs xs ys
           = interleave bs' (takeWhile (\<lambda>x. lop x = NoLock) xs) ys @ dropWhile (\<lambda>x. lop x = NoLock) xs"
  using assms
proof (induction bs xs ys rule: interleave.induct)
  case (1 bs x xs ys)
  then have "lop x = NoLock"
    by (cases "lop x") (auto simp: may_run_def)
  with 1 obtain bs' where
    "interleave bs xs ys = interleave bs' (takeWhile (\<lambda>x. lop x = NoLock) xs) ys @ dropWhile (\<lambda>x. lop x = NoLock) xs"
    by (auto simp: next_holder_def)
  with \<open>lop x = NoLock\<close> have "interleave (True # bs) (x # xs) ys
      = interleave (True # bs') (takeWhile (\<lambda>x. lop x = NoLock) (x # xs)) ys @ dropWhile (\<lambda>x. lop x = NoLock) (x # xs)"
    by simp
  then show ?case by blast
next
  case (2 bs xs y ys)
  show ?case
  proof (cases "ys = []")
    case True
    then have "interleave (False # bs) xs [y] = interleave [False] (takeWhile (\<lambda>x. lop x = NoLock) xs) [y]
                 @ dropWhile (\<lambda>x. lop x = NoLock) xs"
      by (simp add: interleave_Nil_left interleave_Nil_right)
    with True show ?thesis by blast
  next
    case False
    with "2.prems" have "lop y = NoLock" by (cases ys) auto
    with False "2.prems" obtain bs' where
      "interleave bs xs ys = interleave bs' (takeWhile (\<lambda>x. lop x = NoLock) xs) ys @ dropWhile (\<lambda>x. lop x = NoLock) xs"
      using "2.IH" by (auto simp: next_holder_def may_run_def butlast_append split: if_splits)
    then have "interleave (False # bs) xs (y # ys)
          = interleave (False # bs') (takeWhile (\<lambda>x. lop x = NoLock) xs) (y # ys) @ dropWhile (\<lambda>x. lop x = NoLock) xs"
      by simp
    then show ?thesis by blast
  qed
qed (auto simp: interleave_Nil_left intro: render_holds_default)

lemma takeWhile_NoLock_block:
  "\<forall>u\<in>set U. lop u = NoLock \<Longrightarrow> lop l = TakePlayer
   \<Longrightarrow> takeWhile (\<lambda>y. lop y = NoLock) (U @ l # L) = U \<and> dropWhile (\<lambda>y. lop y = NoLock) (U @ l # L) = l # L"
  by (induction U) auto

text \<open>Two critical sections under the player lock never overlap: the render thread's
  steps before it takes the lock (\<open>U\<close>) may run inside the input thread's section
  (\<open>x # X\<close>), but its own section (\<open>l # L\<close>) runs wholly after or wholly before.\<close>

lemma locked_sections:
  assumes "\<forall>x\<in>set (x # X). ltid x = InputThread" and "lop x = TakePlayer" and "X \<noteq> []"
    and "lop (last X) = DropPlayer" and "\<forall>x\<in>set (butlast X). lop x = NoLock"
    and "\<forall>y\<in>set (U @ l # L). ltid y = RenderThread" and "lop l = TakePlayer" and "L \<noteq> []"
    and "lop (last L) = DropPlayer" and "\<forall>y\<in>set (butlast L). lop y = NoLock"
    and "\<forall>u\<in>set U. lop u = NoLock"
    and "lock_ok (interleave bs (x # X) (U @ l # L)) None"
  shows "(\<exists>bs'. interleave bs (x # X) (U @ l # L) = interleave bs' (x # X) U @ l # L)
         \<or> interleave bs (x # X) (U @ l # L) = U @ l # L @ x # X"
  using assms(6,11,12)
proof (induction U arbitrary: bs)
  case Nil
  show ?case
  proof (cases bs)
    case (Cons b bs1)
    show ?thesis
    proof (cases b)
      case True
      with Cons Nil.prems assms(1,2) have "lock_ok (interleave bs1 X (l # L)) (Some InputThread)"
        by (simp add: may_run_def next_holder_def)
      with assms(1-5,7) Nil.prems obtain bs' where "interleave bs1 X (l # L) = interleave bs' X [] @ l # L"
        using interleave_input_holds [of X "l # L" bs1] takeWhile_NoLock_block [of "[]" l L] by auto
      with Cons True show ?thesis by (simp add: interleave_Nil_right)
    next
      case False
      with Cons Nil.prems assms(7) have "lock_ok (interleave bs1 (x # X) L) (Some RenderThread)"
        by (simp add: may_run_def next_holder_def)
      with assms(1,2,8-10) Nil.prems obtain bs' where "interleave bs1 (x # X) L = interleave bs' [] L @ x # X"
        using interleave_render_holds [of "x # X" L bs1] by auto
      with Cons False show ?thesis by (simp add: interleave_Nil_left)
    qed
  qed (simp add: interleave_Nil_right)
next
  case (Cons u U)
  show ?case
  proof (cases bs)
    case (Cons b bs1)
    show ?thesis
    proof (cases b)
      case True
      with Cons "Cons.prems" assms(1,2) have "lock_ok (interleave bs1 X (u # U @ l # L)) (Some InputThread)"
        by (simp add: may_run_def next_holder_def)
      with assms(1-5,7) "Cons.prems" obtain bs' where
        "interleave bs1 X (u # U @ l # L) = interleave bs' X (u # U) @ l # L"
        using interleave_input_holds [of X "u # U @ l # L" bs1] takeWhile_NoLock_block [of "u # U" l L]
        by auto
      with Cons True show ?thesis by (intro disjI1 exI [of _ "True # bs'"]) simp
    next
      case False
      with Cons "Cons.prems" have "lock_ok (interleave bs1 (x # X) (U @ l # L)) None"
        by (simp add: may_run_def next_holder_def)
      with "Cons.prems" have "(\<exists>bs'. interleave bs1 (x # X) (U @ l # L) = interleave bs' (x # X) U @ l # L)
          \<or> interleave bs1 (x # X) (U @ l # L) = U @ l # L @ x # X"
        by (intro "Cons.IH") simp_all
      with Cons False show ?thesis by (auto intro: exI [of _ "False # bs'" for bs'])
    qed
  qed (intro disjI1 exI [of _ "[]"], simp)
qed

lemma canvas_fields [simp]:
  "\<lparr>top_line = top_line c, bottom_line = bottom_line c, selected_line = selected_line c\<rparr> = c"
  by simp

lemma key_down_fields:
  "key_down H pl c = Inr k \<Longrightarrow> c\<lparr>top_line := top_line k, selected_line := selected_line k\<rparr> = k"
  by (auto simp: key_down_def Let_def res_bind_eq_Inr split: if_splits)

lemma key_down_render_inside:
  assumes "key_down H pl c = Inr k" and "view_ok H (length pl) k" and "selected_line c < length pl"
    and "length pl < 2 ^ 31" and "0 < H" and "a \<le> 5" and "b \<le> 5"
  shows "\<exists>d' r' c'. run_plain (take a (key_down_lprog H pl) @ render_lprog H pl scroll ! 0
             # take b (drop a (key_down_lprog H pl)) @ render_lprog H pl scroll ! 1
             # drop b (drop a (key_down_lprog H pl)) @ drop 2 (render_lprog H pl scroll)) (d, r, c)
           = Inr (d', r', c') \<and> view_ok H (length pl) c'
           \<and> repaint_canvas H pl False c' = seq_key_render (key_down H pl) H pl scroll c"
proof -
  obtain t s where k: "k = c\<lparr>top_line := t, selected_line := s\<rparr>"
    using key_down_fields [OF assms(1)] by metis
  have sel: "as_i32 (selected_line c) = int (selected_line c)" "as_i32 s = int s"
    "as_i32 (length pl) = int (length pl)"
    using assms(2-4) unfolding k by (simp_all add: view_ok_def)
  from assms(6,7) have "a = 0 \<or> a = 1 \<or> a = 2 \<or> a = 3 \<or> a = 4 \<or> a = 5"
      and "b = 0 \<or> b = 1 \<or> b = 2 \<or> b = 3 \<or> b = 4 \<or> b = 5" by arith+
  then show ?thesis
    using assms(1-5) sel unfolding k
    apply (elim disjE)
    apply (simp_all add: key_down_lprog_def render_lprog_def render_fix_prog_def seq_key_render_def)
    apply (auto simp: view_ok_def repaint_canvas_def)
    done
qed

lemma run_plain_append: "run_plain (xs @ ys) st = res_bind (run_plain xs st) (run_plain ys)"
proof (induction xs arbitrary: st)
  case (Cons x xs)
  then show ?case by (cases "exec_step x st") simp_all
qed simp

lemma interleave_Cons_right:
  "\<exists>a bs'. a \<le> length xs \<and> interleave bs xs (y # ys) = take a xs @ y # interleave bs' (drop a xs) ys"
proof (induction xs arbitrary: bs)
  case Nil
  show ?case by (auto simp: interleave_Nil_left)
next
  case (Cons x xs)
  show ?case
  proof (cases bs)
    case Nil
    then show ?thesis by (intro exI [of _ "length (x # xs)"] exI [of _ "[]"]) simp
  next
    case (Cons b bs1)
    with "Cons.IH" [of bs1] show ?thesis
      by (cases b) (fastforce intro: exI [of _ "Suc a" for a], force)
  qed
qed

lemma interleave_two_right:
  "\<exists>a b. a \<le> length xs \<and> b \<le> length xs
     \<and> interleave bs xs [u, v] = take a xs @ u # take b (drop a xs) @ v # drop b (drop a xs)"
proof -
  obtain a bs' where a: "a \<le> length xs" and 1: "interleave bs xs [u, v] = take a xs @ u # interleave bs' (drop a xs) [v]"
    using interleave_Cons_right [where xs = xs and bs = bs and y = u and ys = "[v]"] by blast
  obtain b bs'' where b: "b \<le> length (drop a xs)"
    and 2: "interleave bs' (drop a xs) [v] = take b (drop a xs) @ v # interleave bs'' (drop b (drop a xs)) []"
    using interleave_Cons_right [where xs = "drop a xs" and bs = bs' and y = v and ys = "[]"] by blast
  from a b 1 2 show ?thesis by (intro exI [of _ a] exI [of _ b]) (simp add: interleave_Nil_right)
qed

text \<open>An arm of the input thread that holds the player guard throughout, against the
  render loop, whose first two steps come before its guarded section: every schedule
  that respects the mutex runs either as the arm with the two reads inserted somewhere
  in it, followed by the rest of the render loop, or as the whole render loop first.
  A property of the result that holds of all these runs holds of every schedule.\<close>

lemma guarded_arm_race:
  assumes X: "guarded InputThread X" and R: "guarded RenderThread R"
    and u: "ltid u0 = RenderThread" "ltid u1 = RenderThread" "lop u0 = NoLock" "lop u1 = NoLock"
    and inside: "\<And>a b. a \<le> length X \<Longrightarrow> b \<le> length X
       \<Longrightarrow> P (run_plain (take a X @ u0 # take b (drop a X) @ u1 # drop b (drop a X) @ R) st)"
    and before: "P (run_plain (u0 # u1 # R @ X) st)"
    and lock: "lock_ok (interleave bs X (u0 # u1 # R)) None"
  shows "P (run_plain (interleave bs X (u0 # u1 # R)) st)"
proof -
  obtain x X' where X': "X = x # X'" using X by (cases X) auto
  obtain l L where L: "R = l # L" using R by (cases R) auto
  have disj: "(\<exists>bs'. interleave bs (x # X') ([u0, u1] @ l # L) = interleave bs' (x # X') [u0, u1] @ l # L)
      \<or> interleave bs (x # X') ([u0, u1] @ l # L) = [u0, u1] @ l # L @ x # X'"
    using X R u lock unfolding X' L by (intro locked_sections) auto
  show ?thesis
  proof (cases "interleave bs X (u0 # u1 # R) = u0 # u1 # R @ X")
    case True
    with before show ?thesis by simp
  next
    case False
    with disj obtain bs' where "interleave bs X (u0 # u1 # R) = interleave bs' X [u0, u1] @ R"
      unfolding X' L by auto
    moreover obtain a b where "a \<le> length X" "b \<le> length X"
      "interleave bs' X [u0, u1] = take a X @ u0 # take b (drop a X) @ u1 # drop b (drop a X)"
      using interleave_two_right [where xs = X and bs = bs' and u = u0 and v = u1] by blast
    ultimately show ?thesis using inside by simp
  qed
qed

text \<open>Run alone, the two programs are the atomic handlers of \<open>Viewport\<close>.\<close>

lemma run_key_down_lprog:
  "run_plain (key_down_lprog H pl) (d, r, c) =
     res_bind (key_down H pl c) (\<lambda>k.
       Inr (\<lparr>d_top = top_line k, d_bottom = bottom_line c, d_sel = selected_line k\<rparr>, r, k))"
  by (cases "key_down H pl c") (auto simp: key_down_lprog_def key_down_fields)

lemma run_render_lprog:
  "run_plain (render_lprog H pl scroll) (d, r, c) =
     res_bind (repaint_canvas H pl scroll c) (\<lambda>c'.
       Inr (d, \<lparr>r_top = top_line c', r_sel = selected_line c'\<rparr>, c'))"
  by (simp add: render_lprog_def render_fix_prog_def repaint_canvas_def Let_def i32_ok_def)

lemma key_down_render_before:
  assumes "canvas_ok H (length pl) c" and "0 < length pl" and "0 < H" and "length pl < 2 ^ 31"
  shows "\<exists>d' r' c'. run_plain (render_lprog H pl scroll @ key_down_lprog H pl) (d, r, c) = Inr (d', r', c')
           \<and> view_ok H (length pl) c' \<and> repaint_canvas H pl False c' = seq_render_key (key_down H pl) H pl scroll c"
proof -
  obtain c0 where c0: "repaint_canvas H pl scroll c = Inr c0" and ok: "canvas_ok H (length pl) c0"
    using repaint_canvas_canvas_ok assms(1,3,4) by (fastforce simp: canvas_ok_def)
  obtain k where "key_down H pl c0 = Inr k" and "view_ok H (length pl) k"
    using key_down_view_ok [OF ok assms(2)] by blast
  with c0 show ?thesis by (simp add: run_plain_append run_render_lprog run_key_down_lprog seq_render_key_def)
qed

lemma key_down_lprog_guarded: "guarded InputThread (key_down_lprog H pl)"
  by (simp add: key_down_lprog_def)

lemma render_lprog_parts:
  "render_lprog H pl scroll ! 0 # render_lprog H pl scroll ! 1 # drop 2 (render_lprog H pl scroll) @ zs
     = render_lprog H pl scroll @ zs
   \<and> ltid (render_lprog H pl scroll ! 0) = RenderThread \<and> ltid (render_lprog H pl scroll ! 1) = RenderThread
   \<and> lop (render_lprog H pl scroll ! 0) = NoLock \<and> lop (render_lprog H pl scroll ! 1) = NoLock
   \<and> guarded RenderThread (drop 2 (render_lprog H pl scroll))"
  by (simp add: render_lprog_def render_fix_prog_def)

lemma lock_ok_NoLock_append:
  "\<forall>x\<in>set xs. lop x = NoLock \<Longrightarrow> lock_ok (xs @ ys) h = lock_ok ys h"
  by (induction xs) (simp_all add: may_run_def next_holder_def)

lemma lock_ok_interleave_NoLock:
  "\<forall>x\<in>set xs. lop x = NoLock \<Longrightarrow> lock_ok (interleave bs xs ys) h = lock_ok ys h"
  by (induction bs xs ys arbitrary: h rule: interleave.induct)
     (auto simp: may_run_def next_holder_def lock_ok_NoLock_append lock_ok_NoLock_append [where ys = "[]", simplified])

text \<open>KEY_UP takes no player lock, so the lock restricts none of its schedules with
  the render loop: the torn schedule of \<open>Concurrency\<close> is one the code can run.\<close>

lemma key_up_lock_free:
  "lock_ok (interleave bs (map (IStep NoLock) key_up_prog) (render_lprog H pl scroll)) None"
  by (simp add: lock_ok_interleave_NoLock render_lprog_def render_fix_prog_def may_run_def next_holder_def)

text \<open>An arm under the player guard racing with the render loop leaves a consistent
  canvas after the correction of the request it sends, when every run of
  \<open>guarded_arm_race\<close> leaves the selection inside the window.\<close>

lemma guarded_render_race:
  fixes X :: "('a, Regs) LStep list"
  assumes X: "guarded InputThread X"
    and inside: "\<And>a b. a \<le> length X \<Longrightarrow> b \<le> length X \<Longrightarrow> \<exists>d' r' c'.
       run_plain (take a X @ render_lprog H pl scroll ! 0 # take b (drop a X) @ render_lprog H pl scroll ! 1
                  # drop b (drop a X) @ drop 2 (render_lprog H pl scroll)) st = Inr (d', r', c') \<and> Q c'"
    and before: "\<exists>d' r' c'. run_plain (render_lprog H pl scroll @ X) st = Inr (d', r', c') \<and> Q c'"
    and lock: "lock_ok (interleave bs X (render_lprog H pl scroll)) None"
  shows "\<exists>d' r' c'. run_plain (interleave bs X (render_lprog H pl scroll)) st = Inr (d', r', c') \<and> Q c'"
proof -
  let ?Y = "render_lprog H pl scroll :: ('a, Regs) LStep list"
  let ?P = "\<lambda>res. \<exists>d' r' c'. res = Inr (d', r', c') \<and> Q c'"
  note Y = render_lprog_parts [of H pl scroll]
  note Y0 = conjunct1 [OF render_lprog_parts [of H pl scroll "[]"], unfolded append_Nil2]
  have "?P (run_plain (interleave bs X (?Y ! 0 # ?Y ! 1 # drop 2 ?Y)) st)"
  proof (rule guarded_arm_race [OF X])
    show "?P (run_plain (?Y ! 0 # ?Y ! 1 # drop 2 ?Y @ X) st)"
      unfolding conjunct1 [OF render_lprog_parts [of H pl scroll X]] by (rule before)
    show "lock_ok (interleave bs X (?Y ! 0 # ?Y ! 1 # drop 2 ?Y)) None"
      using lock unfolding Y0 .
  qed (use conjunct2 [OF Y] inside in auto)
  then show ?thesis unfolding Y0 .
qed

lemma guarded_arm_keeps_canvas_ok:
  fixes X :: "('a, Regs) LStep list"
  assumes X: "guarded InputThread X"
    and inside: "\<And>a b. a \<le> length X \<Longrightarrow> b \<le> length X \<Longrightarrow> \<exists>d' r' c'.
       run_plain (take a X @ render_lprog H pl scroll ! 0 # take b (drop a X) @ render_lprog H pl scroll ! 1
                  # drop b (drop a X) @ drop 2 (render_lprog H pl scroll)) st = Inr (d', r', c')
       \<and> view_ok H (length pl) c'"
    and before: "\<exists>d' r' c'. run_plain (render_lprog H pl scroll @ X) st = Inr (d', r', c')
       \<and> view_ok H (length pl) c'"
    and lock: "lock_ok (interleave bs X (render_lprog H pl scroll)) None" and n: "length pl < 2 ^ 31"
  shows "\<exists>d' r' c' c''. run_plain (interleave bs X (render_lprog H pl scroll)) st = Inr (d', r', c')
           \<and> repaint_canvas H pl False c' = Inr c'' \<and> canvas_ok H (length pl) c''"
proof -
  obtain d' r' c' where run: "run_plain (interleave bs X (render_lprog H pl scroll)) st = Inr (d', r', c')"
    and v': "view_ok H (length pl) c'"
    using guarded_render_race [OF X inside before lock] by blast
  from repaint_canvas_keep [OF v' n] run show ?thesis by (intro exI conjI) (assumption | simp)+
qed

section \<open>KEY_DOWN under the player lock\<close>

text \<open>Under every schedule that respects the player mutex KEY_DOWN racing with the
  render loop never panics and, after the correction of the request it sends, leaves a
  consistent canvas.\<close>

lemma key_down_locked_keeps_canvas_ok:
  assumes "lock_ok (interleave bs (key_down_lprog H pl) (render_lprog H pl scroll)) None"
    and "canvas_ok H (length pl) c" and "0 < length pl" and "0 < H" and "length pl < 2 ^ 31"
  shows "\<exists>d' r' c' c''. run_plain (interleave bs (key_down_lprog H pl) (render_lprog H pl scroll)) (d, r, c)
             = Inr (d', r', c')
           \<and> repaint_canvas H pl False c' = Inr c'' \<and> canvas_ok H (length pl) c''"
proof (rule guarded_arm_keeps_canvas_ok [OF key_down_lprog_guarded _ _ assms(1,5)])
  obtain k where k: "key_down H pl c = Inr k" and v: "view_ok H (length pl) k"
    using key_down_view_ok [OF assms(2,3)] by blast
  have sel: "selected_line c < length pl"
    using assms(2,3) by (simp add: canvas_ok_def view_ok_def)
  have len: "length (key_down_lprog H pl) = 5" by (simp add: key_down_lprog_def)
  show "\<exists>d' r' c'. run_plain (take a (key_down_lprog H pl) @ render_lprog H pl scroll ! 0
          # take b (drop a (key_down_lprog H pl)) @ render_lprog H pl scroll ! 1
          # drop b (drop a (key_down_lprog H pl)) @ drop 2 (render_lprog H pl scroll)) (d, r, c)
          = Inr (d', r', c') \<and> view_ok H (length pl) c'"
    if "a \<le> length (key_down_lprog H pl)" and "b \<le> length (key_down_lprog H pl)" for a b
  proof -
    from that len have "a \<le> 5" "b \<le> 5" by simp_all
    from key_down_render_inside [OF k v sel assms(5,4) this] show ?thesis by blast
  qed
qed (use key_down_render_before [OF assms(2-5)] in blast)

text \<open>C9. KEY_DOWN is linearizable against the render loop's \<open>Repaint::Playlist\<close>
  arm: under every schedule that respects the player mutex, from a consistent canvas on
  a non-empty playlist, the two handlers run without a panic, and once the request
  KEY_DOWN sends is handled the canvas is the one of the atomic model, with KEY_DOWN
  either before or after the render loop's arm. The render loop's reads of the two
  fields before it takes the player guard may fall inside KEY_DOWN's section; its
  writes come wholly before or wholly after it. KEY_UP, which takes no player guard,
  is not linearizable (C35).\<close>

theorem key_down_linearizable:
  assumes "lock_ok (interleave bs (key_down_lprog H pl) (render_lprog H pl scroll)) None"
    and "canvas_ok H (length pl) c" and "0 < length pl" and "0 < H" and "length pl < 2 ^ 31"
  shows "\<exists>d' r' c'. run_plain (interleave bs (key_down_lprog H pl) (render_lprog H pl scroll)) (d, r, c)
             = Inr (d', r', c')
           \<and> (repaint_canvas H pl False c' = seq_key_render (key_down H pl) H pl scroll c
              \<or> repaint_canvas H pl False c' = seq_render_key (key_down H pl) H pl scroll c)"
proof (rule guarded_render_race [OF key_down_lprog_guarded _ _ assms(1)])
  obtain k where k: "key_down H pl c = Inr k" and v: "view_ok H (length pl) k"
    using key_down_view_ok [OF assms(2,3)] by blast
  have sel: "selected_line c < length pl"
    using assms(2,3) by (simp add: canvas_ok_def view_ok_def)
  have len: "length (key_down_lprog H pl) = 5" by (simp add: key_down_lprog_def)
  show "\<exists>d' r' c'. run_plain (take a (key_down_lprog H pl) @ render_lprog H pl scroll ! 0
          # take b (drop a (key_down_lprog H pl)) @ render_lprog H pl scroll ! 1
          # drop b (drop a (key_down_lprog H pl)) @ drop 2 (render_lprog H pl scroll)) (d, r, c)
          = Inr (d', r', c') \<and> (repaint_canvas H pl False c' = seq_key_render (key_down H pl) H pl scroll c
              \<or> repaint_canvas H pl False c' = seq_render_key (key_down H pl) H pl scroll c)"
    if "a \<le> length (key_down_lprog H pl)" and "b \<le> length (key_down_lprog H pl)" for a b
  proof -
    from that len have "a \<le> 5" "b \<le> 5" by simp_all
    from key_down_render_inside [OF k v sel assms(5,4) this] show ?thesis by blast
  qed
qed (use key_down_render_before [OF assms(2-5)] in blast)

theorem key_down_linearizable_witness:
  "\<exists>d' r' c'. run_plain (interleave [False, True, True, True, False, True, True]
        (key_down_lprog 3 five_entries) (render_lprog 3 five_entries False))
        (\<lparr>d_top = 0, d_bottom = 0, d_sel = 0\<rparr>, \<lparr>r_top = 0, r_sel = 0\<rparr>,
         \<lparr>top_line = 0, bottom_line = 3, selected_line = 2\<rparr>) = Inr (d', r', c')
      \<and> (repaint_canvas 3 five_entries False c'
           = seq_key_render (key_down 3 five_entries) 3 five_entries False
               \<lparr>top_line = 0, bottom_line = 3, selected_line = 2\<rparr>
         \<or> repaint_canvas 3 five_entries False c'
           = seq_render_key (key_down 3 five_entries) 3 five_entries False
               \<lparr>top_line = 0, bottom_line = 3, selected_line = 2\<rparr>)"
  by (rule key_down_linearizable)
     (simp_all add: key_down_lprog_def render_lprog_def render_fix_prog_def may_run_def next_holder_def
      canvas_ok_def view_ok_def five_entries_def)

end
