(* ===== verification/LockedArms.thy ===== *)
theory LockedArms
  imports Locking Search
begin

text \<open>
  The other arms of the input thread that write the canvas, with their operations on
  the player mutex: KEY_NPAGE, the centering arms KEY_O, KEY_N and the search prompt's
  Enter, which hold the player guard, and KEY_Z, which does not. The guarded arms race
  with the render loop as \<open>guarded_arm_race\<close> says and leave a consistent canvas;
  KEY_Z's two sections can straddle the render loop's reset of the canvas.
\<close>

section \<open>The arms as critical sections\<close>

text \<open>KEY_NPAGE (lines 392--419) binds \<open>playlist\<close> through the player guard
  (line 393) and holds it to the end of the arm; between, it reads the two fields
  (lines 394--396) and writes them back (lines 413--414), as \<open>field_prog\<close> does.\<close>

definition key_npage_lprog :: "nat \<Rightarrow> Playlist \<Rightarrow> (Regs, Regs) LStep list" where
  "key_npage_lprog H pl = map2 IStep [TakePlayer, NoLock, NoLock, DropPlayer] (field_prog (key_npage H pl))"

text \<open>A centering arm: under the player guard it computes the new canvas from the
  canvas it reads under one canvas lock and, when there is one, stores it whole under
  another (\<open>*playlist_canvas.lock().unwrap() = new_canvas\<close>). KEY_O (lines 514--528)
  centers on the current entry; KEY_N (lines 486--512) and the search prompt's Enter
  (lines 571--616) have the same shape.\<close>

definition center_steps :: "LockOp \<Rightarrow> LockOp \<Rightarrow> (PlaylistCanvas \<Rightarrow> PlaylistCanvas option res)
                              \<Rightarrow> (PlaylistCanvas option, Regs) LStep list" where
  "center_steps lk1 lk2 f =
     [IStep lk1 (\<lambda>(r, c). res_bind (f c) (\<lambda>nc. Inr (nc, c))),
      IStep lk2 (\<lambda>(r, c). Inr (r, case r of None \<Rightarrow> c | Some nc \<Rightarrow> nc))]"

definition center_lprog :: "(PlaylistCanvas \<Rightarrow> PlaylistCanvas option res)
                              \<Rightarrow> (PlaylistCanvas option, Regs) LStep list" where
  "center_lprog f = center_steps TakePlayer DropPlayer f"

definition key_o_lprog :: "Playlist \<Rightarrow> (PlaylistCanvas option, Regs) LStep list" where
  "key_o_lprog pl = center_lprog (jump_to_current pl)"

text \<open>KEY_N (lines 486--512) holds the player guard for the whole arm (line 487):
  it advances the cursor into the search results and centers on the result; the
  canvas it stores is the one \<open>key_n\<close> computes, when \<open>key_n\<close> asks for a redraw.\<close>

definition key_n_lprog :: "Player \<Rightarrow> (PlaylistCanvas option, Regs) LStep list" where
  "key_n_lprog p = center_lprog (\<lambda>c. res_bind (key_n p c) (\<lambda>(p', c', rs).
     Inr (if rs = [] then None else Some c')))"

text \<open>The search prompt's Enter (lines 571--616) on a non-empty pattern holds the
  player guard from line 579 to the end of its \<open>else\<close> block (line 611) and centers
  on the first result.\<close>

definition search_enter_lprog :: "string \<Rightarrow> Player \<Rightarrow> (PlaylistCanvas option, Regs) LStep list" where
  "search_enter_lprog s p = center_lprog (\<lambda>c. res_bind (search_commit s p c) (\<lambda>(p', c', rs).
     Inr (if redraw_list \<in> set rs then Some c' else None)))"

text \<open>KEY_Z (lines 655--672) centers on the current entry of the shuffled playlist it
  fetches from mpv (line 658), not of the store, and takes no player guard.\<close>

definition key_z_lprog :: "Playlist \<Rightarrow> (PlaylistCanvas option, Regs) LStep list" where
  "key_z_lprog pl = center_steps NoLock NoLock (jump_to_current pl)"

text \<open>Ten entries of which the ninth is playing.\<close>

definition current_at_eight :: Playlist where
  "current_at_eight =
     replicate 8 \<lparr>entry_id = 0, filename = ''f'', title = [], current = False\<rparr>
     @ [\<lparr>entry_id = 0, filename = ''f'', title = [], current = True\<rparr>,
        \<lparr>entry_id = 0, filename = ''f'', title = [], current = False\<rparr>]"

text \<open>Five entries, after a search that matched rows 1 and 3, with the cursor on the
  first match.\<close>

definition searched_five :: Player where
  "searched_five = \<lparr>duration = Fin 0, is_muted = False, is_paused = False, metadata = None,
     playlist = five_entries, search_results = ([1, 3], 0), speed = Fin 1, time_pos = Fin 0,
     volume = Fin 50\<rparr>"

section \<open>Lemmas\<close>

lemma run_key_npage_lprog:
  "run_plain (key_npage_lprog H pl) (d, r, c) =
     res_bind (key_npage H pl \<lparr>top_line = top_line c, bottom_line = 0, selected_line = selected_line c\<rparr>) (\<lambda>k.
       Inr (\<lparr>r_top = top_line k, r_sel = selected_line k\<rparr>, r,
            c\<lparr>top_line := top_line k, selected_line := selected_line k\<rparr>))"
  by (cases "key_npage H pl \<lparr>top_line = top_line c, bottom_line = 0, selected_line = selected_line c\<rparr>")
     (simp_all add: key_npage_lprog_def field_prog_def regs_view_def)

lemma key_npage_lprog_guarded: "guarded InputThread (key_npage_lprog H pl)"
  by (simp add: key_npage_lprog_def field_prog_def)

lemma key_npage_render_inside:
  assumes "key_npage H pl \<lparr>top_line = top_line c, bottom_line = 0, selected_line = selected_line c\<rparr> = Inr k"
    and "view_ok H (length pl) k" and "selected_line c < length pl"
    and "length pl < 2 ^ 31" and "0 < H" and "a \<le> 4" and "b \<le> 4"
  shows "\<exists>d' r' c'. run_plain (take a (key_npage_lprog H pl) @ render_lprog H pl scroll ! 0
             # take b (drop a (key_npage_lprog H pl)) @ render_lprog H pl scroll ! 1
             # drop b (drop a (key_npage_lprog H pl)) @ drop 2 (render_lprog H pl scroll)) (d, r, c)
           = Inr (d', r', c') \<and> view_ok H (length pl) c'"
proof -
  have sel: "as_i32 (selected_line c) = int (selected_line c)" "as_i32 (selected_line k) = int (selected_line k)"
    "as_i32 (length pl) = int (length pl)"
    using assms(2-4) by (simp_all add: view_ok_def)
  from assms(6,7) have "a = 0 \<or> a = 1 \<or> a = 2 \<or> a = 3 \<or> a = 4"
      and "b = 0 \<or> b = 1 \<or> b = 2 \<or> b = 3 \<or> b = 4" by arith+
  then show ?thesis
    using assms(1-5) sel
    apply (elim disjE)
    apply (simp_all add: key_npage_lprog_def field_prog_def regs_view_def render_lprog_def render_fix_prog_def)
    apply (auto simp: view_ok_def)
    done
qed

lemma key_npage_render_before:
  assumes "canvas_ok H (length pl) c" and "0 < length pl" and "0 < H" and "length pl < 2 ^ 31"
    and "H < 2 ^ 30"
  shows "\<exists>d' r' c'. run_plain (render_lprog H pl scroll @ key_npage_lprog H pl) (d, r, c) = Inr (d', r', c')
           \<and> view_ok H (length pl) c'"
proof -
  obtain c0 where c0: "repaint_canvas H pl scroll c = Inr c0" and ok: "canvas_ok H (length pl) c0"
    using repaint_canvas_canvas_ok assms(1,3,4) by (fastforce simp: canvas_ok_def)
  then have "view_ok H (length pl) \<lparr>top_line = top_line c0, bottom_line = 0, selected_line = selected_line c0\<rparr>"
    by (simp add: canvas_ok_def view_ok_def)
  then obtain k where "key_npage H pl \<lparr>top_line = top_line c0, bottom_line = 0, selected_line = selected_line c0\<rparr> = Inr k"
      and "view_ok H (length pl) k"
    using key_npage_view_ok assms(2,4,5) by blast
  with c0 show ?thesis
    by (simp add: run_plain_append run_render_lprog run_key_npage_lprog view_ok_def)
qed

lemma center_lprog_guarded: "guarded InputThread (center_lprog f)"
  by (simp add: center_lprog_def center_steps_def)

lemma run_center_lprog:
  "run_plain (center_lprog f) (d, r, c) =
     res_bind (f c) (\<lambda>nc. Inr (nc, r, case nc of None \<Rightarrow> c | Some c' \<Rightarrow> c'))"
  by (cases "f c") (simp_all add: center_lprog_def center_steps_def)

lemma center_render_inside:
  assumes "f c = Inr nc" and "view_ok H (length pl) (case nc of None \<Rightarrow> c | Some c' \<Rightarrow> c')"
    and "selected_line c < length pl" and "length pl < 2 ^ 31" and "0 < H" and "a \<le> 2" and "b \<le> 2"
  shows "\<exists>d' r' c'. run_plain (take a (center_lprog f) @ render_lprog H pl scroll ! 0
             # take b (drop a (center_lprog f)) @ render_lprog H pl scroll ! 1
             # drop b (drop a (center_lprog f)) @ drop 2 (render_lprog H pl scroll)) (d, r, c)
           = Inr (d', r', c') \<and> view_ok H (length pl) c'"
proof -
  let ?c = "case nc of None \<Rightarrow> c | Some c' \<Rightarrow> c'"
  have sel: "as_i32 (selected_line c) = int (selected_line c)" "as_i32 (selected_line ?c) = int (selected_line ?c)"
    "as_i32 (length pl) = int (length pl)"
    using assms(2-4) by (simp_all add: view_ok_def)
  from assms(6,7) have "a = 0 \<or> a = 1 \<or> a = 2" and "b = 0 \<or> b = 1 \<or> b = 2" by arith+
  then show ?thesis
    using assms(1-5) sel
    apply (elim disjE)
    apply (simp_all add: center_lprog_def center_steps_def render_lprog_def render_fix_prog_def)
    apply (auto simp: view_ok_def split: option.splits)
    done
qed

lemma center_render_before:
  assumes f: "\<And>c. canvas_ok H (length pl) c
      \<Longrightarrow> \<exists>nc. f c = Inr nc \<and> view_ok H (length pl) (case nc of None \<Rightarrow> c | Some c' \<Rightarrow> c')"
    and "canvas_ok H (length pl) c" and "0 < H" and "length pl < 2 ^ 31"
  shows "\<exists>d' r' c'. run_plain (render_lprog H pl scroll @ center_lprog f) (d, r, c) = Inr (d', r', c')
           \<and> view_ok H (length pl) c'"
proof -
  obtain c0 where c0: "repaint_canvas H pl scroll c = Inr c0" and ok: "canvas_ok H (length pl) c0"
    using repaint_canvas_canvas_ok assms(2-4) by (fastforce simp: canvas_ok_def)
  obtain nc where "f c0 = Inr nc" and "view_ok H (length pl) (case nc of None \<Rightarrow> c0 | Some c' \<Rightarrow> c')"
    using f [OF ok] by blast
  with c0 show ?thesis by (simp add: run_plain_append run_render_lprog run_center_lprog)
qed

lemma find_current_less: "pl \<noteq> [] \<Longrightarrow> find_current i pl < i + length pl"
proof (induction pl arbitrary: i)
  case (Cons e es)
  show ?case
  proof (cases "es = []")
    case False
    with Cons.IH [of "Suc i"] show ?thesis by simp
  qed simp
qed simp

text \<open>On a playlist of at least a page, centering on the current entry never panics
  and leaves the selection inside the window.\<close>

lemma jump_to_current_view_ok:
  assumes "canvas_ok H (length pl) c" and "0 < H" and "H \<le> length pl"
  shows "\<exists>nc. jump_to_current pl c = Inr nc \<and> view_ok H (length pl) (case nc of None \<Rightarrow> c | Some c' \<Rightarrow> c')"
proof -
  from assms(2,3) have "pl \<noteq> []" by auto
  then have "find_current 0 pl < length pl"
    using find_current_less [of pl 0] by simp
  then obtain c' where c': "try_center_id pl c (find_current 0 pl) = Inr (Some c')"
    using try_center_id_total assms(1,3) by (fastforce simp: canvas_ok_def)
  with assms(1,2) have "canvas_ok H (length pl) c'"
    by (intro try_center_id_canvas_ok [of c H pl "find_current 0 pl"]) (simp_all add: canvas_ok_def)
  with c' show ?thesis by (simp add: jump_to_current_def canvas_ok_def)
qed

text \<open>KEY_NPAGE and the centering arms under the player guard, racing with the render
  loop, also leave a consistent canvas; KEY_O needs a playlist of at least a page, as
  its centering does (C4).\<close>

lemma key_npage_locked_keeps_canvas_ok:
  assumes "lock_ok (interleave bs (key_npage_lprog H pl) (render_lprog H pl scroll)) None"
    and "canvas_ok H (length pl) c" and "0 < length pl" and "0 < H" and "length pl < 2 ^ 31"
    and "H < 2 ^ 30"
  shows "\<exists>d' r' c' c''. run_plain (interleave bs (key_npage_lprog H pl) (render_lprog H pl scroll)) (d, r, c)
             = Inr (d', r', c')
           \<and> repaint_canvas H pl False c' = Inr c'' \<and> canvas_ok H (length pl) c''"
proof (rule guarded_arm_keeps_canvas_ok [OF key_npage_lprog_guarded _ _ assms(1,5)])
  have "view_ok H (length pl) \<lparr>top_line = top_line c, bottom_line = 0, selected_line = selected_line c\<rparr>"
    using assms(2) by (simp add: canvas_ok_def view_ok_def)
  then obtain k where k: "key_npage H pl \<lparr>top_line = top_line c, bottom_line = 0, selected_line = selected_line c\<rparr> = Inr k"
      and v: "view_ok H (length pl) k"
    using key_npage_view_ok assms(3,5,6) by blast
  have sel: "selected_line c < length pl"
    using assms(2,3) by (simp add: canvas_ok_def view_ok_def)
  have len: "length (key_npage_lprog H pl) = 4" by (simp add: key_npage_lprog_def field_prog_def)
  show "\<exists>d' r' c'. run_plain (take a (key_npage_lprog H pl) @ render_lprog H pl scroll ! 0
          # take b (drop a (key_npage_lprog H pl)) @ render_lprog H pl scroll ! 1
          # drop b (drop a (key_npage_lprog H pl)) @ drop 2 (render_lprog H pl scroll)) (d, r, c)
          = Inr (d', r', c') \<and> view_ok H (length pl) c'"
    if "a \<le> length (key_npage_lprog H pl)" and "b \<le> length (key_npage_lprog H pl)" for a b
    using key_npage_render_inside [OF k v sel assms(5,4)] that len by simp
qed (rule key_npage_render_before [OF assms(2-6)])

lemma center_locked_keeps_canvas_ok:
  assumes f: "\<And>c. canvas_ok H (length pl) c
      \<Longrightarrow> \<exists>nc. f c = Inr nc \<and> view_ok H (length pl) (case nc of None \<Rightarrow> c | Some c' \<Rightarrow> c')"
    and "lock_ok (interleave bs (center_lprog f) (render_lprog H pl scroll)) None"
    and "canvas_ok H (length pl) c" and "0 < H" and "length pl < 2 ^ 31" and "0 < length pl"
  shows "\<exists>d' r' c' c''. run_plain (interleave bs (center_lprog f) (render_lprog H pl scroll)) (d, r, c)
             = Inr (d', r', c')
           \<and> repaint_canvas H pl False c' = Inr c'' \<and> canvas_ok H (length pl) c''"
proof (rule guarded_arm_keeps_canvas_ok [OF center_lprog_guarded _ _ assms(2,5)])
  obtain nc where nc: "f c = Inr nc" and v: "view_ok H (length pl) (case nc of None \<Rightarrow> c | Some c' \<Rightarrow> c')"
    using f [OF assms(3)] by blast
  have sel: "selected_line c < length pl"
    using assms(3,6) by (simp add: canvas_ok_def view_ok_def)
  have len: "length (center_lprog f) = 2" by (simp add: center_lprog_def center_steps_def)
  show "\<exists>d' r' c'. run_plain (take a (center_lprog f) @ render_lprog H pl scroll ! 0
          # take b (drop a (center_lprog f)) @ render_lprog H pl scroll ! 1
          # drop b (drop a (center_lprog f)) @ drop 2 (render_lprog H pl scroll)) (d, r, c)
          = Inr (d', r', c') \<and> view_ok H (length pl) c'"
    if "a \<le> length (center_lprog f)" and "b \<le> length (center_lprog f)" for a b
    using center_render_inside [where f = f and c = c and nc = nc, OF nc v sel assms(5,4)] that len by simp
qed (rule center_render_before [OF f assms(3-5)])

lemma key_o_locked_keeps_canvas_ok:
  assumes "lock_ok (interleave bs (key_o_lprog pl) (render_lprog H pl scroll)) None"
    and "canvas_ok H (length pl) c" and "0 < H" and "H \<le> length pl" and "length pl < 2 ^ 31"
  shows "\<exists>d' r' c' c''. run_plain (interleave bs (key_o_lprog pl) (render_lprog H pl scroll)) (d, r, c)
             = Inr (d', r', c')
           \<and> repaint_canvas H pl False c' = Inr c'' \<and> canvas_ok H (length pl) c''"
proof -
  have "0 < length pl" using assms(3,4) by linarith
  with assms show ?thesis unfolding key_o_lprog_def
    by (intro center_locked_keeps_canvas_ok jump_to_current_view_ok) simp_all
qed

text \<open>KEY_N and the search prompt's Enter center on a search result; when the results
  are entries of the playlist and the playlist is at least a page long, they never
  panic and leave the selection inside the window.\<close>

lemma key_n_canvas_view_ok:
  assumes "canvas_ok H (length (playlist p)) c" and "0 < H" and "H \<le> length (playlist p)"
    and "\<forall>i\<in>set (fst (search_results p)). i < length (playlist p)"
  shows "\<exists>nc. res_bind (key_n p c) (\<lambda>(p', c', rs). Inr (if rs = [] then None else Some c')) = Inr nc
           \<and> view_ok H (length (playlist p)) (case nc of None \<Rightarrow> c | Some c' \<Rightarrow> c')"
proof (cases "search_results p")
  case (Pair rs i)
  show ?thesis
  proof (cases "rs = []")
    case True
    with Pair assms(1) show ?thesis by (simp add: key_n_def canvas_ok_def)
  next
    case False
    let ?j = "if i < length rs - 1 then Suc i else 0"
    from False have "?j < length rs" by auto
    with assms(4) Pair have "rs ! ?j < length (playlist p)" by auto
    then obtain c' where c': "try_center_id (playlist p) c (rs ! ?j) = Inr (Some c')"
      using try_center_id_total assms(1,3) by (fastforce simp: canvas_ok_def)
    moreover from c' assms(1,2) have "canvas_ok H (length (playlist p)) c'"
      by (intro try_center_id_canvas_ok [of c H]) (simp_all add: canvas_ok_def)
    ultimately show ?thesis
      using key_n_unfold [OF Pair False] by (simp add: Let_def canvas_ok_def)
  qed
qed

lemma search_commit_canvas_view_ok:
  assumes "canvas_ok H (length (playlist p)) c" and "0 < H" and "H \<le> length (playlist p)"
    and "\<forall>i\<in>set (search_playlist (playlist p) s). i < length (playlist p)"
  shows "\<exists>nc. res_bind (search_commit s p c) (\<lambda>(p', c', rs).
             Inr (if redraw_list \<in> set rs then Some c' else None)) = Inr nc
           \<and> view_ok H (length (playlist p)) (case nc of None \<Rightarrow> c | Some c' \<Rightarrow> c')"
proof (cases "search_playlist (playlist p) s = []")
  case True
  with assms(1) show ?thesis
    by (auto simp: search_commit_def Let_def canvas_ok_def)
next
  case False
  with assms(4) have "search_playlist (playlist p) s ! 0 < length (playlist p)" by auto
  then obtain c' where c': "try_center_id (playlist p) c (search_playlist (playlist p) s ! 0) = Inr (Some c')"
    using try_center_id_total assms(1,3) by (fastforce simp: canvas_ok_def)
  moreover from c' assms(1,2) have "canvas_ok H (length (playlist p)) c'"
    by (intro try_center_id_canvas_ok [of c H]) (simp_all add: canvas_ok_def)
  ultimately show ?thesis
    using False assms(1) by (auto simp: search_commit_def Let_def canvas_ok_def)
qed

text \<open>C40. Find next (KEY_N) holds the player guard while it centers on the next search
  result and stores the canvas, so under every schedule with the render loop that the
  player mutex allows it neither panics nor tears the canvas: for a playlist at least a
  window long and search results inside it, the arm and the render loop's correction
  both run to the end, and the correction of the request KEY_N sends leaves a consistent
  canvas.\<close>

theorem key_n_locked_keeps_canvas_ok:
  assumes "lock_ok (interleave bs (key_n_lprog p) (render_lprog H (playlist p) scroll)) None"
    and "canvas_ok H (length (playlist p)) c" and "0 < H" and "H \<le> length (playlist p)"
    and "length (playlist p) < 2 ^ 31" and "\<forall>i\<in>set (fst (search_results p)). i < length (playlist p)"
  shows "\<exists>d' r' c' c''. run_plain (interleave bs (key_n_lprog p) (render_lprog H (playlist p) scroll)) (d, r, c)
             = Inr (d', r', c')
           \<and> repaint_canvas H (playlist p) False c' = Inr c'' \<and> canvas_ok H (length (playlist p)) c''"
proof -
  have "0 < length (playlist p)" using assms(3,4) by linarith
  with assms show ?thesis unfolding key_n_lprog_def
    by (intro center_locked_keeps_canvas_ok key_n_canvas_view_ok) simp_all
qed

theorem key_n_locked_keeps_canvas_ok_witness:
  "\<exists>d' r' c' c''. run_plain (interleave [True, True] (key_n_lprog searched_five)
        (render_lprog 3 (playlist searched_five) False))
        (None, \<lparr>r_top = 0, r_sel = 0\<rparr>, \<lparr>top_line = 0, bottom_line = 3, selected_line = 2\<rparr>)
        = Inr (d', r', c')
      \<and> repaint_canvas 3 (playlist searched_five) False c' = Inr c''
      \<and> canvas_ok 3 (length (playlist searched_five)) c''"
  by (rule key_n_locked_keeps_canvas_ok)
     (simp_all add: key_n_lprog_def center_lprog_def center_steps_def render_lprog_def
      render_fix_prog_def may_run_def next_holder_def canvas_ok_def view_ok_def searched_five_def
      five_entries_def)

lemma search_enter_locked_keeps_canvas_ok:
  assumes "lock_ok (interleave bs (search_enter_lprog s p) (render_lprog H (playlist p) scroll)) None"
    and "canvas_ok H (length (playlist p)) c" and "0 < H" and "H \<le> length (playlist p)"
    and "length (playlist p) < 2 ^ 31"
    and "\<forall>i\<in>set (search_playlist (playlist p) s). i < length (playlist p)"
  shows "\<exists>d' r' c' c''. run_plain (interleave bs (search_enter_lprog s p) (render_lprog H (playlist p) scroll))
             (d, r, c) = Inr (d', r', c')
           \<and> repaint_canvas H (playlist p) False c' = Inr c'' \<and> canvas_ok H (length (playlist p)) c''"
proof -
  have "0 < length (playlist p)" using assms(3,4) by linarith
  with assms show ?thesis unfolding search_enter_lprog_def
    by (intro center_locked_keeps_canvas_ok search_commit_canvas_view_ok) simp_all
qed

text \<open>C5. KEY_Z tears the canvas. The render loop handles a \<open>scroll_to_beginning\<close>
  request while KEY_Z centers on entry 8 of ten in a three-row window. Run one after
  the other, the two handlers leave a consistent canvas in either order; but when
  KEY_Z's two sections fall between the render loop's reset of \<open>top_line\<close> and its
  reset of \<open>selected_line\<close>, the canvas keeps KEY_Z's window with the selection 0
  outside it, and the correction of the request KEY_Z sends does not bring it back.\<close>

theorem key_z_race_tears_canvas:
  "run_plain (key_z_lprog current_at_eight @ render_lprog 3 current_at_eight True)
       (None, \<lparr>r_top = 0, r_sel = 0\<rparr>, \<lparr>top_line = 0, bottom_line = 3, selected_line = 0\<rparr>)
     = Inr (Some \<lparr>top_line = 7, bottom_line = 10, selected_line = 8\<rparr>, \<lparr>r_top = 0, r_sel = 0\<rparr>,
            \<lparr>top_line = 0, bottom_line = 3, selected_line = 0\<rparr>)
   \<and> run_plain (render_lprog 3 current_at_eight True @ key_z_lprog current_at_eight)
       (None, \<lparr>r_top = 0, r_sel = 0\<rparr>, \<lparr>top_line = 0, bottom_line = 3, selected_line = 0\<rparr>)
     = Inr (Some \<lparr>top_line = 7, bottom_line = 10, selected_line = 8\<rparr>, \<lparr>r_top = 0, r_sel = 0\<rparr>,
            \<lparr>top_line = 7, bottom_line = 10, selected_line = 8\<rparr>)
   \<and> lock_ok (interleave [False, False, False, True, True]
       (key_z_lprog current_at_eight) (render_lprog 3 current_at_eight True)) None
   \<and> run_plain (interleave [False, False, False, True, True]
       (key_z_lprog current_at_eight) (render_lprog 3 current_at_eight True))
       (None, \<lparr>r_top = 0, r_sel = 0\<rparr>, \<lparr>top_line = 0, bottom_line = 3, selected_line = 0\<rparr>)
     = Inr (Some \<lparr>top_line = 7, bottom_line = 10, selected_line = 8\<rparr>, \<lparr>r_top = 0, r_sel = 0\<rparr>,
            \<lparr>top_line = 7, bottom_line = 3, selected_line = 0\<rparr>)
   \<and> repaint_canvas 3 current_at_eight False \<lparr>top_line = 7, bottom_line = 3, selected_line = 0\<rparr>
     = Inr \<lparr>top_line = 7, bottom_line = 10, selected_line = 0\<rparr>
   \<and> \<not> view_ok 3 (length current_at_eight) \<lparr>top_line = 7, bottom_line = 10, selected_line = 0\<rparr>"
proof -
  have n: "length current_at_eight = 10" by (simp add: current_at_eight_def)
  have cur: "find_current 0 current_at_eight = 8" by (simp add: current_at_eight_def numeral_eq_Suc)
  have z: "jump_to_current current_at_eight \<lparr>top_line = 0, bottom_line = 3, selected_line = 0\<rparr>
      = Inr (Some \<lparr>top_line = 7, bottom_line = 10, selected_line = 8\<rparr>)"
    by (simp add: jump_to_current_def cur try_center_id_def usub_def n)
  show ?thesis
    by (simp add: key_z_lprog_def center_steps_def render_lprog_def render_fix_prog_def z n
        repaint_canvas_def may_run_def next_holder_def view_ok_def)
qed

end
