(* ===== verification/Spec2Isabelle.thy ===== *)
theory Spec2Isabelle
  imports Startup LockedArms
begin

text \<open>
  \<^bold>\<open>A verification model of ncmpvc.\<close>
  ncmpvc (\<^verbatim>\<open>src/src/main.rs\<close>) is an ncurses front end for mpv. After start-up
  (lines 106--310) it runs three threads that share two mutexes, the player store
  \<open>Player\<close> and the viewport \<open>PlaylistCanvas\<close>, and one \<open>mpsc\<close> channel of
  \<open>Repaint\<close> requests:
  \<^item> the property listener (lines 178--300) turns mpv's property-change events into
    writes of the store and repaint requests;
  \<^item> the input listener (lines 311--679) reads keys, moves the viewport, runs mpv
    commands and drives the incremental search prompt;
  \<^item> the render loop of the main thread (lines 690--857) takes one request at a time
    from the channel, corrects the canvas and draws one pane.

  \<^bold>\<open>Theories.\<close>
  \<^item> \<open>Prelude\<close>: Rust panics as the left side of \<open>'a res = rust_error + 'a\<close>
    (\<open>res_bind\<close> threads them), \<open>usize\<close> subtraction \<open>usub\<close> (the debug-build
    underflow panic), checked indexing \<open>vec_index\<close>, \<open>as i32\<close> casts through
    \<open>32 word\<close> (\<open>as_i32\<close>) and the checked \<open>i32\<close> range \<open>i32_ok\<close>; \<open>f64\<close> as reals
    with infinities and NaN (\<open>fdiv\<close>, \<open>fmul\<close>, the saturating casts \<open>f_as_int\<close>);
    the \<open>Repaint\<close> message types (lines 32--68); the ncurses key codes; decimal
    printing \<open>show_nat\<close>.
  \<^item> \<open>Viewport\<close>: \<open>PlaylistCanvas\<close>, \<open>try_center_id\<close>, \<open>jump_to_current\<close>, the
    navigation arms \<open>key_up\<close>, \<open>key_down\<close>, \<open>key_ppage\<close>, \<open>key_npage\<close> (one
    \<open>navigate\<close> over them) and the render loop's correction \<open>repaint_canvas\<close>. The
    invariant \<open>canvas_ok\<close> (the window is \<open>H\<close> rows, the selection visible and
    inside the playlist); its preservation by navigation followed by the correction
    (C1); the refinement of the abstract centering \<open>center_window\<close> by
    \<open>try_center_id\<close> (C3), its error paths (C4, C7), and the one case in which it
    scrolls a playlist that fits the window (C6).
  \<^item> \<open>Player\<close>: the store \<open>Player\<close>, mpv's \<open>MpvDataType\<close>, the listener's
    \<open>property_change\<close> per observed property, \<open>listener_step\<close> and \<open>listener_run\<close>;
    decoding by payload type (C37) and the frame of the listener: it never touches
    the search results and announces every playlist change (C38).
  \<^item> \<open>Search\<close>: \<open>search_playlist\<close> against the reference specification by
    \<open>sublist\<close> (C8), the prompt \<open>search_key\<close> with UTF-8 encoding and decoding of
    the pattern (\<open>utf8_encode\<close>, \<open>pop_char\<close>; the round trip C10), the prompt's
    own loop \<open>search_session\<close> over a stream of keys, which returns exactly when a
    closing or panicking key comes (C15), "find next" \<open>key_n\<close> (C12).
  \<^item> \<open>StatusBar\<close>: \<open>get_pretty_time\<close> (C14, C16), the percentage and the progress
    bar, with the \<open>i32\<close> overflow of the bar arithmetic (C17--C20).
  \<^item> \<open>Input\<close>: one key of the input thread, \<open>input_key\<close> (browse mode
    \<open>browse_key\<close>, every arm, or the search prompt), with mpv's answers as an
    environment \<open>MpvEnv\<close>; the arms with effects of their own are definitions of
    their own (\<open>key_o_arm\<close>, \<open>key_slash_arm\<close>, \<open>key_u_arm\<close>, \<open>key_z_arm\<close>)
    (C21--C24).
  \<^item> \<open>Render\<close>: \<open>print_playlist\<close> with UTF-8 character counting and
    \<open>String::truncate\<close> (C25, C26), and the render loop's arms \<open>render_request\<close>
    as lists of ncurses calls (C27); \<open>rows_fit\<close>, under which printing never panics.
  \<^item> \<open>System\<close>: the three threads together. \<open>SysState\<close> holds the store, the
    canvas, the channel, the prompt, which threads are alive, which mutexes are
    poisoned, and ghost logs of the requests sent and drawn; \<open>sys_exec\<close> runs one
    step of one thread (an event, a key, a request) atomically, \<open>reachable\<close> closes
    the start-up state under steps in any interleaving. The channel is FIFO (C28);
    two interleavings crash the program (the metadata race C29, a poisoned lock after
    a panic of the input thread C31); one leaves the selection off the screen (C30);
    the render loop drains the channel (C32).
  \<^item> \<open>Startup\<close>: the pane layout of \<open>main\<close> (\<open>panes\<close>, \<open>height_playlist_win\<close>), the
    initial store built from mpv's answers (\<open>startup_player\<close>) and \<open>start\<close>, which
    gives the initial system state or the exit on a failed connection; \<open>start_system\<close>
    adds the property listener's own connection and its eight registrations
    (\<open>observer_setup\<close>), whose failure ends only the listener thread. Its error
    behaviour (C39). The initial canvas is six rows taller than the pane; its
    consequence is C30.
  \<^item> \<open>Concurrency\<close>: the per-field locking of the canvas. KEY_UP, KEY_PPAGE and the
    render loop's correction are lists of critical sections, one per
    \<open>lock().unwrap()\<close> (\<open>key_up_prog\<close>, \<open>key_ppage_prog\<close>, \<open>render_fix_prog\<close>),
    merged by a schedule (\<open>interleave\<close>, \<open>run_steps\<close>). The orders without overlap
    are the atomic handlers used everywhere else (\<open>sequential_schedules_atomic\<close>) and
    keep the canvas consistent (C34); an overlapping order tears the canvas (C35) into a
    state no navigation key repairs (C36).
  \<^item> \<open>Locking\<close>: the player mutex on top of the per-field locking. Critical sections
    carry the operation on the player guard (\<open>LockOp\<close>, \<open>LStep\<close>); \<open>lock_ok\<close> holds
    of the schedules that respect the mutex and \<open>run_plain\<close> runs them. KEY_DOWN
    (\<open>key_down_lprog\<close>) and the render loop's arm (\<open>render_lprog\<close>) hold the guard
    from their first use of \<open>playlist\<close> to the end of the arm, so their sections never
    overlap (\<open>locked_sections\<close>): a guarded arm runs with the render loop's two early
    reads slotted into it, or after the whole render arm (\<open>guarded_arm_race\<close>,
    \<open>guarded_render_race\<close>). KEY_DOWN is linearizable: every such schedule ends, after
    the correction of its request, in the canvas of the atomic model
    (\<open>seq_key_render\<close>, \<open>seq_render_key\<close>) (C9); it leaves a consistent canvas; all of
    KEY_UP's schedules are allowed (\<open>key_up_lock_free\<close>).
  \<^item> \<open>LockedArms\<close>: the other arms that write the canvas, as critical sections:
    KEY_NPAGE (\<open>key_npage_lprog\<close>), the centering shape \<open>center_steps\<close> with the guard
    (\<open>center_lprog\<close>) for KEY_O, KEY_N and the search prompt's Enter
    (\<open>key_o_lprog\<close>, \<open>key_n_lprog\<close>, \<open>search_enter_lprog\<close>), and without it for
    KEY_Z (\<open>key_z_lprog\<close>). The guarded arms leave a consistent canvas under every
    schedule (\<open>key_npage_locked_keeps_canvas_ok\<close>, \<open>key_o_locked_keeps_canvas_ok\<close>,
    \<open>key_n_locked_keeps_canvas_ok\<close> (C40), \<open>search_enter_locked_keeps_canvas_ok\<close>); KEY_Z's
    sections can straddle the render loop's reset and tear the canvas (C5).
  \<^item> This theory: the composition of the input thread and the render loop under a
    sequential schedule (C33).

  \<^bold>\<open>Bounds.\<close> Widths are at their Rust width where the code can overflow: \<open>as i32\<close>
  casts wrap (\<open>as_i32\<close>), arithmetic in \<open>i32\<close> is checked (debug build), the
  playlist length is bounded by \<open>2^31\<close> and the pane height by \<open>2^30\<close> where the
  theorems need the casts to be exact. The pane height \<open>H\<close> is a \<open>nat\<close>: on a terminal
  of fewer than six rows \<open>height_playlist_win as usize\<close> would wrap, which is not
  modelled; \<open>usize\<close> additions are unbounded (their overflow needs a window near
  \<open>2^64\<close> rows); \<open>progress_bar\<close> evaluates the bar's mark also when \<open>max_x \<le> 0\<close>, where the
  code's loop body never runs. In \<open>reachable\<close> the terminal height of the initial
  state is a parameter of its own, not tied to \<open>H\<close>. The loops of the code over data are structural
  recursions over lists (\<open>search_playlist\<close>, the rows of \<open>print_playlist\<close>, a run of
  the system over a list of actions), so no fuel is needed. The search prompt's loop
  reads keys until one closes it and need not end: it is a \<open>partial_function\<close> in
  the option monad (C15 says when it returns). The unbounded loops of the threads are
  the step relation \<open>reachable\<close>; schedules of critical sections are finite lists.

  \<^bold>\<open>Not modelled.\<close> Of start-up, the ncurses initialisation (\<open>initscr\<close>,
  \<open>noecho\<close>, \<open>keypad\<close>, \<open>curs_set\<close>, lines 107--111) and \<open>setlocale\<close> are library
  calls that configure the terminal and have no effect on the modelled state, as is
  \<open>print_status\<close> (lines 681, 981--985), which writes a fixed test message to the
  status bar once before the first repaint. ncurses and mpvipc are libraries: their
  calls are recorded as values (\<open>DrawOp\<close>, \<open>MpvCommand\<close>) and mpv's answers are an
  environment. The \<open>error!\<close> macro (module \<open>macros\<close>, whose file is not among
  the sources) is used once, to print the connection error before the program ends;
  \<open>start\<close> models that arm as \<open>Exited\<close>. The status-bar error of the input thread is
  the \<open>Error\<close> trait of the sender (lines 88--104), modelled by \<open>report_error\<close>. Within one handler the code takes the canvas lock
  once per field; outside \<open>Concurrency\<close>, \<open>Locking\<close> and \<open>LockedArms\<close> the model takes each
  handler as one atomic update. \<open>Concurrency\<close> splits KEY_UP and KEY_PPAGE, which take
  no player guard, and the render loop's correction; \<open>Locking\<close> and \<open>LockedArms\<close>
  split every other arm that writes the canvas. The arms that only read
  \<open>selected_line\<close> (KEY_ENTER, KEY_R) take the canvas lock once and are atomic. In the
  lock model only the canvas is state: the player store, written by the guarded arms
  (KEY_N's cursor, the search results), is not read by the render arm's canvas steps. The first playlist request is queued
  in the initial state; the code sends it after spawning the two listeners (line 684),
  so the model covers the schedules in which it comes first. Floating-point
  rounding is not modelled (\<open>f64\<close> values are reals).
\<close>

section \<open>Composition of the threads\<close>

text \<open>C33. Navigation composed with the render loop: when a key of the input thread
  and the playlist request it sends are handled one after the other, the canvas stays
  consistent (\<open>canvas_ok\<close>), the channel is empty again and the input thread keeps
  running, as long as the playlist is not empty and its rows fit the pane.\<close>

theorem sequential_navigation_keeps_canvas_ok:
  assumes "browsing s" and "queue s = []"
    and "canvas_ok H (length (playlist (store s))) (view s)"
    and "0 < length (playlist (store s))" and "0 < H"
    and "length (playlist (store s)) < 2 ^ 31" and "H < 2 ^ 30"
    and "rows_fit max_x (playlist (store s))"
  shows "\<exists>t. sys_run H max_x (Running s) [Key env (nav_code k), Draw mt] = Running t
             \<and> queue t = [] \<and> browsing t \<and> store t = store s
             \<and> canvas_ok H (length (playlist (store s))) (view t)"
proof -
  let ?pl = "playlist (store s)"
  obtain c' where c': "navigate H ?pl k (view s) = Inr c'" and v: "view_ok H (length ?pl) c'"
    using navigate_view_ok [OF assms(3-7)] by blast
  let ?s1 = "s\<lparr>view := c', queue := [redraw_list], sent := sent s @ [redraw_list]\<rparr>"
  have 1: "sys_exec H max_x (Running s) (Key env (nav_code k)) = Running ?s1"
    using sys_exec_nav [OF assms(1)] c' assms(2) by simp
  have 2: "sys_exec H max_x (Running ?s1) (Draw mt)
           = Running (?s1\<lparr>view := c'\<lparr>bottom_line := top_line c' + H\<rparr>, queue := [],
                           drawn := drawn s @ [redraw_list]\<rparr>)"
    using sys_exec_draw_list [of ?s1 max_x H mt] assms(1,8) repaint_canvas_keep [OF v assms(6)]
    by (simp add: browsing_def request_locks_canvas_def del: sys_exec.simps)
  show ?thesis
    using 1 2 assms(1) repaint_canvas_keep [OF v assms(6)] by (simp add: browsing_def del: sys_exec.simps)
qed

theorem sequential_navigation_keeps_canvas_ok_witness:
  "\<exists>t. sys_run 3 80 (Running ((initial_state (idle_player\<lparr>playlist := ten_entries\<rparr>) 3\<lparr>queue := []\<rparr>)))
          [Key accepting_mpv (nav_code KeyDown), Draw None] = Running t
       \<and> queue t = [] \<and> browsing t
       \<and> store t = store (initial_state (idle_player\<lparr>playlist := ten_entries\<rparr>) 3\<lparr>queue := []\<rparr>)
       \<and> canvas_ok 3 (length (playlist (store (initial_state (idle_player\<lparr>playlist := ten_entries\<rparr>) 3\<lparr>queue := []\<rparr>))))
           (view t)"
  by (rule sequential_navigation_keeps_canvas_ok)
     (simp_all add: browsing_def initial_state_def canvas_ok_def view_ok_def length_ten_entries
      rows_fit_ten_entries)

end
